(* ===== verification/Prelude.thy ===== *)
theory Prelude
  imports Main "HOL-Library.AList" "HOL-Library.Char_ord" "HOL-Library.List_Lexorder"
begin

text \<open>
  Shared vocabulary of the development: how values of Go are represented, and the
  fragments of Go's language and standard library (\<open>strings\<close>, \<open>strconv\<close>, built-in
  maps, 64-bit integers) that the components of locaccel use.

  \<^item> A Go string or byte slice is a \<^typ>\<open>string\<close>; a \<^typ>\<open>char\<close> is one byte.
  \<^item> A run-time panic is the value \<open>Panic\<close> of the type \<open>'a go\<close>; a normal return is \<open>Ret\<close>.
  \<^item> A Go \<open>int\<close>, \<open>int64\<close> or \<open>time.Duration\<close> is an \<^typ>\<open>int\<close> whose arithmetic is wrapped
    by \<open>wrap64\<close> wherever the code can overflow.
  \<^item> A Go slice that may be nil is an \<open>option\<close>: \<open>None\<close> is nil.
  \<^item> A Go map is an association list, updated by \<^const>\<open>AList.update\<close> and
    \<^const>\<open>AList.delete\<close>, so that the code's iterations over maps can be executed.
\<close>

named_theorems go_simps "evaluation rules for the Go fragments used by the components"

section \<open>Panics\<close>

datatype 'a go = Ret 'a | Panic string

fun go_bind :: "'a go \<Rightarrow> ('a \<Rightarrow> 'b go) \<Rightarrow> 'b go" where
  "go_bind (Ret x) f = f x"
| "go_bind (Panic m) f = Panic m"

lemma go_bind_eq_Ret [simp]:
  "go_bind m f = Ret y \<longleftrightarrow> (\<exists>x. m = Ret x \<and> f x = Ret y)"
  by (cases m) auto

fun panics :: "'a go \<Rightarrow> bool" where
  "panics (Ret x) = False"
| "panics (Panic m) = True"

lemma not_panics_iff: "\<not> panics m \<longleftrightarrow> (\<exists>x. m = Ret x)"
  by (cases m) auto

section \<open>64-bit integers\<close>

abbreviation max_int64 :: int where "max_int64 \<equiv> 9223372036854775807"
abbreviation min_int64 :: int where "min_int64 \<equiv> - 9223372036854775808"
abbreviation max_uint64 :: int where "max_uint64 \<equiv> 18446744073709551615"

definition in_int64 :: "int \<Rightarrow> bool" where
  "in_int64 i \<longleftrightarrow> min_int64 \<le> i \<and> i \<le> max_int64"

definition wrap64 :: "int \<Rightarrow> int" where
  "wrap64 i = (i + 9223372036854775808) mod 18446744073709551616 - 9223372036854775808"

lemma wrap64_in_range: "in_int64 (wrap64 i)"
  by (simp add: wrap64_def in_int64_def)

lemma wrap64_id [simp]: "in_int64 i \<Longrightarrow> wrap64 i = i"
  by (simp add: wrap64_def in_int64_def)

text \<open>Go's \<open>/\<close> on integers truncates towards zero.\<close>

definition go_quot :: "int \<Rightarrow> int \<Rightarrow> int" where
  "go_quot a b = sgn a * sgn b * (\<bar>a\<bar> div \<bar>b\<bar>)"

lemma go_quot_nonneg: "0 \<le> a \<Longrightarrow> 0 < b \<Longrightarrow> go_quot a b = a div b"
  by (cases "a = 0") (auto simp: go_quot_def)

lemma go_quot_le: "0 \<le> a \<Longrightarrow> 0 < b \<Longrightarrow> go_quot a b \<le> a"
  using zdiv_mono2 [of a 1 b] by (simp add: go_quot_nonneg)

section \<open>Package strings\<close>

definition HasPrefix :: "string \<Rightarrow> string \<Rightarrow> bool" where
  "HasPrefix s p \<longleftrightarrow> take (length p) s = p"

definition TrimPrefix :: "string \<Rightarrow> string \<Rightarrow> string" where
  "TrimPrefix s p = (if HasPrefix s p then drop (length p) s else s)"

text \<open>\<open>strings.CutPrefix\<close>: the rest of the string and whether the prefix was there.\<close>

definition CutPrefix :: "string \<Rightarrow> string \<Rightarrow> string \<times> bool" where
  "CutPrefix s p = (if HasPrefix s p then (drop (length p) s, True) else (s, False))"

lemma HasPrefix_append [simp]: "HasPrefix (p @ s) p"
  by (simp add: HasPrefix_def)

lemma HasPrefix_iff: "HasPrefix s p \<longleftrightarrow> (\<exists>r. s = p @ r)"
  by (metis HasPrefix_append HasPrefix_def append_take_drop_id)

lemma TrimPrefix_append [simp]: "TrimPrefix (p @ s) p = s"
  by (simp add: TrimPrefix_def)

text \<open>\<open>strings.SplitSeq\<close> with a one-byte separator, as the list of the sequence's elements.\<close>

fun split_on :: "char \<Rightarrow> string \<Rightarrow> string list" where
  "split_on c [] = [[]]"
| "split_on c (x # xs) =
     (if x = c then [] # split_on c xs
      else (case split_on c xs of [] \<Rightarrow> [[x]] | y # ys \<Rightarrow> (x # y) # ys))"

fun Join :: "string list \<Rightarrow> string \<Rightarrow> string" where
  "Join [] sep = []"
| "Join [x] sep = x"
| "Join (x # y # ys) sep = x @ sep @ Join (y # ys) sep"

lemma split_on_nonempty [simp]: "split_on c s \<noteq> []"
  by (induction s) (auto split: list.splits)

lemma Join_split_on: "Join (split_on c s) [c] = s"
proof (induction s)
  case Nil
  then show ?case by simp
next
  case (Cons x xs)
  obtain y ys where s: "split_on c xs = y # ys"
    by (cases "split_on c xs") auto
  with Cons.IH show ?case by (cases ys) auto
qed

lemma split_on_no_sep: "c \<notin> set s \<Longrightarrow> split_on c s = [s]"
  by (induction s) auto

lemma split_on_append: "c \<notin> set s \<Longrightarrow> split_on c (s @ c # t) = s # split_on c t"
  by (induction s) auto

lemma split_on_pieces: "p \<in> set (split_on c s) \<Longrightarrow> c \<notin> set p"
proof (induction s arbitrary: p)
  case Nil
  then show ?case by simp
next
  case (Cons x xs)
  obtain y ys where s: "split_on c xs = y # ys"
    by (cases "split_on c xs") auto
  with Cons.IH have "c \<notin> set y" and "\<forall>q \<in> set ys. c \<notin> set q" by auto
  with Cons.prems s show ?case by (auto split: if_splits)
qed

text \<open>\<open>strings.Cut\<close> at a one-byte separator: before, after, found.\<close>

definition Cut :: "string \<Rightarrow> char \<Rightarrow> string \<times> string \<times> bool" where
  "Cut s c = (if c \<in> set s then (takeWhile (\<lambda>x. x \<noteq> c) s, tl (dropWhile (\<lambda>x. x \<noteq> c) s), True)
              else (s, [], False))"

lemma Cut_found [simp]: "c \<notin> set k \<Longrightarrow> Cut (k @ c # v) c = (k, v, True)"
  by (simp add: Cut_def takeWhile_append dropWhile_append)

lemma Cut_not_found [simp]: "c \<notin> set k \<Longrightarrow> Cut k c = (k, [], False)"
  by (simp add: Cut_def)

text \<open>
  \<open>strings.TrimSpace\<close> removes leading and trailing Unicode white space. The list holds the
  UTF-8 encodings of the code points for which \<open>unicode.IsSpace\<close> holds: the six ASCII ones,
  U+0085, U+00A0, U+1680, U+2000 to U+200A, U+2028, U+2029, U+202F, U+205F and U+3000.
\<close>

definition space_encodings :: "string list" where
  "space_encodings =
     [[CHR 0x09], [CHR 0x0A], [CHR 0x0B], [CHR 0x0C], [CHR 0x0D], [CHR 0x20],
      [CHR 0xC2, CHR 0x85], [CHR 0xC2, CHR 0xA0], [CHR 0xE1, CHR 0x9A, CHR 0x80],
      [CHR 0xE2, CHR 0x80, CHR 0x80], [CHR 0xE2, CHR 0x80, CHR 0x81],
      [CHR 0xE2, CHR 0x80, CHR 0x82], [CHR 0xE2, CHR 0x80, CHR 0x83],
      [CHR 0xE2, CHR 0x80, CHR 0x84], [CHR 0xE2, CHR 0x80, CHR 0x85],
      [CHR 0xE2, CHR 0x80, CHR 0x86], [CHR 0xE2, CHR 0x80, CHR 0x87],
      [CHR 0xE2, CHR 0x80, CHR 0x88], [CHR 0xE2, CHR 0x80, CHR 0x89],
      [CHR 0xE2, CHR 0x80, CHR 0x8A], [CHR 0xE2, CHR 0x80, CHR 0xA8],
      [CHR 0xE2, CHR 0x80, CHR 0xA9], [CHR 0xE2, CHR 0x80, CHR 0xAF],
      [CHR 0xE2, CHR 0x81, CHR 0x9F], [CHR 0xE3, CHR 0x80, CHR 0x80]]"

definition strip_space :: "string \<Rightarrow> string option" where
  "strip_space s = map_option (\<lambda>e. drop (length e) s) (find (HasPrefix s) space_encodings)"

lemma space_encodings_nonempty: "e \<in> set space_encodings \<Longrightarrow> e \<noteq> []"
  by (auto simp: space_encodings_def)

lemma strip_space_shorter: "strip_space s = Some t \<Longrightarrow> length t < length s"
proof -
  assume "strip_space s = Some t"
  then obtain e where e: "find (HasPrefix s) space_encodings = Some e" "t = drop (length e) s"
    by (auto simp: strip_space_def)
  then have "e \<in> set space_encodings" "HasPrefix s e"
    by (auto simp: find_Some_iff)
  then have "e \<noteq> []" "s = e @ t"
    using e by (auto simp: space_encodings_nonempty HasPrefix_iff)
  then show ?thesis by simp
qed

function trim_left :: "string \<Rightarrow> string" where
  "trim_left s = (case strip_space s of None \<Rightarrow> s | Some t \<Rightarrow> trim_left t)"
  by pat_completeness auto
termination
  by (relation "measure length") (auto dest: strip_space_shorter)

declare trim_left.simps [simp del]

text \<open>Trailing white space: the same on the reversed string with the reversed encodings.\<close>

definition strip_space_end :: "string \<Rightarrow> string option" where
  "strip_space_end s =
     map_option (\<lambda>e. take (length s - length e) s)
       (find (\<lambda>e. HasPrefix (rev s) (rev e)) space_encodings)"

lemma strip_space_end_shorter: "strip_space_end s = Some t \<Longrightarrow> length t < length s"
proof -
  assume "strip_space_end s = Some t"
  then obtain e where e: "find (\<lambda>e. HasPrefix (rev s) (rev e)) space_encodings = Some e"
      "t = take (length s - length e) s"
    by (auto simp: strip_space_end_def)
  then have "e \<in> set space_encodings" "HasPrefix (rev s) (rev e)"
    by (auto simp: find_Some_iff)
  then have "e \<noteq> []" "length e \<le> length s"
    by (auto simp: space_encodings_nonempty HasPrefix_def dest: arg_cong [where f = length])
  with e show ?thesis by (cases e) auto
qed

function trim_right :: "string \<Rightarrow> string" where
  "trim_right s = (case strip_space_end s of None \<Rightarrow> s | Some t \<Rightarrow> trim_right t)"
  by pat_completeness auto
termination
  by (relation "measure length") (auto dest: strip_space_end_shorter)

declare trim_right.simps [simp del]

definition TrimSpace :: "string \<Rightarrow> string" where
  "TrimSpace s = trim_right (trim_left s)"

lemma trim_left_stripped: "strip_space (trim_left s) = None"
proof (induction s rule: trim_left.induct)
  case (1 s)
  then show ?case by (cases "strip_space s") (simp_all add: trim_left.simps [of s])
qed

lemma trim_right_stripped: "strip_space_end (trim_right s) = None"
proof (induction s rule: trim_right.induct)
  case (1 s)
  then show ?case by (cases "strip_space_end s") (simp_all add: trim_right.simps [of s])
qed

text \<open>A string that neither starts nor ends with white space is its own trimming.\<close>

lemma TrimSpace_id: "strip_space s = None \<Longrightarrow> strip_space_end s = None \<Longrightarrow> TrimSpace s = s"
  by (simp add: TrimSpace_def trim_left.simps [of s] trim_right.simps [of s])

section \<open>Package strconv\<close>

definition is_digit :: "char \<Rightarrow> bool" where
  "is_digit c \<longleftrightarrow> 48 \<le> (of_char c :: nat) \<and> (of_char c :: nat) \<le> 57"

definition digit_val :: "char \<Rightarrow> int" where
  "digit_val c = int (of_char c :: nat) - 48"

datatype num_error = ErrSyntax | ErrRange

text \<open>
  The digit loop of \<open>ParseUint\<close> in base 10 with 64 bits: a byte that is no digit is a syntax
  error, a value above the largest unsigned 64-bit integer a range error as soon as it occurs.
\<close>

fun parse_uint :: "int \<Rightarrow> string \<Rightarrow> num_error + int" where
  "parse_uint n [] = Inr n"
| "parse_uint n (c # cs) =
     (if \<not> is_digit c then Inl ErrSyntax
      else if max_uint64 < 10 * n + digit_val c then Inl ErrRange
      else parse_uint (10 * n + digit_val c) cs)"

text \<open>
  \<open>strconv.Atoi\<close> returns a value and an error: zero with a syntax error, the nearest
  representable value with a range error.
\<close>

definition Atoi :: "string \<Rightarrow> int \<times> num_error option" where
  "Atoi s =
     (let neg = HasPrefix s ''-'';
          ds = (if neg \<or> HasPrefix s ''+'' then tl s else s)
      in if ds = [] then (0, Some ErrSyntax)
         else (case parse_uint 0 ds of
                 Inl ErrSyntax \<Rightarrow> (0, Some ErrSyntax)
               | Inl ErrRange \<Rightarrow> (if neg then min_int64 else max_int64, Some ErrRange)
               | Inr u \<Rightarrow>
                   if \<not> neg \<and> max_int64 < u then (max_int64, Some ErrRange)
                   else if neg \<and> max_int64 + 1 < u then (min_int64, Some ErrRange)
                   else (if neg then - u else u, None)))"

lemma Atoi_in_range: "in_int64 (fst (Atoi s))"
proof -
  have nonneg: "parse_uint n ds = Inr u \<Longrightarrow> 0 \<le> n \<Longrightarrow> 0 \<le> u" for n ds u
    by (induction ds arbitrary: n)
      (auto simp: digit_val_def is_digit_def split: if_splits)
  show ?thesis
    by (auto simp: Atoi_def Let_def in_int64_def dest!: nonneg
        split: sum.split num_error.split)
qed

fun dec_digits :: "nat \<Rightarrow> string" where
  "dec_digits n = (if n < 10 then [char_of (n + 48)]
                   else dec_digits (n div 10) @ [char_of (n mod 10 + 48)])"

declare dec_digits.simps [simp del]

text \<open>\<open>strconv.Itoa\<close>, and \<open>strconv.FormatFloat\<close> of a whole number with format f and precision 0.\<close>

definition Itoa :: "int \<Rightarrow> string" where
  "Itoa i = (if i < 0 then CHR ''-'' # dec_digits (nat (- i)) else dec_digits (nat i))"

lemma digit_char [simp]: "d < 10 \<Longrightarrow> is_digit (char_of (d + 48 :: nat))"
  by (simp add: is_digit_def of_char_of)

lemma digit_val_char [simp]: "d < 10 \<Longrightarrow> digit_val (char_of (d + 48 :: nat)) = int d"
  by (simp add: digit_val_def of_char_of)

lemma parse_uint_append:
  "parse_uint n (xs @ ys) = (case parse_uint n xs of Inl e \<Rightarrow> Inl e | Inr m \<Rightarrow> parse_uint m ys)"
  by (induction xs arbitrary: n) auto

lemma parse_uint_dec_digits: "int n \<le> max_uint64 \<Longrightarrow> parse_uint 0 (dec_digits n) = Inr (int n)"
proof (induction n rule: dec_digits.induct)
  case (1 n)
  show ?case
  proof (cases "n < 10")
    case True
    then show ?thesis by (simp add: dec_digits.simps [of n])
  next
    case False
    with 1 have "parse_uint 0 (dec_digits (n div 10)) = Inr (int (n div 10))" by simp
    moreover have "10 * (int n div 10) + int n mod 10 = int n" by simp
    ultimately show ?thesis using False "1.prems"
      by (simp add: dec_digits.simps [of n] parse_uint_append zdiv_int zmod_int)
  qed
qed

lemma dec_digits_digits: "c \<in> set (dec_digits n) \<Longrightarrow> is_digit c"
  by (induction n rule: dec_digits.induct)
    (subst (asm) (2) dec_digits.simps, auto split: if_splits)

lemma dec_digits_nonempty [simp]: "dec_digits n \<noteq> []"
  by (subst dec_digits.simps) simp

lemma dec_digits_no_sign: "\<not> HasPrefix (dec_digits n) ''-'' \<and> \<not> HasPrefix (dec_digits n) ''+''"
proof -
  have "is_digit (hd (dec_digits n))"
    by (rule dec_digits_digits [of _ n]) (rule hd_in_set [OF dec_digits_nonempty])
  then show ?thesis by (cases "dec_digits n") (auto simp: HasPrefix_def is_digit_def)
qed

text \<open>Parsing a printed 64-bit integer gives the integer back.\<close>

lemma Atoi_Itoa: "in_int64 i \<Longrightarrow> Atoi (Itoa i) = (i, None)"
  using dec_digits_no_sign [of "nat i"]
  by (auto simp: Atoi_def Itoa_def in_int64_def parse_uint_dec_digits HasPrefix_def)

section \<open>Go maps\<close>

type_synonym ('k, 'v) gomap = "('k \<times> 'v) list"

definition gm_wf :: "('k, 'v) gomap \<Rightarrow> bool" where
  "gm_wf m \<longleftrightarrow> distinct (map fst m)"

definition gm_set :: "('k, 'v) gomap \<Rightarrow> 'k \<Rightarrow> 'v \<Rightarrow> ('k, 'v) gomap" where
  "gm_set m k v = AList.update k v m"

definition gm_del :: "('k, 'v) gomap \<Rightarrow> 'k \<Rightarrow> ('k, 'v) gomap" where
  "gm_del m k = AList.delete k m"

text \<open>\<open>maps.Copy(dst, src)\<close>, and any loop that stores every entry of a map in another.\<close>

fun gm_copy :: "('k, 'v) gomap \<Rightarrow> ('k, 'v) gomap \<Rightarrow> ('k, 'v) gomap" where
  "gm_copy dst [] = dst"
| "gm_copy dst ((k, v) # src) = gm_copy (gm_set dst k v) src"

lemma map_of_gm_set [simp]: "map_of (gm_set m k v) = (map_of m)(k \<mapsto> v)"
  by (simp add: gm_set_def update_conv')

lemma map_of_gm_del [simp]: "map_of (gm_del m k) = (map_of m)(k := None)"
  by (simp add: gm_del_def delete_conv')

lemma gm_wf_empty [simp]: "gm_wf []"
  by (simp add: gm_wf_def)

lemma gm_wf_set [simp]: "gm_wf m \<Longrightarrow> gm_wf (gm_set m k v)"
  by (simp add: gm_wf_def gm_set_def distinct_update)

lemma gm_wf_del [simp]: "gm_wf m \<Longrightarrow> gm_wf (gm_del m k)"
  by (simp add: gm_wf_def gm_del_def distinct_delete)

lemma gm_wf_copy [simp]: "gm_wf dst \<Longrightarrow> gm_wf (gm_copy dst src)"
  by (induction dst src rule: gm_copy.induct) auto

lemma map_of_gm_copy: "gm_wf src \<Longrightarrow> map_of (gm_copy dst src) = map_of dst ++ map_of src"
proof (induction dst src rule: gm_copy.induct)
  case (1 dst)
  then show ?case by simp
next
  case (2 dst k v src)
  then have wf: "gm_wf src" and k: "k \<notin> fst ` set src" by (auto simp: gm_wf_def)
  then have "map_of src k = None" by (simp add: map_of_eq_None_iff)
  with 2 wf show ?case by (auto simp: map_add_def fun_eq_iff split: option.split)
qed

lemma gm_wf_in_set: "gm_wf m \<Longrightarrow> (k, v) \<in> set m \<longleftrightarrow> map_of m k = Some v"
  by (auto simp: gm_wf_def)

text \<open>
  The interface of a Go map that the components rely on: a lookup that sees exactly the last
  store of a key, a removal, and an enumeration of the entries without repetition.
\<close>

locale finite_map =
  fixes lookup :: "'m \<Rightarrow> 'k \<Rightarrow> 'v option"
    and store :: "'m \<Rightarrow> 'k \<Rightarrow> 'v \<Rightarrow> 'm"
    and remove :: "'m \<Rightarrow> 'k \<Rightarrow> 'm"
    and entries :: "'m \<Rightarrow> ('k \<times> 'v) list"
    and wf :: "'m \<Rightarrow> bool"
  assumes lookup_store: "lookup (store m k v) = (lookup m)(k \<mapsto> v)"
    and lookup_remove: "lookup (remove m k) = (lookup m)(k := None)"
    and wf_store: "wf m \<Longrightarrow> wf (store m k v)"
    and wf_remove: "wf m \<Longrightarrow> wf (remove m k)"
    and entries_lookup: "wf m \<Longrightarrow> (k, v) \<in> set (entries m) \<longleftrightarrow> lookup m k = Some v"
    and entries_distinct: "wf m \<Longrightarrow> distinct (map fst (entries m))"
begin

lemma remove_store: "lookup (remove (store m k v) k) = (lookup m)(k := None)"
  by (simp add: lookup_store lookup_remove)

lemma fold_remove: "lookup (fold (\<lambda>k m. remove m k) ks m) = (lookup m) |` (- set ks)"
  by (induction ks arbitrary: m) (auto simp: lookup_remove fun_eq_iff restrict_map_def)

lemma wf_fold_remove: "wf m \<Longrightarrow> wf (fold (\<lambda>k m. remove m k) ks m)"
  by (induction ks arbitrary: m) (auto simp: wf_remove)

lemma all_entries_iff:
  "wf m \<Longrightarrow> (\<forall>(k, v) \<in> set (entries m). P k v) \<longleftrightarrow> (\<forall>k v. lookup m k = Some v \<longrightarrow> P k v)"
  by (auto simp: entries_lookup)

lemma entries_finite: "wf m \<Longrightarrow> finite (dom (lookup m))"
proof -
  assume "wf m"
  then have in_entries: "\<And>k v. lookup m k = Some v \<Longrightarrow> (k, v) \<in> set (entries m)"
    by (simp add: entries_lookup)
  have "dom (lookup m) \<subseteq> fst ` set (entries m)"
  proof
    fix k
    assume "k \<in> dom (lookup m)"
    then obtain v where "lookup m k = Some v" by blast
    then have "(k, v) \<in> set (entries m)" by (rule in_entries)
    then show "k \<in> fst ` set (entries m)" by (rule rev_image_eqI) simp
  qed
  then show ?thesis by (rule finite_subset) simp
qed

end

interpretation gm: finite_map map_of gm_set gm_del "\<lambda>m. m" gm_wf
  by unfold_locales (auto simp: gm_wf_in_set, simp add: gm_wf_def)

end
