(* ===== verification/GoTime.thy ===== *)
theory GoTime
  imports Prelude
begin

text \<open>
  The fragment of Go's packages \<open>time\<close> and \<open>net/http\<close> that the cache uses: instants,
  durations, \<open>http.ParseTime\<close> and \<open>Time.Format(http.TimeFormat)\<close>.

  An instant is the number of nanoseconds since the zero value \<open>time.Time{}\<close> (1 January of
  the year 1, UTC). A duration is a 64-bit number of nanoseconds. \<open>http.ParseTime\<close> tries the
  layouts \<open>http.TimeFormat\<close>, \<open>time.RFC850\<close> and \<open>time.ANSIC\<close>; a zone abbreviation of the second
  one is taken as UTC, as Go does for abbreviations the local zone does not define.
\<close>

type_synonym time = int
type_synonym duration = int

section \<open>Instants and durations\<close>

abbreviation Second :: duration where "Second \<equiv> 1000000000"

definition clamp64 :: "int \<Rightarrow> int" where
  "clamp64 i = max min_int64 (min max_int64 i)"

text \<open>\<open>Time.Sub\<close> saturates at the smallest and largest duration.\<close>

definition Sub :: "time \<Rightarrow> time \<Rightarrow> duration" where
  "Sub t u = clamp64 (t - u)"

text \<open>\<open>Duration.Truncate\<close> rounds towards zero to a multiple of its argument.\<close>

definition Truncate :: "duration \<Rightarrow> duration \<Rightarrow> duration" where
  "Truncate d m = go_quot d m * m"

definition UnixTime :: "time \<Rightarrow> int" where
  "UnixTime t = t div Second - 62135596800"

lemma Sub_in_range [simp]: "in_int64 (Sub t u)"
  by (simp add: Sub_def clamp64_def in_int64_def)

lemma Sub_exact: "in_int64 (t - u) \<Longrightarrow> Sub t u = t - u"
  by (simp add: Sub_def clamp64_def in_int64_def)

lemma Sub_antimono: "u \<le> v \<Longrightarrow> Sub t v \<le> Sub t u"
  by (simp add: Sub_def clamp64_def)

lemma Sub_mono: "t \<le> t' \<Longrightarrow> Sub t u \<le> Sub t' u"
  by (simp add: Sub_def clamp64_def)

lemma Truncate_le: "0 \<le> d \<Longrightarrow> 0 < m \<Longrightarrow> Truncate d m \<le> d"
  by (simp add: Truncate_def go_quot_nonneg minus_mod_eq_div_mult [symmetric])

lemma Truncate_gt: "0 \<le> d \<Longrightarrow> 0 < m \<Longrightarrow> d - m < Truncate d m"
  by (simp add: Truncate_def go_quot_nonneg minus_mod_eq_div_mult [symmetric])

section \<open>The proleptic Gregorian calendar\<close>

definition is_leap :: "int \<Rightarrow> bool" where
  "is_leap y \<longleftrightarrow> y mod 4 = 0 \<and> (y mod 100 \<noteq> 0 \<or> y mod 400 = 0)"

definition days_before_year :: "int \<Rightarrow> int" where
  "days_before_year y = 365 * (y - 1) + (y - 1) div 4 - (y - 1) div 100 + (y - 1) div 400"

text \<open>Days in a month of the year (months count from 1).\<close>

definition daysIn :: "int \<Rightarrow> int \<Rightarrow> int" where
  "daysIn m y = (if m = 2 then (if is_leap y then 29 else 28)
                 else if m \<in> {4, 6, 9, 11} then 30 else 31)"

definition month_starts :: "bool \<Rightarrow> int list" where
  "month_starts leap =
     (if leap then [0, 31, 60, 91, 121, 152, 182, 213, 244, 274, 305, 335]
      else [0, 31, 59, 90, 120, 151, 181, 212, 243, 273, 304, 334])"

definition days_before_month :: "int \<Rightarrow> int \<Rightarrow> int" where
  "days_before_month m y = month_starts (is_leap y) ! nat (m - 1)"

definition date_to_days :: "int \<Rightarrow> int \<Rightarrow> int \<Rightarrow> int" where
  "date_to_days y m d = days_before_year y + days_before_month m y + (d - 1)"

text \<open>
  Days since the zero time to year and day of the year: 400-, 100-, 4- and 1-year cycles,
  where the last cycle of a 400- and of a 4-year cycle is one day longer.
\<close>

definition days_to_year :: "int \<Rightarrow> int \<times> int" where
  "days_to_year d =
     (let n400 = d div 146097; d1 = d mod 146097;
          n100 = min 3 (d1 div 36524); d2 = d1 - 36524 * n100;
          n4 = d2 div 1461; d3 = d2 mod 1461;
          n1 = min 3 (d3 div 365)
      in (400 * n400 + 100 * n100 + 4 * n4 + n1 + 1, d3 - 365 * n1))"

definition yday_to_month :: "int \<Rightarrow> int \<Rightarrow> int" where
  "yday_to_month y yd = int (length (filter (\<lambda>b. b \<le> yd) (month_starts (is_leap y))))"

definition days_to_date :: "int \<Rightarrow> int \<times> int \<times> int" where
  "days_to_date d =
     (let (y, yd) = days_to_year d; m = yday_to_month y yd
      in (y, m, yd - days_before_month m y + 1))"

lemma days_to_year_correct:
  assumes "days_to_year d = (y, yd)"
  shows "d = days_before_year y + yd" and "0 \<le> yd" and "yd < (if is_leap y then 366 else 365)"
proof -
  define n400 d1 where "n400 = d div 146097" and "d1 = d mod 146097"
  define n100 where "n100 = min 3 (d1 div 36524)"
  define d2 where "d2 = d1 - 36524 * n100"
  define n4 d3 where "n4 = d2 div 1461" and "d3 = d2 mod 1461"
  define n1 where "n1 = min 3 (d3 div 365)"
  have y: "y - 1 = 400 * n400 + 100 * n100 + 4 * n4 + n1" and yd: "yd = d3 - 365 * n1"
    using assms [unfolded days_to_year_def Let_def prod.inject,
        folded d1_def n400_def, folded n100_def, folded d2_def, folded n4_def d3_def, folded n1_def]
    by linarith+
  have d: "d = 146097 * n400 + d1" "0 \<le> d1" "d1 < 146097"
    by (simp_all add: n400_def d1_def)
  define e100 r100 where "e100 = d1 div 36524" and "r100 = d1 mod 36524"
  have e100: "d1 = 36524 * e100 + r100" "0 \<le> r100" "r100 < 36524" "n100 = min 3 e100"
    by (simp_all add: e100_def r100_def n100_def)
  then have e100': "0 \<le> e100" "e100 \<le> 4" using d(2,3) by linarith+
  have b100: "0 \<le> n100" "n100 \<le> 3" using e100(4) e100'(1) by linarith+
  have d2: "0 \<le> d2" "d2 \<le> 36524" "d2 = 36524 \<longrightarrow> n100 = 3"
    using e100 e100' d(3) unfolding d2_def min_def by (cases "3 \<le> e100"; simp; linarith)+
  have d3: "d2 = 1461 * n4 + d3" "0 \<le> d3" "d3 \<le> 1460"
    by (simp_all add: n4_def d3_def)
  then have b4: "0 \<le> n4" "n4 \<le> 24" using d2(1,2) by linarith+
  define e1 r1 where "e1 = d3 div 365" and "r1 = d3 mod 365"
  have e1: "d3 = 365 * e1 + r1" "0 \<le> r1" "r1 < 365" "n1 = min 3 e1"
    by (simp_all add: e1_def r1_def n1_def)
  then have e1': "0 \<le> e1" "e1 \<le> 4" using d3(2,3) by linarith+
  have b1: "0 \<le> n1" "n1 \<le> 3" using e1(4) e1'(1) by linarith+
  have yd': "0 \<le> yd" "yd \<le> 365" "yd = 365 \<longrightarrow> n1 = 3"
    using e1 e1' d3(3) unfolding yd min_def by (cases "3 \<le> e1"; simp; linarith)+
  have q4: "(y - 1) div 4 = 100 * n400 + 25 * n100 + n4"
    by (rule int_div_pos_eq [where r = n1]) (use y b1 in simp_all)
  have q100: "(y - 1) div 100 = 4 * n400 + n100"
    by (rule int_div_pos_eq [where r = "4 * n4 + n1"]) (use y b1 b4 in simp_all)
  have q400: "(y - 1) div 400 = n400"
    by (rule int_div_pos_eq [where r = "100 * n100 + 4 * n4 + n1"]) (use y b1 b4 b100 in simp_all)
  show "d = days_before_year y + yd"
    unfolding days_before_year_def q4 q100 q400 using d(1) d2_def d3(1) y yd by simp
  show "0 \<le> yd" by (rule yd')
  have last: "is_leap y" if "yd = 365"
  proof -
    from that yd' have n1: "n1 = 3" by simp
    with that yd have "d3 = 1460" by simp
    then have "n4 = 24 \<longrightarrow> d2 = 36524" using d3(1) by simp
    then have "n4 = 24 \<longrightarrow> n100 = 3" using d2(3) by simp
    moreover have y': "y = 400 * n400 + 100 * n100 + 4 * n4 + 4" using y n1 by simp
    moreover have "y mod 100 = 4 * n4 + 4" if "n4 \<noteq> 24"
      by (rule int_mod_pos_eq [where q = "4 * n400 + n100"]) (use y' b4 that in simp_all)
    moreover have "y mod 400 = 0" if "n4 = 24" "n100 = 3"
      using that y' by (simp add: mod_eq_0_iff_dvd)
    moreover have "y mod 4 = 0" using y' by (simp add: mod_eq_0_iff_dvd)
    ultimately show ?thesis using b4 unfolding is_leap_def by (cases "n4 = 24") auto
  qed
  show "yd < (if is_leap y then 366 else 365)"
    using yd'(2) last by (cases "yd = 365") auto
qed

lemma yday_to_month_table:
  "\<forall>yd \<in> set [0..365]. let m = length (filter (\<lambda>b. b \<le> yd) (month_starts True));
      d = yd - month_starts True ! (m - 1)
    in 1 \<le> m \<and> m \<le> 12 \<and> 0 \<le> d \<and> d < [31, 29, 31, 30, 31, 30, 31, 31, 30, 31, 30, 31] ! (m - 1)"
  "\<forall>yd \<in> set [0..364]. let m = length (filter (\<lambda>b. b \<le> yd) (month_starts False));
      d = yd - month_starts False ! (m - 1)
    in 1 \<le> m \<and> m \<le> 12 \<and> 0 \<le> d \<and> d < [31, 28, 31, 30, 31, 30, 31, 31, 30, 31, 30, 31] ! (m - 1)"
  by code_simp+

lemma daysIn_nth:
  assumes "1 \<le> m" and "m \<le> 12"
  shows "daysIn (int m) y =
    (if is_leap y then [31, 29, 31, 30, 31, 30, 31, 31, 30, 31, 30, 31]
     else [31, 28, 31, 30, 31, 30, 31, 31, 30, 31, 30, 31]) ! (m - 1)"
proof -
  have "m = 1 \<or> m = 2 \<or> m = 3 \<or> m = 4 \<or> m = 5 \<or> m = 6 \<or> m = 7 \<or> m = 8 \<or> m = 9 \<or> m = 10
      \<or> m = 11 \<or> m = 12"
    using assms by presburger
  then show ?thesis by (elim disjE) (simp_all add: daysIn_def)
qed

lemma yday_to_month_correct:
  assumes "0 \<le> yd" and "yd < (if is_leap y then 366 else 365)"
  defines "m \<equiv> yday_to_month y yd"
  shows "1 \<le> m \<and> m \<le> 12 \<and> days_before_month m y \<le> yd \<and> yd - days_before_month m y < daysIn m y"
proof -
  define k where "k = length (filter (\<lambda>b. b \<le> yd) (month_starts (is_leap y)))"
  have m: "m = int k" by (simp add: m_def k_def yday_to_month_def)
  have "yd \<in> set [0..(if is_leap y then 365 else 364)]" using assms by auto
  then have k: "1 \<le> k \<and> k \<le> 12 \<and> 0 \<le> yd - month_starts (is_leap y) ! (k - 1) \<and>
      yd - month_starts (is_leap y) ! (k - 1) < daysIn (int k) y"
  proof (cases "is_leap y")
    case True
    then have "yd \<in> set [0..365]" using \<open>yd \<in> _\<close> by simp
    from bspec [OF yday_to_month_table(1) this] show ?thesis
      using True daysIn_nth [of k y] by (simp add: Let_def k_def)
  next
    case False
    then have "yd \<in> set [0..364]" using \<open>yd \<in> _\<close> by simp
    from bspec [OF yday_to_month_table(2) this] show ?thesis
      using False daysIn_nth [of k y] by (simp add: Let_def k_def)
  qed
  then show ?thesis unfolding m days_before_month_def by (simp add: nat_diff_distrib)
qed

text \<open>The calendar date of a day denotes that day and is a valid date.\<close>

lemma days_to_date_correct:
  assumes "days_to_date n = (y, m, d)"
  shows "date_to_days y m d = n" and "1 \<le> m \<and> m \<le> 12" and "1 \<le> d \<and> d \<le> daysIn m y"
    and "y = fst (days_to_year n)"
proof -
  obtain y' yd where yy: "days_to_year n = (y', yd)" by (cases "days_to_year n")
  with assms have e: "y = y'" "m = yday_to_month y yd" "d = yd - days_before_month m y + 1"
    by (auto simp: days_to_date_def Let_def)
  note c = days_to_year_correct [OF yy] and m = yday_to_month_correct [of yd y]
  show "date_to_days y m d = n" using c e by (simp add: date_to_days_def)
  show "1 \<le> m \<and> m \<le> 12" using c e m by simp
  show "1 \<le> d \<and> d \<le> daysIn m y" using c e m by simp
  show "y = fst (days_to_year n)" using e yy by simp
qed

section \<open>Layouts\<close>

datatype chunk = Lit string | WeekDay | LongWeekDay | ZeroDay | UnderDay | Month
  | LongYear | Year | Hour | ZeroMinute | ZeroSecond | TZ

definition TimeFormat :: "chunk list" where
  "TimeFormat = [WeekDay, Lit '', '', ZeroDay, Lit '' '', Month, Lit '' '', LongYear, Lit '' '',
     Hour, Lit '':'', ZeroMinute, Lit '':'', ZeroSecond, Lit '' GMT'']"

definition RFC850 :: "chunk list" where
  "RFC850 = [LongWeekDay, Lit '', '', ZeroDay, Lit ''-'', Month, Lit ''-'', Year, Lit '' '',
     Hour, Lit '':'', ZeroMinute, Lit '':'', ZeroSecond, Lit '' '', TZ]"

definition ANSIC :: "chunk list" where
  "ANSIC = [WeekDay, Lit '' '', Month, Lit '' '', UnderDay, Lit '' '', Hour, Lit '':'',
     ZeroMinute, Lit '':'', ZeroSecond, Lit '' '', LongYear]"

definition shortDayNames :: "string list" where
  "shortDayNames = [''Sun'', ''Mon'', ''Tue'', ''Wed'', ''Thu'', ''Fri'', ''Sat'']"

definition longDayNames :: "string list" where
  "longDayNames = [''Sunday'', ''Monday'', ''Tuesday'', ''Wednesday'', ''Thursday'',
     ''Friday'', ''Saturday'']"

definition shortMonthNames :: "string list" where
  "shortMonthNames = [''Jan'', ''Feb'', ''Mar'', ''Apr'', ''May'', ''Jun'', ''Jul'',
     ''Aug'', ''Sep'', ''Oct'', ''Nov'', ''Dec'']"

section \<open>time.Parse\<close>

text \<open>The result of parsing so far: the fields that the layout's chunks set.\<close>

record datetime =
  dt_year :: int
  dt_month :: int
  dt_day :: int
  dt_hour :: int
  dt_min :: int
  dt_sec :: int
  dt_nsec :: int

definition dt_zero :: datetime where
  "dt_zero = \<lparr>dt_year = 0, dt_month = -1, dt_day = -1, dt_hour = 0, dt_min = 0, dt_sec = 0,
     dt_nsec = 0\<rparr>"

abbreviation cutspace :: "string \<Rightarrow> string" where
  "cutspace \<equiv> dropWhile (\<lambda>c. c = CHR '' '')"

text \<open>\<open>skip\<close>: a run of spaces in the layout matches any run of spaces, or the end of the value.\<close>

function skip :: "string \<Rightarrow> string \<Rightarrow> string option" where
  "skip v [] = Some v"
| "skip v (p # ps) =
     (if p = CHR '' '' then
        (if v \<noteq> [] \<and> hd v \<noteq> CHR '' '' then None else skip (cutspace v) (cutspace ps))
      else if v = [] \<or> hd v \<noteq> p then None else skip (tl v) ps)"
  by pat_completeness auto
termination
  by (relation "measure (\<lambda>(v, p). length p)") (auto simp: le_imp_less_Suc length_dropWhile_le)

definition getnum :: "string \<Rightarrow> bool \<Rightarrow> (int \<times> string) option" where
  "getnum s fixed =
     (case s of
        c # cs \<Rightarrow>
          if \<not> is_digit c then None
          else (case cs of
                  d # ds \<Rightarrow> if is_digit d then Some (digit_val c * 10 + digit_val d, ds)
                            else if fixed then None else Some (digit_val c, cs)
                | [] \<Rightarrow> if fixed then None else Some (digit_val c, cs))
      | [] \<Rightarrow> None)"

text \<open>Comparison of two bytes up to the case of ASCII letters.\<close>

definition match_byte :: "char \<Rightarrow> char \<Rightarrow> bool" where
  "match_byte c d \<longleftrightarrow> c = d \<or>
     (let lower = (\<lambda>x. if (x :: nat) div 32 mod 2 = 0 then x + 32 else x)
      in lower (of_char c) = lower (of_char d) \<and> 97 \<le> lower (of_char c) \<and> lower (of_char c) \<le> 122)"

fun lookup_name :: "string list \<Rightarrow> string \<Rightarrow> (int \<times> string) option" where
  "lookup_name [] v = None"
| "lookup_name (n # ns) v =
     (if length n \<le> length v \<and> list_all2 match_byte (take (length n) v) n
      then Some (0, drop (length n) v)
      else map_option (\<lambda>(i, r). (i + 1, r)) (lookup_name ns v))"

fun digits_int :: "int \<Rightarrow> string \<Rightarrow> int" where
  "digits_int n [] = n"
| "digits_int n (c # cs) = digits_int (10 * n + digit_val c) cs"

text \<open>The package's own \<open>atoi\<close>, on the two or four bytes of a year.\<close>

definition time_atoi :: "string \<Rightarrow> int option" where
  "time_atoi s =
     (let neg = HasPrefix s ''-''; ds = (if neg \<or> HasPrefix s ''+'' then tl s else s)
      in if ds = [] \<or> \<not> list_all is_digit ds then None
         else Some (if neg then - digits_int 0 ds else digits_int 0 ds))"

text \<open>\<open>parseSignedOffset\<close>: the length of an hour offset of at most 23, or 0.\<close>

definition parseSignedOffset :: "string \<Rightarrow> nat" where
  "parseSignedOffset v =
     (case v of
        c # cs \<Rightarrow>
          let ds = takeWhile is_digit cs
          in if (c = CHR ''-'' \<or> c = CHR ''+'') \<and> ds \<noteq> [] \<and> digits_int 0 ds \<le> 23
             then 1 + length ds else 0
      | [] \<Rightarrow> 0)"

definition is_upper :: "char \<Rightarrow> bool" where
  "is_upper c \<longleftrightarrow> 65 \<le> (of_char c :: nat) \<and> (of_char c :: nat) \<le> 90"

definition parseTimeZone :: "string \<Rightarrow> nat option" where
  "parseTimeZone v =
     (if length v < 3 then None
      else if HasPrefix v ''ChST'' \<or> HasPrefix v ''MeST'' then Some 4
      else if HasPrefix v ''GMT'' then Some (3 + parseSignedOffset (drop 3 v))
      else if hd v = CHR ''+'' \<or> hd v = CHR ''-''
        then (let n = parseSignedOffset v in if 0 < n then Some n else None)
      else let n = length (takeWhile is_upper (take 6 v))
           in if n = 5 \<and> v ! 4 = CHR ''T'' then Some 5
              else if n = 4 \<and> (v ! 3 = CHR ''T'' \<or> HasPrefix v ''WITA'') then Some 4
              else if n = 3 then Some 3 else None)"

text \<open>A fractional second is accepted even though the layouts have none.\<close>

definition frac_second :: "string \<Rightarrow> int \<times> string" where
  "frac_second v =
     (case v of
        c # d # cs \<Rightarrow>
          if (c = CHR ''.'' \<or> c = CHR '','') \<and> is_digit d
          then let ds = takeWhile is_digit (d # cs); ns = take 9 ds
               in (digits_int 0 ns * 10 ^ (9 - length ns), drop (length ds) (d # cs))
          else (0, v)
      | _ \<Rightarrow> (0, v))"

definition in_range :: "int \<Rightarrow> int \<Rightarrow> 'a \<Rightarrow> 'a option" where
  "in_range x hi r = (if 0 \<le> x \<and> x < hi then Some r else None)"

fun parse_chunk :: "chunk \<Rightarrow> string \<Rightarrow> datetime \<Rightarrow> (string \<times> datetime) option" where
  "parse_chunk (Lit p) v dt = map_option (\<lambda>r. (r, dt)) (skip v p)"
| "parse_chunk WeekDay v dt = map_option (\<lambda>(_, r). (r, dt)) (lookup_name shortDayNames v)"
| "parse_chunk LongWeekDay v dt = map_option (\<lambda>(_, r). (r, dt)) (lookup_name longDayNames v)"
| "parse_chunk Month v dt =
     map_option (\<lambda>(i, r). (r, dt\<lparr>dt_month := i + 1\<rparr>)) (lookup_name shortMonthNames v)"
| "parse_chunk ZeroDay v dt = map_option (\<lambda>(x, r). (r, dt\<lparr>dt_day := x\<rparr>)) (getnum v True)"
| "parse_chunk UnderDay v dt =
     map_option (\<lambda>(x, r). (r, dt\<lparr>dt_day := x\<rparr>))
       (getnum (if HasPrefix v '' '' then tl v else v) False)"
| "parse_chunk LongYear v dt =
     (if length v < 4 \<or> \<not> is_digit (hd v) then None
      else map_option (\<lambda>y. (drop 4 v, dt\<lparr>dt_year := y\<rparr>)) (time_atoi (take 4 v)))"
| "parse_chunk Year v dt =
     (if length v < 2 then None
      else map_option (\<lambda>y. (drop 2 v, dt\<lparr>dt_year := if 69 \<le> y then y + 1900 else y + 2000\<rparr>))
             (time_atoi (take 2 v)))"
| "parse_chunk Hour v dt =
     Option.bind (getnum v False) (\<lambda>(x, r). in_range x 24 (r, dt\<lparr>dt_hour := x\<rparr>))"
| "parse_chunk ZeroMinute v dt =
     Option.bind (getnum v True) (\<lambda>(x, r). in_range x 60 (r, dt\<lparr>dt_min := x\<rparr>))"
| "parse_chunk ZeroSecond v dt =
     Option.bind (getnum v True) (\<lambda>(x, r).
       let (ns, r') = frac_second r in in_range x 60 (r', dt\<lparr>dt_sec := x, dt_nsec := ns\<rparr>))"
| "parse_chunk TZ v dt =
     (if HasPrefix v ''UTC'' then Some (drop 3 v, dt)
      else map_option (\<lambda>n. (drop n v, dt)) (parseTimeZone v))"

fun parse_chunks :: "chunk list \<Rightarrow> string \<Rightarrow> datetime \<Rightarrow> datetime option" where
  "parse_chunks [] v dt = (if v = [] then Some dt else None)"
| "parse_chunks (c # cs) v dt =
     Option.bind (parse_chunk c v dt) (\<lambda>(r, dt'). parse_chunks cs r dt')"

definition dt_time :: "datetime \<Rightarrow> time" where
  "dt_time dt =
     (date_to_days (dt_year dt) (dt_month dt) (dt_day dt) * 86400
      + dt_hour dt * 3600 + dt_min dt * 60 + dt_sec dt) * Second + dt_nsec dt"

definition Parse :: "chunk list \<Rightarrow> string \<Rightarrow> time option" where
  "Parse layout v =
     Option.bind (parse_chunks layout v dt_zero) (\<lambda>dt.
       if 1 \<le> dt_day dt \<and> dt_day dt \<le> daysIn (dt_month dt) (dt_year dt)
       then Some (dt_time dt) else None)"

text \<open>\<open>http.ParseTime\<close>.\<close>

definition ParseTime :: "string \<Rightarrow> time option" where
  "ParseTime v =
     (case Parse TimeFormat v of
        Some t \<Rightarrow> Some t
      | None \<Rightarrow> (case Parse RFC850 v of Some t \<Rightarrow> Some t | None \<Rightarrow> Parse ANSIC v))"

section \<open>Time.Format with http.TimeFormat\<close>

definition pad2 :: "int \<Rightarrow> string" where
  "pad2 n = [char_of (nat (n div 10) + 48), char_of (nat (n mod 10) + 48)]"

definition pad4 :: "int \<Rightarrow> string" where
  "pad4 n = pad2 (n div 100) @ pad2 (n mod 100)"

definition FormatHTTP :: "time \<Rightarrow> string" where
  "FormatHTTP t =
     (let secs = t div Second; days = secs div 86400; s = secs mod 86400;
          (y, m, d) = days_to_date days
      in shortDayNames ! nat ((days + 1) mod 7) @ '', '' @ pad2 d @ '' ''
         @ shortMonthNames ! nat (m - 1) @ '' '' @ pad4 y @ '' ''
         @ pad2 (s div 3600) @ '':'' @ pad2 (s mod 3600 div 60) @ '':'' @ pad2 (s mod 60) @ '' GMT'')"

lemma is_digit_pad: "0 \<le> n \<Longrightarrow> n < 10 \<Longrightarrow> is_digit (char_of (nat n + 48))"
  using digit_char [of "nat n"] by simp

lemma digit_val_pad: "0 \<le> n \<Longrightarrow> n < 10 \<Longrightarrow> digit_val (char_of (nat n + 48)) = n"
  using digit_val_char [of "nat n"] by simp

lemma is_digit_neq: "is_digit c \<Longrightarrow> c \<noteq> CHR '' '' \<and> c \<noteq> CHR ''-'' \<and> c \<noteq> CHR ''+''"
  by (auto simp: is_digit_def)

lemma getnum_pad2 [go_simps]:
  assumes "0 \<le> n" and "n < 100"
  shows "getnum (pad2 n @ r) fixed = Some (n, r)"
proof -
  have "0 \<le> n div 10" "n div 10 < 10" "0 \<le> n mod 10" "n mod 10 < 10" using assms by simp_all
  then show ?thesis
    by (simp add: getnum_def pad2_def is_digit_pad digit_val_pad)
qed

lemma cutspace_pad2 [go_simps]: "0 \<le> n \<Longrightarrow> n < 100 \<Longrightarrow> cutspace (pad2 n @ r) = pad2 n @ r"
proof -
  assume "0 \<le> n" "n < 100"
  then have "is_digit (char_of (nat (n div 10) + 48))" by (simp add: is_digit_pad)
  from is_digit_neq [OF this] have "char_of (nat (n div 10) + 48) \<noteq> CHR '' ''" by blast
  then show ?thesis by (simp add: pad2_def)
qed

lemma lookup_day [go_simps]:
  "i < 7 \<Longrightarrow> lookup_name shortDayNames (shortDayNames ! i @ r) = Some (int i, r)"
proof -
  assume "i < 7"
  then have "i = 0 \<or> i = 1 \<or> i = 2 \<or> i = 3 \<or> i = 4 \<or> i = 5 \<or> i = 6" by presburger
  then show ?thesis
    by (elim disjE) (simp_all add: shortDayNames_def match_byte_def)
qed

lemma lookup_month [go_simps]:
  "i < 12 \<Longrightarrow> lookup_name shortMonthNames (shortMonthNames ! i @ r) = Some (int i, r)"
proof -
  assume "i < 12"
  then have "i = 0 \<or> i = 1 \<or> i = 2 \<or> i = 3 \<or> i = 4 \<or> i = 5 \<or> i = 6 \<or> i = 7 \<or> i = 8
      \<or> i = 9 \<or> i = 10 \<or> i = 11" by presburger
  then show ?thesis
    by (elim disjE) (simp_all add: shortMonthNames_def match_byte_def)
qed

lemma cutspace_month [go_simps]: "i < 12 \<Longrightarrow> cutspace (shortMonthNames ! i @ r) = shortMonthNames ! i @ r"
proof -
  assume "i < 12"
  then have "i = 0 \<or> i = 1 \<or> i = 2 \<or> i = 3 \<or> i = 4 \<or> i = 5 \<or> i = 6 \<or> i = 7 \<or> i = 8
      \<or> i = 9 \<or> i = 10 \<or> i = 11" by presburger
  then show ?thesis
    by (elim disjE) (simp_all add: shortMonthNames_def)
qed

lemma parse_pad4 [go_simps]:
  assumes "0 \<le> y" and "y < 10000"
  shows "parse_chunk LongYear (pad4 y @ r) dt = Some (r, dt\<lparr>dt_year := y\<rparr>)"
    and "cutspace (pad4 y @ r) = pad4 y @ r"
proof -
  define a b where "a = y div 100" and "b = y mod 100"
  have ab: "0 \<le> a" "a < 100" "0 \<le> b" "b < 100" "y = 100 * a + b"
    using assms by (simp_all add: a_def b_def)
  have p: "pad4 y = pad2 a @ pad2 b" by (simp add: pad4_def a_def b_def)
  have d: "is_digit (char_of (nat (a div 10) + 48))" "is_digit (char_of (nat (a mod 10) + 48))"
     "is_digit (char_of (nat (b div 10) + 48))" "is_digit (char_of (nat (b mod 10) + 48))"
    using ab by (simp_all add: is_digit_pad)
  have v: "digit_val (char_of (nat (a div 10) + 48)) = a div 10"
     "digit_val (char_of (nat (a mod 10) + 48)) = a mod 10"
     "digit_val (char_of (nat (b div 10) + 48)) = b div 10"
     "digit_val (char_of (nat (b mod 10) + 48)) = b mod 10"
    using ab by (simp_all add: digit_val_pad)
  have sign: "char_of (nat (a div 10) + 48) \<noteq> CHR ''-''" "char_of (nat (a div 10) + 48) \<noteq> CHR ''+''"
    using is_digit_neq [OF d(1)] by blast+
  have "10 * (10 * (10 * (a div 10) + a mod 10) + b div 10) + b mod 10 = y"
    using ab(5) by presburger
  then show "parse_chunk LongYear (pad4 y @ r) dt = Some (r, dt\<lparr>dt_year := y\<rparr>)"
    using d v sign by (simp add: p pad2_def time_atoi_def HasPrefix_def)
  show "cutspace (pad4 y @ r) = pad4 y @ r"
    unfolding p append_assoc by (rule cutspace_pad2 [OF ab(1,2)])
qed

lemma parse_FormatHTTP:
  assumes d: "0 \<le> d" "d < 100" and m: "1 \<le> m" "m \<le> 12" and y: "0 \<le> y" "y < 10000" and w: "w < 7"
    and h: "0 \<le> h" "h < 24" and mi: "0 \<le> mi" "mi < 60" and s: "0 \<le> s" "s < 60"
  shows "parse_chunks TimeFormat
     (shortDayNames ! w @ '', '' @ pad2 d @ '' '' @ shortMonthNames ! nat (m - 1) @ '' '' @ pad4 y
       @ '' '' @ pad2 h @ '':'' @ pad2 mi @ '':'' @ pad2 s @ '' GMT'') dt_zero
     = Some \<lparr>dt_year = y, dt_month = m, dt_day = d, dt_hour = h, dt_min = mi, dt_sec = s, dt_nsec = 0\<rparr>"
proof -
  have "nat (m - 1) < 12" using m by simp
  then show ?thesis using assms
    by (simp add: TimeFormat_def go_simps dt_zero_def in_range_def frac_second_def
        del: parse_chunk.simps(7))
qed

lemma days_before_year_mono: "y \<le> z \<Longrightarrow> days_before_year y \<le> days_before_year z"
proof -
  assume le: "y \<le> z"
  have "(y - 1) div 4 \<le> (z - 1) div 4" "(y - 1) div 400 \<le> (z - 1) div 400"
    using le by (simp_all add: zdiv_mono1)
  moreover have "(z - 1) div 100 - (y - 1) div 100 \<le> z - y"
  proof (cases "(z - 1) div 100 = (y - 1) div 100")
    case False
    with le have "(y - 1) div 100 + 1 \<le> (z - 1) div 100"
      using zdiv_mono1 [of "y - 1" "z - 1" 100] by simp
    then show ?thesis
      using mult_div_mod_eq [of 100 "z - 1"] mult_div_mod_eq [of 100 "y - 1"]
        pos_mod_sign [of 100 "z - 1"] pos_mod_bound [of 100 "y - 1"] by linarith
  qed (use le in simp)
  moreover have "365 * (y - 1) + a - b + c \<le> 365 * (z - 1) + a' - b' + c'"
    if "a \<le> a'" "c \<le> c'" "b' - b \<le> z - y" for a b c a' b' c' :: int
    using le that mult_left_mono [of y z 364] by (simp add: right_diff_distrib)
  ultimately show ?thesis unfolding days_before_year_def by blast
qed

text \<open>Formatting an instant of the years 1 to 9999 and parsing it gives its whole seconds.\<close>

lemma ParseTime_FormatHTTP:
  assumes "0 \<le> t" and "t div Second div 86400 < days_before_year 10000"
  shows "ParseTime (FormatHTTP t) = Some (t div Second * Second)"
proof -
  define secs days s where "secs = t div Second" and "days = secs div 86400" and "s = secs mod 86400"
  obtain y m d where ymd: "days_to_date days = (y, m, d)" by (cases "days_to_date days")
  note c = days_to_date_correct [OF ymd]
  obtain yd where yd: "days_to_year days = (y, yd)"
    using c(4) by (cases "days_to_year days") auto
  note cy = days_to_year_correct [OF yd]
  have days: "0 \<le> days" "days < 3652059"
    using assms by (simp_all add: days_def secs_def days_before_year_def)
  have y: "0 \<le> y" "y < 10000"
    using days cy days_before_year_mono [of y "-1"] days_before_year_mono [of 10000 y]
    by (force simp: days_before_year_def split: if_splits)+
  have s: "0 \<le> s" "s < 86400" by (simp_all add: s_def)
  have d: "0 \<le> d" "d < 100" using c(3) by (auto simp: daysIn_def split: if_splits)
  have w: "nat ((days + 1) mod 7) < 7" by simp
  have hms: "0 \<le> s div 3600" "s div 3600 < 24" "0 \<le> s mod 3600 div 60" "s mod 3600 div 60 < 60"
      "0 \<le> s mod 60" "s mod 60 < 60"
    using s by simp_all
  have sum: "s div 3600 * 3600 + s mod 3600 div 60 * 60 + s mod 60 = s"
    using div_mult_mod_eq [of "s mod 3600" 60] by (simp add: mod_mod_cancel add.assoc)
  have "Parse TimeFormat (FormatHTTP t) =
      Some ((days * 86400 + s div 3600 * 3600 + s mod 3600 div 60 * 60 + s mod 60) * Second)"
    using parse_FormatHTTP [OF d c(2) [THEN conjunct1] c(2) [THEN conjunct2] y w hms] c(1,3) ymd
    by (simp add: Parse_def FormatHTTP_def Let_def secs_def [symmetric] days_def [symmetric]
        s_def [symmetric] dt_time_def)
  also have "days * 86400 + s div 3600 * 3600 + s mod 3600 div 60 * 60 + s mod 60 = secs"
    using sum unfolding days_def s_def by (simp add: add.assoc)
  finally show ?thesis by (simp add: ParseTime_def secs_def)
qed

end
