(* ===== verification/Headers.thy ===== *)
theory Headers
  imports GoTime
begin

text \<open>
  \<open>http.Header\<close> (package net/http): a Go map from canonical field names to lists of values,
  where a list may be nil. The operations are those the program calls: indexing, \<open>Get\<close>,
  \<open>Values\<close>, \<open>Set\<close>, \<open>Del\<close> and \<open>Clone\<close>. Then \<open>EtagsMatch\<close> of
  \<^verbatim>\<open>internal/httpheaders/etag.go\<close> and \<open>removeHopByHopHeaders\<close> of
  \<^verbatim>\<open>internal/httpclient/client.go\<close>, the two operations on header fields that the other
  components share.
\<close>

section \<open>Header maps\<close>

type_synonym header = "(string, string list option) gomap"

text \<open>The expression \<open>h[k]\<close>: nil when the key is absent.\<close>

definition hdr_index :: "header \<Rightarrow> string \<Rightarrow> string list option" where
  "hdr_index h k = (case map_of h k of None \<Rightarrow> None | Some v \<Rightarrow> v)"

text \<open>The test \<open>_, ok := h[k]\<close>.\<close>

definition hdr_has :: "header \<Rightarrow> string \<Rightarrow> bool" where
  "hdr_has h k \<longleftrightarrow> map_of h k \<noteq> None"

text \<open>Ranging over a slice or taking its length does not distinguish nil from empty.\<close>

definition slice :: "'a list option \<Rightarrow> 'a list" where
  "slice v = (case v of None \<Rightarrow> [] | Some xs \<Rightarrow> xs)"

lemma slice_simps [simp]: "slice None = []" "slice (Some xs) = xs"
  by (simp_all add: slice_def)

lemma slice_eq_Nil: "slice v = [] \<longleftrightarrow> v = None \<or> v = Some []"
  by (cases v) auto

text \<open>
  \<open>textproto.CanonicalMIMEHeaderKey\<close>: the first letter and every letter after a hyphen in
  upper case, the others in lower case; a name with a byte that is no token byte is unchanged.
\<close>

definition is_lower :: "char \<Rightarrow> bool" where
  "is_lower c \<longleftrightarrow> 97 \<le> (of_char c :: nat) \<and> (of_char c :: nat) \<le> 122"

definition is_token_byte :: "char \<Rightarrow> bool" where
  "is_token_byte c \<longleftrightarrow> is_lower c \<or> is_upper c \<or> is_digit c \<or> c \<in> set ''!#$%&*+-.^_`|~'' \<or> of_char c = (39 :: nat)"

fun canon_loop :: "bool \<Rightarrow> string \<Rightarrow> string" where
  "canon_loop up [] = []"
| "canon_loop up (c # cs) =
     (if up \<and> is_lower c then char_of ((of_char c :: nat) - 32)
      else if \<not> up \<and> is_upper c then char_of ((of_char c :: nat) + 32) else c)
     # canon_loop (c = CHR ''-'') cs"

definition CanonicalHeaderKey :: "string \<Rightarrow> string" where
  "CanonicalHeaderKey s = (if list_all is_token_byte s then canon_loop True s else s)"

definition hdr_Values :: "header \<Rightarrow> string \<Rightarrow> string list option" where
  "hdr_Values h k = hdr_index h (CanonicalHeaderKey k)"

definition hdr_Get :: "header \<Rightarrow> string \<Rightarrow> string" where
  "hdr_Get h k = (case slice (hdr_Values h k) of [] \<Rightarrow> [] | x # _ \<Rightarrow> x)"

definition hdr_Set :: "header \<Rightarrow> string \<Rightarrow> string \<Rightarrow> header" where
  "hdr_Set h k v = gm_set h (CanonicalHeaderKey k) (Some [v])"

definition hdr_Del :: "header \<Rightarrow> string \<Rightarrow> header" where
  "hdr_Del h k = gm_del h (CanonicalHeaderKey k)"

text \<open>The field names that occur in the source are canonical.\<close>

lemma canonical_names [simp, go_simps]:
  "CanonicalHeaderKey ''Date'' = ''Date''"
  "CanonicalHeaderKey ''Age'' = ''Age''"
  "CanonicalHeaderKey ''Etag'' = ''Etag''"
  "CanonicalHeaderKey ''Expires'' = ''Expires''"
  "CanonicalHeaderKey ''Last-Modified'' = ''Last-Modified''"
  "CanonicalHeaderKey ''Cache-Control'' = ''Cache-Control''"
  "CanonicalHeaderKey ''Connection'' = ''Connection''"
  "CanonicalHeaderKey ''Proxy-Connection'' = ''Proxy-Connection''"
  "CanonicalHeaderKey ''Keep-Alive'' = ''Keep-Alive''"
  "CanonicalHeaderKey ''Te'' = ''Te''"
  "CanonicalHeaderKey ''Trailer'' = ''Trailer''"
  "CanonicalHeaderKey ''Transfer-Encoding'' = ''Transfer-Encoding''"
  "CanonicalHeaderKey ''Upgrade'' = ''Upgrade''"
  "CanonicalHeaderKey ''Proxy-Authenticate'' = ''Proxy-Authenticate''"
  "CanonicalHeaderKey ''Proxy-Authentication-Info'' = ''Proxy-Authentication-Info''"
  "CanonicalHeaderKey ''Proxy-Authorization'' = ''Proxy-Authorization''"
  by code_simp+

lemma hdr_index_set [simp]: "hdr_index (gm_set h k v) k' = (if k' = k then v else hdr_index h k')"
  by (simp add: hdr_index_def)

lemma hdr_index_del [simp]: "hdr_index (gm_del h k) k' = (if k' = k then None else hdr_index h k')"
  by (simp add: hdr_index_def)

lemma hdr_has_set [simp]: "hdr_has (gm_set h k v) k' \<longleftrightarrow> k' = k \<or> hdr_has h k'"
  by (simp add: hdr_has_def)

lemma hdr_has_del [simp]: "hdr_has (gm_del h k) k' \<longleftrightarrow> k' \<noteq> k \<and> hdr_has h k'"
  by (simp add: hdr_has_def)

lemma hdr_index_not_has: "\<not> hdr_has h k \<Longrightarrow> hdr_index h k = None"
  by (auto simp: hdr_has_def hdr_index_def)

lemma hdr_Get_Set [simp]: "CanonicalHeaderKey k' = k' \<Longrightarrow> CanonicalHeaderKey k = k \<Longrightarrow>
    hdr_Get (hdr_Set h k v) k' = (if k' = k then v else hdr_Get h k')"
  by (simp add: hdr_Get_def hdr_Set_def hdr_Values_def)

text \<open>Two representations of the same Go map give the same results.\<close>

lemma hdr_index_cong: "map_of h = map_of h' \<Longrightarrow> hdr_index h = hdr_index h'"
  by (simp add: hdr_index_def fun_eq_iff)

section \<open>Entity tags\<close>

text \<open>
  \<open>EtagsMatch\<close>. The slice expressions \<open>etag1[:2]\<close> and \<open>etag2[:2]\<close> panic on a string of fewer
  than two bytes.
\<close>

definition EtagsMatch :: "string \<Rightarrow> string \<Rightarrow> bool go" where
  "EtagsMatch etag1 etag2 =
     (if etag1 = etag2 then Ret True
      else if length etag1 < 2 then Panic ''slice bounds out of range''
      else if take 2 etag1 = ''W/'' then Ret (drop 2 etag1 = etag2)
      else if length etag2 < 2 then Panic ''slice bounds out of range''
      else if take 2 etag2 = ''W/'' then Ret (etag1 = drop 2 etag2)
      else Ret False)"

text \<open>
  An entity tag of RFC 9110, section 8.8.3: a quoted opaque tag, with the prefix \<open>W/\<close> when it
  is weak. The weak comparison of section 8.8.3.2 compares the opaque tags only.
\<close>

definition opaque_tag :: "string \<Rightarrow> string" where
  "opaque_tag e = TrimPrefix e ''W/''"

definition dquote :: char where "dquote = CHR 0x22"

definition wf_etag :: "string \<Rightarrow> bool" where
  "wf_etag e \<longleftrightarrow> (case opaque_tag e of c # d # _ \<Rightarrow> c = dquote | _ \<Rightarrow> False)"

definition weak_match :: "string \<Rightarrow> string \<Rightarrow> bool" where
  "weak_match e f \<longleftrightarrow> opaque_tag e = opaque_tag f"

lemma wf_etag_cases:
  assumes "wf_etag e"
  obtains (strong) d r where "e = dquote # d # r"
    | (weak) d r where "e = CHR ''W'' # CHR ''/'' # dquote # d # r"
  using assms
  by (auto simp: wf_etag_def opaque_tag_def TrimPrefix_def HasPrefix_iff
      split: list.splits if_splits)

lemma dquote_neq [simp]: "dquote \<noteq> CHR ''W''" "CHR ''W'' \<noteq> dquote"
  by (simp_all add: dquote_def)

lemma EtagsMatch_weak:
  assumes "wf_etag e" and "wf_etag f"
  shows "EtagsMatch e f = Ret (weak_match e f)"
  using assms(1)
proof (cases rule: wf_etag_cases)
  case strong
  with assms(2) show ?thesis
    by (cases rule: wf_etag_cases)
      (auto simp: EtagsMatch_def weak_match_def opaque_tag_def TrimPrefix_def HasPrefix_def)
next
  case weak
  with assms(2) show ?thesis
    by (cases rule: wf_etag_cases)
      (auto simp: EtagsMatch_def weak_match_def opaque_tag_def TrimPrefix_def HasPrefix_def)
qed

lemma EtagsMatch_empty_panics:
  "2 \<le> length e \<Longrightarrow> \<not> HasPrefix e ''W/'' \<Longrightarrow> EtagsMatch e [] = Panic ''slice bounds out of range''"
  by (auto simp: EtagsMatch_def HasPrefix_def numeral_2_eq_2)

section \<open>Hop-by-hop fields\<close>

definition hop_by_hop_names :: "string list" where
  "hop_by_hop_names = [''Connection'', ''Proxy-Connection'', ''Keep-Alive'', ''Te'', ''Trailer'',
     ''Transfer-Encoding'', ''Upgrade'', ''Proxy-Authenticate'', ''Proxy-Authentication-Info'',
     ''Proxy-Authorization'']"

definition removeHopByHopHeaders :: "header \<Rightarrow> header" where
  "removeHopByHopHeaders h = fold (\<lambda>k h. hdr_Del h k) hop_by_hop_names h"

lemma removeHopByHop_fold: "removeHopByHopHeaders h = fold (\<lambda>k h. gm_del h k) hop_by_hop_names h"
  by (simp add: removeHopByHopHeaders_def hop_by_hop_names_def hdr_Del_def)

lemma map_of_removeHopByHop:
  "map_of (removeHopByHopHeaders h) = map_of h |` (- set hop_by_hop_names)"
  unfolding removeHopByHop_fold by (rule gm.fold_remove)

lemma gm_wf_removeHopByHop [simp]: "gm_wf h \<Longrightarrow> gm_wf (removeHopByHopHeaders h)"
  unfolding removeHopByHop_fold by (rule gm.wf_fold_remove)

lemma hdr_has_removeHopByHop:
  "hdr_has (removeHopByHopHeaders h) k \<longleftrightarrow> hdr_has h k \<and> k \<notin> set hop_by_hop_names"
  by (auto simp: hdr_has_def map_of_removeHopByHop restrict_map_def)

lemma hdr_index_removeHopByHop:
  "hdr_index (removeHopByHopHeaders h) k = (if k \<in> set hop_by_hop_names then None else hdr_index h k)"
  by (simp add: hdr_index_def map_of_removeHopByHop restrict_map_def)

lemma removeHopByHop_idem:
  "map_of (removeHopByHopHeaders (removeHopByHopHeaders h)) = map_of (removeHopByHopHeaders h)"
  by (simp add: map_of_removeHopByHop)

section \<open>Properties\<close>

text \<open>
  On entity tags of RFC 9110 the comparison is the weak one of section 8.8.3.2, and it does
  not panic: two tags match exactly if their opaque tags are the same.
\<close>

lemma etags_match_weakly:
  assumes "wf_etag e" and "wf_etag f"
  shows "EtagsMatch e f = Ret (weak_match e f)"
  by (rule EtagsMatch_weak [OF assms])

lemma etags_match_weakly_witness:
  "EtagsMatch (''W/'' @ [dquote, CHR ''a'', dquote]) [dquote, CHR ''a'', dquote] = Ret True"
  using etags_match_weakly [of "''W/'' @ [dquote, CHR ''a'', dquote]" "[dquote, CHR ''a'', dquote]"]
  by (simp add: wf_etag_def weak_match_def opaque_tag_def TrimPrefix_def HasPrefix_def)

text \<open>
  After the removal of the hop-by-hop fields a header has exactly the fields it had before
  other than the ten hop-by-hop ones, with the same values.
\<close>

lemma hop_by_hop_fields_removed:
  "hdr_index (removeHopByHopHeaders h) k = (if k \<in> set hop_by_hop_names then None else hdr_index h k) \<and>
   (hdr_has (removeHopByHopHeaders h) k \<longleftrightarrow> hdr_has h k \<and> k \<notin> set hop_by_hop_names)"
  using hdr_index_removeHopByHop hdr_has_removeHopByHop by simp

end
