(* ===== verification/CacheControl.thy ===== *)
theory CacheControl
  imports Headers
begin

text \<open>
  \<^verbatim>\<open>internal/httpclient/internal/httpcaching/cachecontrol.go\<close>: the parser of the
  Cache-Control response directives, and its equivalence with a declarative reading of the
  header in which the first occurrence of every directive counts.
\<close>

section \<open>The parser\<close>

record CacheControlResponseDirective =
  Immutable :: bool
  MaxAge :: duration
  MustRevalidate :: bool
  MustUnderstand :: bool
  NoCache :: bool
  NoStore :: bool
  NoTransform :: bool
  Private :: bool
  ProxyRevalidate :: bool
  Public :: bool
  SMaxAge :: duration
  StaleWhileRevalidate :: duration
  StaleIfError :: duration

type_synonym directives = CacheControlResponseDirective

definition cc_zero :: directives where
  "cc_zero = \<lparr>Immutable = False, MaxAge = 0, MustRevalidate = False, MustUnderstand = False,
     NoCache = False, NoStore = False, NoTransform = False, Private = False,
     ProxyRevalidate = False, Public = False, SMaxAge = 0, StaleWhileRevalidate = 0,
     StaleIfError = 0\<rparr>"

text \<open>The error names the directive whose argument is no 64-bit integer.\<close>

datatype cc_error = ErrInvalidArgument string

text \<open>\<open>time.Duration(v) * time.Second\<close> after \<open>strconv.Atoi\<close>; the product wraps around.\<close>

definition seconds_arg :: "string \<Rightarrow> duration option" where
  "seconds_arg val =
     (case Atoi val of (v, None) \<Rightarrow> Some (wrap64 (v * Second)) | (v, Some e) \<Rightarrow> None)"

text \<open>The two switches of the loop body, on a directive with and without an argument.\<close>

definition apply_number ::
    "string \<Rightarrow> string \<Rightarrow> directives \<Rightarrow> (duration \<Rightarrow> directives) \<Rightarrow> directives \<times> cc_error option" where
  "apply_number key val r upd =
     (case seconds_arg val of
        Some d \<Rightarrow> (upd d, None) | None \<Rightarrow> (r, Some (ErrInvalidArgument key)))"

definition apply_directive :: "string \<Rightarrow> string \<Rightarrow> bool \<Rightarrow> directives \<Rightarrow> directives \<times> cc_error option" where
  "apply_directive key val found r =
     (if found then
        (if key = ''max-age'' then apply_number key val r (\<lambda>d. r\<lparr>MaxAge := d\<rparr>)
         else if key = ''no-cache'' then (r\<lparr>NoCache := True\<rparr>, None)
         else if key = ''private'' then (r\<lparr>Private := True\<rparr>, None)
         else if key = ''s-maxage'' then apply_number key val r (\<lambda>d. r\<lparr>SMaxAge := d\<rparr>)
         else if key = ''stale-while-revalidate''
           then apply_number key val r (\<lambda>d. r\<lparr>StaleWhileRevalidate := d\<rparr>)
         else if key = ''stale-if-error'' then apply_number key val r (\<lambda>d. r\<lparr>StaleIfError := d\<rparr>)
         else (r, None))
      else
        (if key = ''must-revalidate'' then (r\<lparr>MustRevalidate := True\<rparr>, None)
         else if key = ''must-understand'' then (r\<lparr>MustUnderstand := True\<rparr>, None)
         else if key = ''no-cache'' then (r\<lparr>NoCache := True\<rparr>, None)
         else if key = ''no-store'' then (r\<lparr>NoStore := True\<rparr>, None)
         else if key = ''no-transform'' then (r\<lparr>NoTransform := True\<rparr>, None)
         else if key = ''private'' then (r\<lparr>Private := True\<rparr>, None)
         else if key = ''proxy-revalidate'' then (r\<lparr>ProxyRevalidate := True\<rparr>, None)
         else if key = ''public'' then (r\<lparr>Public := True\<rparr>, None)
         else if key = ''immutable'' then (r\<lparr>Immutable := True\<rparr>, None)
         else (r, None)))"

text \<open>
  The loop: \<open>seen\<close> holds the keys met so far, a directive whose key was met before is skipped,
  and the first error ends the loop with the directives collected so far.
\<close>

fun directive_loop :: "string list \<Rightarrow> string list \<Rightarrow> directives \<Rightarrow> directives \<times> cc_error option" where
  "directive_loop [] seen r = (r, None)"
| "directive_loop (d # ds) seen r =
     (case Cut (TrimSpace d) CHR ''='' of (key, val, found) \<Rightarrow>
         if key \<in> set seen then directive_loop ds seen r
         else (case apply_directive key val found r of
                 (r', Some e) \<Rightarrow> (r', Some e)
               | (r', None) \<Rightarrow> directive_loop ds (key # seen) r'))"

definition ParseCacheControlDirective :: "string list \<Rightarrow> directives \<times> cc_error option" where
  "ParseCacheControlDirective hdr =
     directive_loop (concat (map (split_on CHR '','') hdr)) [] cc_zero"

section \<open>The declarative reading\<close>

text \<open>A directive is a key with an optional argument.\<close>

definition directive_of :: "string \<Rightarrow> string \<times> string option" where
  "directive_of d = (case Cut (TrimSpace d) CHR ''='' of (k, v, found) \<Rightarrow> (k, if found then Some v else None))"

definition header_directives :: "string list \<Rightarrow> (string \<times> string option) list" where
  "header_directives hdr = map directive_of (concat (map (split_on CHR '','') hdr))"

text \<open>
  The meaning of a list of directives: \<^const>\<open>map_of\<close> finds the first occurrence of a key.
  A flag is set by a bare occurrence (\<open>no-cache\<close> and \<open>private\<close> also by a qualified one), a
  number by an occurrence with an argument.
\<close>

definition bare :: "(string \<times> string option) list \<Rightarrow> string \<Rightarrow> bool" where
  "bare ds k \<longleftrightarrow> map_of ds k = Some None"

definition present :: "(string \<times> string option) list \<Rightarrow> string \<Rightarrow> bool" where
  "present ds k \<longleftrightarrow> map_of ds k \<noteq> None"

definition seconds_of :: "(string \<times> string option) list \<Rightarrow> string \<Rightarrow> duration" where
  "seconds_of ds k =
     (case map_of ds k of
        Some (Some v) \<Rightarrow> (case seconds_arg v of Some d \<Rightarrow> d | None \<Rightarrow> 0)
      | _ \<Rightarrow> 0)"

definition numeric_keys :: "string list" where
  "numeric_keys = [''max-age'', ''s-maxage'', ''stale-while-revalidate'', ''stale-if-error'']"

definition invalid_key :: "(string \<times> string option) list \<Rightarrow> string \<Rightarrow> bool" where
  "invalid_key ds k \<longleftrightarrow> k \<in> set numeric_keys \<and> (\<exists>v. map_of ds k = Some (Some v) \<and> seconds_arg v = None)"

definition cc_meaning :: "(string \<times> string option) list \<Rightarrow> directives" where
  "cc_meaning ds =
     \<lparr>Immutable = bare ds ''immutable'', MaxAge = seconds_of ds ''max-age'',
      MustRevalidate = bare ds ''must-revalidate'', MustUnderstand = bare ds ''must-understand'',
      NoCache = present ds ''no-cache'', NoStore = bare ds ''no-store'',
      NoTransform = bare ds ''no-transform'', Private = present ds ''private'',
      ProxyRevalidate = bare ds ''proxy-revalidate'', Public = bare ds ''public'',
      SMaxAge = seconds_of ds ''s-maxage'',
      StaleWhileRevalidate = seconds_of ds ''stale-while-revalidate'',
      StaleIfError = seconds_of ds ''stale-if-error''\<rparr>"

lemma cc_meaning_cong: "map_of ds = map_of es \<Longrightarrow> cc_meaning ds = cc_meaning es"
  by (simp add: cc_meaning_def bare_def present_def seconds_of_def)

lemma invalid_key_cong: "map_of ds = map_of es \<Longrightarrow> invalid_key ds = invalid_key es"
  by (simp add: invalid_key_def fun_eq_iff)

lemma map_of_snoc_old: "k \<in> fst ` set ps \<Longrightarrow> map_of (ps @ (k, x) # ds) = map_of (ps @ ds)"
proof -
  assume "k \<in> fst ` set ps"
  then obtain y where "map_of ps k = Some y"
    by (metis domD dom_map_of_conv_image_fst)
  then show ?thesis by (auto simp: map_add_def fun_eq_iff split: option.split)
qed

lemma map_of_snoc_new: "k \<notin> fst ` set ps \<Longrightarrow> map_of (ps @ [(k, x)]) = (map_of ps)(k \<mapsto> x)"
  using map_of_eq_None_iff [of ps k]
  by (auto simp: map_add_def fun_eq_iff split: option.split)

lemma apply_directive_meaning:
  assumes new: "key \<notin> fst ` set ps"
  shows "apply_directive key val found (cc_meaning ps) =
    (if key \<in> set numeric_keys \<and> found \<and> seconds_arg val = None
     then (cc_meaning ps, Some (ErrInvalidArgument key))
     else (cc_meaning (ps @ [(key, if found then Some val else None)]), None))"
proof -
  have n: "map_of ps key = None" using new by (simp add: map_of_eq_None_iff)
  show ?thesis
    using n unfolding apply_directive_def apply_number_def cc_meaning_def bare_def present_def seconds_of_def
      map_of_snoc_new [OF new] numeric_keys_def
    by (cases "seconds_arg val"; cases found) auto
qed

lemma directive_of_eq: "Cut (TrimSpace d) CHR ''='' = (key, val, found) \<Longrightarrow>
    directive_of d = (key, if found then Some val else None)"
  by (simp add: directive_of_def)

lemma directive_loop_meaning:
  assumes "set seen = fst ` set ps" and "\<nexists>k. invalid_key ps k"
  shows "((\<exists>k. invalid_key (ps @ map directive_of ds) k) \<longrightarrow>
            (\<exists>k. invalid_key (ps @ map directive_of ds) k \<and>
                 snd (directive_loop ds seen (cc_meaning ps)) = Some (ErrInvalidArgument k))) \<and>
          ((\<nexists>k. invalid_key (ps @ map directive_of ds) k) \<longrightarrow>
            directive_loop ds seen (cc_meaning ps) = (cc_meaning (ps @ map directive_of ds), None))"
  using assms
proof (induction ds arbitrary: ps seen)
  case Nil
  then show ?case by auto
next
  case (Cons d ds)
  obtain key val found where cut: "Cut (TrimSpace d) CHR ''='' = (key, val, found)"
    by (cases "Cut (TrimSpace d) CHR ''=''")
  define arg where "arg = (if found then Some val else None)"
  have dir: "map directive_of (d # ds) = (key, arg) # map directive_of ds"
    using directive_of_eq [OF cut] by (simp add: arg_def)
  show ?case
  proof (cases "key \<in> fst ` set ps")
    case True
    note old = map_of_snoc_old [OF True, of arg "map directive_of ds"]
    have "directive_loop (d # ds) seen (cc_meaning ps) = directive_loop ds seen (cc_meaning ps)"
      using cut True Cons.prems(1) by simp
    then show ?thesis
      using Cons.IH [OF Cons.prems] unfolding dir
      by (simp only: cc_meaning_cong [OF old] invalid_key_cong [OF old])
  next
    case False
    note step = apply_directive_meaning [OF False, of val found, folded arg_def]
    have unseen: "key \<notin> set seen" using False Cons.prems(1) by simp
    have new: "map_of (ps @ [(key, arg)]) = (map_of ps)(key \<mapsto> arg)"
      by (rule map_of_snoc_new [OF False])
    show ?thesis
    proof (cases "key \<in> set numeric_keys \<and> found \<and> seconds_arg val = None")
      case True
      have "map_of (ps @ (key, arg) # map directive_of ds) key = Some arg"
        using False by (simp add: map_of_eq_None_iff [symmetric] map_add_def)
      then have "invalid_key (ps @ (key, arg) # map directive_of ds) key"
        using True by (auto simp: invalid_key_def arg_def)
      moreover have "snd (directive_loop (d # ds) seen (cc_meaning ps)) = Some (ErrInvalidArgument key)"
        using cut unseen step True by simp
      ultimately show ?thesis unfolding dir by auto
    next
      case ok: False
      have valid: "\<nexists>k. invalid_key (ps @ [(key, arg)]) k"
        using Cons.prems(2) ok unfolding invalid_key_def new by (auto simp: arg_def split: if_splits)
      have keys: "set (key # seen) = fst ` set (ps @ [(key, arg)])"
        using Cons.prems(1) by auto
      have "directive_loop (d # ds) seen (cc_meaning ps) =
          directive_loop ds (key # seen) (cc_meaning (ps @ [(key, arg)]))"
        using cut unseen step ok by simp
      then show ?thesis
        using Cons.IH [OF keys valid] unfolding dir by (simp only: append_assoc append.simps)
    qed
  qed
qed

lemma cc_meaning_Nil: "cc_meaning [] = cc_zero"
  by (simp add: cc_meaning_def cc_zero_def bare_def present_def seconds_of_def)

lemma invalid_key_Nil [simp]: "\<not> invalid_key [] k"
  by (simp add: invalid_key_def)

text \<open>The parser succeeds exactly on valid headers and then returns their meaning.\<close>

lemma ParseCacheControl_ok:
  assumes "\<nexists>k. invalid_key (header_directives hdr) k"
  shows "ParseCacheControlDirective hdr = (cc_meaning (header_directives hdr), None)"
  using directive_loop_meaning [of "[]" "[]" "concat (map (split_on CHR '','') hdr)"] assms
  by (simp add: ParseCacheControlDirective_def header_directives_def cc_meaning_Nil)

lemma ParseCacheControl_error:
  assumes "invalid_key (header_directives hdr) k"
  shows "\<exists>k. invalid_key (header_directives hdr) k \<and>
    snd (ParseCacheControlDirective hdr) = Some (ErrInvalidArgument k)"
  using directive_loop_meaning [of "[]" "[]" "concat (map (split_on CHR '','') hdr)"] assms
  by (auto simp: ParseCacheControlDirective_def header_directives_def cc_meaning_Nil split: if_splits)

text \<open>
  A numeric argument is read exactly when its number of seconds fits a duration; above that
  the product with \<open>time.Second\<close> wraps around.
\<close>

lemma seconds_arg_Itoa: "in_int64 n \<Longrightarrow> seconds_arg (Itoa n) = Some (wrap64 (n * Second))"
  by (simp add: seconds_arg_def Atoi_Itoa)

lemma seconds_arg_exact:
  "\<bar>n\<bar> \<le> 9223372036 \<Longrightarrow> seconds_arg (Itoa n) = Some (n * Second)"
proof -
  assume "\<bar>n\<bar> \<le> 9223372036"
  then have "in_int64 n" and "in_int64 (n * Second)" by (auto simp: in_int64_def)
  then show ?thesis by (simp add: seconds_arg_Itoa)
qed

text \<open>A directive with a printed number as its argument.\<close>

lemma strip_space_end_digit:
  assumes "s \<noteq> []" "is_digit (last s)"
  shows "strip_space_end s = None"
proof -
  have enc: "list_all (\<lambda>e. e \<noteq> [] \<and> \<not> is_digit (last e)) space_encodings" by code_simp
  have "\<not> HasPrefix (rev s) (rev e)" if e: "e \<in> set space_encodings" for e
  proof
    assume "HasPrefix (rev s) (rev e)"
    then obtain r where "rev s = rev e @ r" unfolding HasPrefix_iff by blast
    then have "s = rev r @ e" by (metis rev_append rev_rev_ident)
    then show False using enc e assms(2) by (auto simp: list_all_iff)
  qed
  then show ?thesis by (auto simp: strip_space_end_def find_None_iff)
qed

lemma Itoa_chars: "set (Itoa n) \<subseteq> insert CHR ''-'' {c. is_digit c}"
  using dec_digits_digits by (auto simp: Itoa_def)

lemma Itoa_last: "Itoa n \<noteq> [] \<and> is_digit (last (Itoa n))"
  using dec_digits_digits [OF last_in_set [OF dec_digits_nonempty]] by (auto simp: Itoa_def)

lemma max_age_directive:
  "header_directives [''max-age='' @ Itoa n] = [(''max-age'', Some (Itoa n))]"
proof -
  have "CHR '','' \<notin> set (''max-age='' @ Itoa n)"
    using Itoa_chars [of n] by (auto simp: is_digit_def)
  moreover have "TrimSpace (''max-age='' @ Itoa n) = ''max-age='' @ Itoa n"
  proof (rule TrimSpace_id)
    show "strip_space (''max-age='' @ Itoa n) = None"
      by (simp add: strip_space_def space_encodings_def HasPrefix_def)
    show "strip_space_end (''max-age='' @ Itoa n) = None"
      by (rule strip_space_end_digit) (use Itoa_last [of n] in auto)
  qed
  moreover have "Cut (''max-age='' @ Itoa n) CHR ''='' = (''max-age'', Itoa n, True)"
    using Cut_found [of "CHR ''=''" "''max-age''" "Itoa n"] by simp
  ultimately show ?thesis
    by (simp add: header_directives_def split_on_no_sep directive_of_def)
qed

section \<open>Properties\<close>

text \<open>
  C34: The parser of Cache-Control is equivalent to the declarative reading. A field whose numeric
  directives all have an integer argument is parsed to its meaning, in which the first
  occurrence of a directive counts; otherwise the parser reports a directive whose argument is
  invalid.
\<close>

theorem parse_cache_control_correct:
  "if \<exists>k. invalid_key (header_directives hdr) k
   then \<exists>k. invalid_key (header_directives hdr) k \<and>
     snd (ParseCacheControlDirective hdr) = Some (ErrInvalidArgument k)
   else ParseCacheControlDirective hdr = (cc_meaning (header_directives hdr), None)"
  using ParseCacheControl_ok ParseCacheControl_error by auto

text \<open>
  C35: A numeric argument is a duration of exactly that many seconds up to 9223372036 seconds
  (292 years); beyond, the multiplication by \<open>time.Second\<close> wraps around.
\<close>

theorem max_age_bounds:
  assumes "in_int64 n"
  shows "MaxAge (fst (ParseCacheControlDirective [''max-age='' @ Itoa n])) = wrap64 (n * Second) \<and>
    (\<bar>n\<bar> \<le> 9223372036 \<longrightarrow> MaxAge (fst (ParseCacheControlDirective [''max-age='' @ Itoa n])) = n * Second)"
proof -
  have "seconds_arg (Itoa n) = Some (wrap64 (n * Second))" using assms by (rule seconds_arg_Itoa)
  then have s: "\<exists>y. seconds_arg (Itoa n) = Some y" "seconds_of [(''max-age'', Some (Itoa n))] ''max-age'' = wrap64 (n * Second)"
    by (simp_all add: seconds_of_def)
  have "ParseCacheControlDirective [''max-age='' @ Itoa n] = (cc_meaning [(''max-age'', Some (Itoa n))], None)"
    by (rule ParseCacheControl_ok [where hdr = "[''max-age='' @ Itoa n]", unfolded max_age_directive])
      (use s(1) in \<open>auto simp: invalid_key_def split: if_splits\<close>)
  then have "MaxAge (fst (ParseCacheControlDirective [''max-age='' @ Itoa n])) = wrap64 (n * Second)"
    by (simp only: fst_conv) (simp add: cc_meaning_def s(2))
  moreover have "wrap64 (n * Second) = n * Second" if "\<bar>n\<bar> \<le> 9223372036"
    using seconds_arg_exact [OF that] seconds_arg_Itoa [OF assms] by simp
  ultimately show ?thesis by simp
qed

theorem max_age_bounds_witness:
  "MaxAge (fst (ParseCacheControlDirective [''max-age='' @ Itoa 60])) = 60 * Second \<and>
   MaxAge (fst (ParseCacheControlDirective [''max-age='' @ Itoa 31536000000])) = wrap64 (31536000000 * Second)"
  using max_age_bounds [of 60] max_age_bounds [of 31536000000] by (simp add: in_int64_def)

end
