(* ===== verification/Vary.thy ===== *)
theory Vary
  imports Headers
begin

text \<open>
  \<^verbatim>\<open>internal/httpclient/internal/httpcaching/vary.go\<close>: the request fields that a stored
  response was selected by, and whether a request matches them.
\<close>

section \<open>Model\<close>

definition getVaryHeaderNames :: "header \<Rightarrow> string list" where
  "getVaryHeaderNames h =
     filter (\<lambda>f. f \<noteq> []) (map TrimSpace (concat (map (split_on CHR '','') (slice (hdr_index h ''Vary'')))))"

definition normalizeVaryHeaders :: "string list option \<Rightarrow> string list option" where
  "normalizeVaryHeaders v =
     (if v = None \<or> length (slice v) = 1 then v else Some [Join (slice v) '', ''])"

fun extract_loop :: "header \<Rightarrow> string list \<Rightarrow> header \<Rightarrow> header" where
  "extract_loop req [] acc = acc"
| "extract_loop req (n # ns) acc =
     extract_loop req ns (gm_set acc n (normalizeVaryHeaders (hdr_index req n)))"

definition ExtractVaryHeaders :: "header \<Rightarrow> header \<Rightarrow> header" where
  "ExtractVaryHeaders req resp = extract_loop req (getVaryHeaderNames resp) []"

fun match_loop :: "header \<Rightarrow> header \<Rightarrow> bool" where
  "match_loop req [] = True"
| "match_loop req ((n, v) # vs) =
     (let r = slice (normalizeVaryHeaders (hdr_index req n))
      in if length r \<noteq> length (slice v) then False
         else if length r = 1 \<and> hd (slice v) \<noteq> hd r then False
         else match_loop req vs)"

definition MatchVaryHeaders :: "header \<Rightarrow> header \<Rightarrow> bool" where
  "MatchVaryHeaders req vary =
     (if length vary = 0 then True
      else if hdr_has vary ''*'' then False
      else match_loop req vary)"

section \<open>Selection by the named fields\<close>

text \<open>The value of a request field that the cache compares: nothing, or one joined value.\<close>

definition vary_value :: "header \<Rightarrow> string \<Rightarrow> string list" where
  "vary_value req n = slice (normalizeVaryHeaders (hdr_index req n))"

lemma vary_value_length: "length (vary_value req n) \<le> 1"
  by (auto simp: vary_value_def normalizeVaryHeaders_def)

lemma match_loop_iff:
  "(\<And>n v. (n, v) \<in> set vs \<Longrightarrow> length (slice v) \<le> 1) \<Longrightarrow>
   match_loop req vs \<longleftrightarrow> (\<forall>n v. (n, v) \<in> set vs \<longrightarrow> slice v = vary_value req n)"
proof (induction vs)
  case Nil
  then show ?case by simp
next
  case (Cons a vs)
  obtain n v where a: "a = (n, v)" by (cases a)
  have len: "length (slice v) \<le> 1" "length (vary_value req n) \<le> 1"
    using Cons.prems [of n v] vary_value_length by (auto simp: a)
  have IH: "match_loop req vs \<longleftrightarrow> (\<forall>n v. (n, v) \<in> set vs \<longrightarrow> slice v = vary_value req n)"
    by (rule Cons.IH) (erule Cons.prems [OF list.set_intros(2)])
  show ?case
  proof (cases "slice v = vary_value req n")
    case True
    then show ?thesis using IH by (auto simp: a vary_value_def [symmetric])
  next
    case False
    then have "length (vary_value req n) \<noteq> length (slice v) \<or>
        length (vary_value req n) = 1 \<and> hd (slice v) \<noteq> hd (vary_value req n)"
      using len by (cases "slice v"; cases "vary_value req n") auto
    then have "\<not> match_loop req ((n, v) # vs)" by (auto simp: vary_value_def [symmetric])
    with False show ?thesis by (auto simp: a)
  qed
qed

lemma extract_loop_wf [simp]: "gm_wf acc \<Longrightarrow> gm_wf (extract_loop req ns acc)"
  by (induction req ns acc rule: extract_loop.induct) auto

lemma map_of_extract_loop:
  "map_of (extract_loop req ns acc) n =
     (if n \<in> set ns then Some (normalizeVaryHeaders (hdr_index req n)) else map_of acc n)"
  by (induction req ns acc rule: extract_loop.induct) auto

lemma ExtractVaryHeaders_lookup:
  "map_of (ExtractVaryHeaders req resp) n =
     (if n \<in> set (getVaryHeaderNames resp) then Some (normalizeVaryHeaders (hdr_index req n)) else None)"
  by (simp add: ExtractVaryHeaders_def map_of_extract_loop)

lemma ExtractVaryHeaders_wf [simp]: "gm_wf (ExtractVaryHeaders req resp)"
  by (simp add: ExtractVaryHeaders_def)

lemma ExtractVaryHeaders_entries:
  "(n, v) \<in> set (ExtractVaryHeaders req resp) \<longleftrightarrow>
     n \<in> set (getVaryHeaderNames resp) \<and> v = normalizeVaryHeaders (hdr_index req n)"
  by (auto simp: gm_wf_in_set ExtractVaryHeaders_lookup)

text \<open>
  A stored variant is selected by a request exactly when the Vary field of the stored response
  has no asterisk and every field it names has the same value in the two requests.
\<close>

lemma MatchVary_Extract:
  "MatchVaryHeaders req' (ExtractVaryHeaders req resp) \<longleftrightarrow>
     ''*'' \<notin> set (getVaryHeaderNames resp) \<and>
     (\<forall>n \<in> set (getVaryHeaderNames resp). vary_value req' n = vary_value req n)"
proof (cases "getVaryHeaderNames resp = []")
  case True
  then show ?thesis by (simp add: MatchVaryHeaders_def ExtractVaryHeaders_def)
next
  case False
  let ?vs = "ExtractVaryHeaders req resp"
  have "?vs \<noteq> []"
    using False ExtractVaryHeaders_entries [of "hd (getVaryHeaderNames resp)" _ req resp]
    by (metis empty_iff list.set(1) list.set_sel(1))
  moreover have "match_loop req' ?vs \<longleftrightarrow> (\<forall>n v. (n, v) \<in> set ?vs \<longrightarrow> slice v = vary_value req' n)"
    by (rule match_loop_iff) (auto simp: ExtractVaryHeaders_entries normalizeVaryHeaders_def)
  moreover have "hdr_has ?vs ''*'' \<longleftrightarrow> ''*'' \<in> set (getVaryHeaderNames resp)"
    by (simp add: hdr_has_def ExtractVaryHeaders_lookup)
  ultimately show ?thesis
    by (auto simp: MatchVaryHeaders_def ExtractVaryHeaders_entries vary_value_def)
qed

text \<open>Matching does not distinguish a stored nil from a stored empty list.\<close>

lemma match_loop_slice:
  "map fst vs = map fst ws \<Longrightarrow> map (slice \<circ> snd) vs = map (slice \<circ> snd) ws \<Longrightarrow>
   match_loop req vs = match_loop req ws"
proof (induction vs arbitrary: ws)
  case Nil
  then show ?case by simp
next
  case (Cons a vs)
  then obtain b ws' where "ws = b # ws'" by (cases ws) auto
  with Cons show ?case by (cases a; cases b) (auto simp: Let_def)
qed

section \<open>Properties\<close>

text \<open>
  C36: Variant selection. A request matches what was recorded for a stored response exactly when
  the response's Vary has no asterisk and every field that it names has the same value in this
  request as in the one that led to the response (absent in both, or equal once several values
  are joined).
\<close>

theorem vary_selects_same_variant:
  "MatchVaryHeaders req' (ExtractVaryHeaders req resp) \<longleftrightarrow>
     ''*'' \<notin> set (getVaryHeaderNames resp) \<and>
     (\<forall>n \<in> set (getVaryHeaderNames resp). vary_value req' n = vary_value req n)"
  by (rule MatchVary_Extract)

theorem vary_selects_same_variant_witness:
  "\<not> MatchVaryHeaders [(''Accept'', Some [''b''])]
      (ExtractVaryHeaders [(''Accept'', Some [''a''])] [(''Vary'', Some [''Accept''])])"
proof -
  have "getVaryHeaderNames [(''Vary'', Some [''Accept''])] = [''Accept'']" by code_simp
  moreover have "vary_value [(''Accept'', Some [''b''])] ''Accept'' \<noteq> vary_value [(''Accept'', Some [''a''])] ''Accept''"
    by code_simp
  ultimately show ?thesis unfolding vary_selects_same_variant by simp
qed

end
