(* ===== verification/Freshness.thy ===== *)
theory Freshness
  imports CacheControl
begin

text \<open>
  \<^verbatim>\<open>internal/httpclient/internal/httpcaching/freshness.go\<close>: the freshness lifetime of a
  stored response, its estimated creation time and its current age. The clock functions
  \<open>now\<close> and \<open>since\<close> are those of production (\<open>time.Now\<close>, \<open>time.Since\<close>): an argument holds the
  instant that the call reads.
\<close>

section \<open>Model\<close>

text \<open>The Expires branch: \<open>None\<close> when the function goes on to Last-Modified.\<close>

definition expires_lifetime :: "header \<Rightarrow> duration option" where
  "expires_lifetime h =
     (if hdr_Get h ''Expires'' = [] then None
      else (case ParseTime (hdr_Get h ''Expires'') of
              None \<Rightarrow> None
            | Some expiry \<Rightarrow>
                (case ParseTime (hdr_Get h ''Date'') of
                   None \<Rightarrow> None
                 | Some date \<Rightarrow> Some (Sub expiry date))))"

text \<open>The heuristic: a tenth of the time since the last modification.\<close>

definition heuristic_lifetime :: "header \<Rightarrow> duration" where
  "heuristic_lifetime h =
     (if hdr_Get h ''Last-Modified'' = [] then 0
      else (case ParseTime (hdr_Get h ''Last-Modified'') of
              None \<Rightarrow> 0
            | Some modified \<Rightarrow>
                (case ParseTime (hdr_Get h ''Date'') of
                   None \<Rightarrow> 0
                 | Some date \<Rightarrow> go_quot (Sub date modified) 10)))"

definition getFreshnessLifetime :: "header \<Rightarrow> directives \<Rightarrow> duration" where
  "getFreshnessLifetime h cc =
     (if SMaxAge cc \<noteq> 0 then SMaxAge cc
      else if MaxAge cc \<noteq> 0 then MaxAge cc
      else (case expires_lifetime h of Some d \<Rightarrow> d | None \<Rightarrow> heuristic_lifetime h))"

definition age_value :: "header \<Rightarrow> int" where
  "age_value h = (if hdr_Get h ''Age'' = [] then 0 else fst (Atoi (hdr_Get h ''Age'')))"

definition GetEstimatedResponseCreation :: "header \<Rightarrow> time \<Rightarrow> time \<Rightarrow> time \<Rightarrow> time" where
  "GetEstimatedResponseCreation h requestTime responseTime now =
     (let age = age_value h;
          date = (case ParseTime (hdr_Get h ''Date'') of None \<Rightarrow> now | Some d \<Rightarrow> d);
          apparentAge = max 0 (Sub responseTime date);
          responseDelay = Sub responseTime requestTime;
          correctedAgeValue = wrap64 (wrap64 (Second * age) + responseDelay)
      in responseTime + wrap64 (- max apparentAge correctedAgeValue))"

text \<open>\<open>GetCurrentAge\<close>, with the instant at which \<open>since\<close> reads the clock.\<close>

definition GetCurrentAge :: "time \<Rightarrow> time \<Rightarrow> duration" where
  "GetCurrentAge creation clock = Truncate (Sub clock creation) Second"

definition IsFresh :: "header \<Rightarrow> directives \<Rightarrow> time \<Rightarrow> time \<Rightarrow> duration \<times> bool" where
  "IsFresh h cc creation clock =
     (let age = GetCurrentAge creation clock in (age, age < getFreshnessLifetime h cc))"

section \<open>Age\<close>

lemma go_quot_mono: "a \<le> b \<Longrightarrow> 0 < m \<Longrightarrow> go_quot a m \<le> go_quot b m"
proof -
  assume ab: "a \<le> b" and m: "0 < m"
  have neg: "go_quot x m = - ((- x) div m)" if "x < 0" for x
    using that m by (simp add: go_quot_def)
  have pos: "go_quot x m = x div m" if "0 \<le> x" for x
    using that m by (rule go_quot_nonneg)
  show ?thesis
  proof (cases "0 \<le> a")
    case True
    with ab m show ?thesis by (simp add: pos zdiv_mono1)
  next
    case a: False
    show ?thesis
    proof (cases "0 \<le> b")
      case True
      have "- ((- a) div m) \<le> 0" using a m by (simp add: pos_imp_zdiv_nonneg_iff)
      moreover have "0 \<le> b div m" using True m by (simp add: pos_imp_zdiv_nonneg_iff)
      ultimately show ?thesis using a True by (simp add: neg pos)
    next
      case False
      with a ab m show ?thesis by (simp add: neg zdiv_mono1)
    qed
  qed
qed

lemma Truncate_mono: "a \<le> b \<Longrightarrow> 0 < m \<Longrightarrow> Truncate a m \<le> Truncate b m"
  unfolding Truncate_def by (rule mult_right_mono) (simp_all add: go_quot_mono)

lemma GetCurrentAge_mono: "t \<le> t' \<Longrightarrow> GetCurrentAge c t \<le> GetCurrentAge c t'"
  by (simp add: GetCurrentAge_def Truncate_mono Sub_mono)

lemma GetCurrentAge_antimono: "c \<le> c' \<Longrightarrow> GetCurrentAge c' t \<le> GetCurrentAge c t"
  by (simp add: GetCurrentAge_def Truncate_mono Sub_antimono)

text \<open>A response that is fresh at some instant was fresh at every earlier one.\<close>

lemma IsFresh_earlier: "snd (IsFresh h cc c t') \<Longrightarrow> t \<le> t' \<Longrightarrow> snd (IsFresh h cc c t)"
  using GetCurrentAge_mono [of t t' c] by (simp add: IsFresh_def Let_def)

text \<open>
  The calculation of RFC 9111, section 4.2.3, over unbounded integers: the corrected initial
  age, from which the estimated creation time is counted back.
\<close>

definition rfc_corrected_initial_age :: "header \<Rightarrow> time \<Rightarrow> time \<Rightarrow> time \<Rightarrow> int" where
  "rfc_corrected_initial_age h requestTime responseTime date =
     max (max 0 (responseTime - date)) (age_value h * Second + (responseTime - requestTime))"

lemma GetEstimatedResponseCreation_le: "GetEstimatedResponseCreation h req resp now \<le> resp"
proof -
  have "wrap64 (- x) = - x" if "0 \<le> x" "x \<le> max_int64" for x
    using that by (simp add: in_int64_def)
  moreover have "max (max 0 (Sub a b)) (wrap64 y) \<le> max_int64" for a b y
    using wrap64_in_range [of y] Sub_in_range [of a b] by (simp add: in_int64_def)
  ultimately show ?thesis
    by (simp add: GetEstimatedResponseCreation_def Let_def)
qed

lemma GetEstimatedResponseCreation_rfc:
  assumes date: "ParseTime (hdr_Get h ''Date'') = Some date"
    and age: "0 \<le> age_value h" "age_value h \<le> 1000000000"
    and delay: "0 \<le> resp - req" "resp - req \<le> 1000000000 * Second"
    and skew: "\<bar>resp - date\<bar> \<le> 9000000000 * Second"
  shows "GetEstimatedResponseCreation h req resp now = resp - rfc_corrected_initial_age h req resp date"
proof -
  have "in_int64 (resp - date)" "in_int64 (resp - req)" "in_int64 (Second * age_value h)"
    "in_int64 (Second * age_value h + (resp - req))"
    "in_int64 (- max (max 0 (resp - date)) (Second * age_value h + (resp - req)))"
    using age delay skew by (auto simp: in_int64_def)
  then show ?thesis
    by (simp add: GetEstimatedResponseCreation_def rfc_corrected_initial_age_def Let_def date
        Sub_exact mult.commute)
qed

section \<open>Lifetime\<close>

lemma lifetime_s_maxage: "SMaxAge cc \<noteq> 0 \<Longrightarrow> getFreshnessLifetime h cc = SMaxAge cc"
  by (simp add: getFreshnessLifetime_def)

lemma lifetime_max_age: "SMaxAge cc = 0 \<Longrightarrow> MaxAge cc \<noteq> 0 \<Longrightarrow> getFreshnessLifetime h cc = MaxAge cc"
  by (simp add: getFreshnessLifetime_def)

text \<open>A response with no freshness information is never fresh.\<close>

lemma no_information_not_fresh:
  assumes "SMaxAge cc = 0" "MaxAge cc = 0" "hdr_Get h ''Expires'' = []" "hdr_Get h ''Last-Modified'' = []"
    and "c \<le> t"
  shows "\<not> snd (IsFresh h cc c t)"
proof -
  have "0 \<le> Sub t c" using assms(5) by (simp add: Sub_def clamp64_def)
  then have "0 \<le> GetCurrentAge c t"
    by (simp add: GetCurrentAge_def Truncate_def go_quot_nonneg pos_imp_zdiv_nonneg_iff)
  then show ?thesis using assms
    by (simp add: IsFresh_def Let_def getFreshnessLifetime_def expires_lifetime_def heuristic_lifetime_def)
qed

section \<open>Properties\<close>

text \<open>
  C37: The estimated creation time of a response is its reception less the corrected initial age
  of RFC 9111, section 4.2.3, when the times are within bounds that keep the durations in range
  (a delay and an Age of at most 31 years, a clock skew of at most 285 years).
\<close>

theorem estimated_creation_rfc9111:
  assumes "ParseTime (hdr_Get h ''Date'') = Some date"
    and "0 \<le> age_value h" "age_value h \<le> 1000000000"
    and "0 \<le> resp - req" "resp - req \<le> 1000000000 * Second"
    and "\<bar>resp - date\<bar> \<le> 9000000000 * Second"
  shows "GetEstimatedResponseCreation h req resp now = resp - rfc_corrected_initial_age h req resp date"
  by (rule GetEstimatedResponseCreation_rfc [OF assms])

definition dated :: header where
  "dated = [(''Date'', Some [''Sun, 06 Nov 1994 08:49:37 GMT'']), (''Age'', Some [''30''])]"

theorem estimated_creation_rfc9111_witness:
  "\<exists>date. ParseTime (hdr_Get dated ''Date'') = Some date \<and>
     GetEstimatedResponseCreation dated date (date + 2 * Second) 0 = date + 2 * Second - 32 * Second"
proof -
  have "ParseTime (hdr_Get dated ''Date'') \<noteq> None" by code_simp
  then obtain date where d: "ParseTime (hdr_Get dated ''Date'') = Some date" by blast
  have a: "age_value dated = 30" by code_simp
  show ?thesis
    using estimated_creation_rfc9111 [OF d, of "date + 2 * Second" date 0] d a
    by (simp add: rfc_corrected_initial_age_def)
qed



end
