(* ===== verification/Caching.thy ===== *)
theory Caching
  imports CacheControl
begin

text \<open>
  \<^verbatim>\<open>internal/httpclient/internal/httpcaching/caching.go\<close>: whether a response may be stored.
\<close>

record 'b http_response =
  StatusCode :: int
  Header :: header
  Body :: 'b

abbreviation StatusOK :: int where "StatusOK \<equiv> 200"

text \<open>
  The result is the pair (cacheable, explicitlyConfigured). As in the source, the fields Range,
  Content-Range and Authorization are looked up in the header of the response.
\<close>

definition IsCacheable :: "'b http_response \<Rightarrow> bool \<Rightarrow> bool \<times> bool" where
  "IsCacheable r isPrivate =
     (if StatusCode r \<noteq> StatusOK then (False, True)
      else case ParseCacheControlDirective (slice (hdr_Values (Header r) ''Cache-Control'')) of
             (cc, Some err) \<Rightarrow> (False, True)
           | (cc, None) \<Rightarrow>
               if hdr_has (Header r) ''Range'' then (False, True)
               else if hdr_has (Header r) ''Content-Range'' then (False, True)
               else if NoStore cc then (False, True)
               else if Private cc then (isPrivate, True)
               else if hdr_has (Header r) ''Authorization'' \<and> \<not> isPrivate
                       \<and> \<not> MustRevalidate cc \<and> \<not> Public cc \<and> SMaxAge cc = 0 then (False, True)
               else if Public cc \<or> MaxAge cc \<noteq> 0 \<or> SMaxAge cc \<noteq> 0 then (True, True)
               else if hdr_has (Header r) ''Expires'' then (True, True)
               else if hdr_Get (Header r) ''Etag'' \<noteq> [] then (True, True)
               else if hdr_Get (Header r) ''Last-Modified'' \<noteq> []
                       \<and> ParseTime (hdr_Get (Header r) ''Last-Modified'') \<noteq> None then (True, True)
               else (False, False))"

text \<open>
  The client stores a response unless it is explicitly uncacheable
  (\<^verbatim>\<open>!isCacheable && explicitlyConfigured\<close> in \<^verbatim>\<open>Client.Do\<close>).
\<close>

definition may_store :: "'b http_response \<Rightarrow> bool \<Rightarrow> bool" where
  "may_store r isPrivate = (case IsCacheable r isPrivate of (c, e) \<Rightarrow> c \<or> \<not> e)"

lemma may_store_iff:
  "may_store r isPrivate \<longleftrightarrow>
     StatusCode r = StatusOK \<and> \<not> hdr_has (Header r) ''Range'' \<and> \<not> hdr_has (Header r) ''Content-Range'' \<and>
     (\<exists>cc. ParseCacheControlDirective (slice (hdr_Values (Header r) ''Cache-Control'')) = (cc, None) \<and>
        \<not> NoStore cc \<and> (Private cc \<longrightarrow> isPrivate) \<and>
        (hdr_has (Header r) ''Authorization'' \<longrightarrow>
           isPrivate \<or> MustRevalidate cc \<or> Public cc \<or> SMaxAge cc \<noteq> 0))"
proof -
  obtain cc err where p: "ParseCacheControlDirective (slice (hdr_Values (Header r) ''Cache-Control'')) = (cc, err)"
    by (cases "ParseCacheControlDirective (slice (hdr_Values (Header r) ''Cache-Control''))")
  show ?thesis
    by (cases err) (auto simp: may_store_def IsCacheable_def p)
qed

lemma may_store_200: "may_store r isPrivate \<Longrightarrow> StatusCode r = StatusOK"
  by (simp add: may_store_iff)

section \<open>Properties\<close>



end
