(* ===== verification/TeeReader.thy ===== *)
theory TeeReader
  imports Prelude
begin

text \<open>
  \<^verbatim>\<open>internal/teereader/teereader.go\<close>: a reader that copies what it reads to a writer, and
  remembers the first read and write errors for the callback that \<open>Close\<close> runs. The source is
  an \<open>io.Reader\<close> that answers each call with the next element of a list of pieces, so that
  short reads and read errors at any point are covered; the writer is an operation \<open>wr\<close> on
  a state of any type.
\<close>

section \<open>Readers and writers\<close>

datatype io_error = EOF | ErrIO string

text \<open>A piece is the data and the error of one call to \<open>Read\<close>; after the last one comes EOF.\<close>

record reader =
  pieces :: "(string \<times> io_error option) list"
  close_err :: "io_error option"

text \<open>\<open>Read\<close> with a buffer of \<open>k\<close> bytes: a longer piece is delivered in parts.\<close>

definition src_Read :: "nat \<Rightarrow> reader \<Rightarrow> string \<times> io_error option \<times> reader" where
  "src_Read k r =
     (case pieces r of
        [] \<Rightarrow> ([], Some EOF, r)
      | (d, e) # ps \<Rightarrow>
          if length d \<le> k then (d, e, r\<lparr>pieces := ps\<rparr>)
          else (take k d, None, r\<lparr>pieces := (drop k d, e) # ps\<rparr>))"

type_synonym 'd writer = "'d \<Rightarrow> string \<Rightarrow> 'd \<times> io_error option"

section \<open>TeeReader\<close>

record 'd TeeReader =
  src :: reader
  dest :: 'd
  lastReadErr :: "io_error option"
  lastWriteErr :: "io_error option"
  hasError :: bool
  totalRead :: nat

definition TeeReader_New :: "reader \<Rightarrow> 'd \<Rightarrow> 'd TeeReader" where
  "TeeReader_New s d = \<lparr>src = s, dest = d, lastReadErr = None, lastWriteErr = None,
     hasError = False, totalRead = 0\<rparr>"

definition TeeReader_Read ::
    "'d writer \<Rightarrow> nat \<Rightarrow> 'd TeeReader \<Rightarrow> string \<times> io_error option \<times> 'd TeeReader" where
  "TeeReader_Read wr k t =
     (case src_Read k (src t) of (p, readErr, s) \<Rightarrow>
        if hasError t then (p, readErr, t\<lparr>src := s, totalRead := totalRead t + length p\<rparr>)
        else
          let t1 = (if readErr \<noteq> None \<and> readErr \<noteq> Some EOF
                    then t\<lparr>src := s, hasError := True, lastReadErr := readErr\<rparr>
                    else t\<lparr>src := s\<rparr>);
              t2 = (if p \<noteq> []
                    then (case wr (dest t1) p of
                            (d, None) \<Rightarrow> t1\<lparr>dest := d\<rparr>
                          | (d, Some e) \<Rightarrow> t1\<lparr>dest := d, hasError := True, lastWriteErr := Some e\<rparr>)
                    else t1)
          in (p, readErr, t2\<lparr>totalRead := totalRead t2 + length p\<rparr>))"

text \<open>\<open>Close\<close> passes the total and the two errors to the callback.\<close>

definition TeeReader_Close ::
    "(nat \<Rightarrow> io_error option \<Rightarrow> io_error option \<Rightarrow> 'r) \<Rightarrow> 'd TeeReader \<Rightarrow> 'r" where
  "TeeReader_Close onClose t = onClose (totalRead t) (lastReadErr t) (lastWriteErr t)"

section \<open>Sequences of reads\<close>

text \<open>The results of reading with buffers of the given sizes.\<close>

fun src_reads :: "nat list \<Rightarrow> reader \<Rightarrow> (string \<times> io_error option) list \<times> reader" where
  "src_reads [] r = ([], r)"
| "src_reads (k # ks) r =
     (case src_Read k r of (p, e, r') \<Rightarrow>
        (case src_reads ks r' of (res, r'') \<Rightarrow> ((p, e) # res, r'')))"

fun tee_reads :: "'d writer \<Rightarrow> nat list \<Rightarrow> 'd TeeReader \<Rightarrow> (string \<times> io_error option) list \<times> 'd TeeReader" where
  "tee_reads wr [] t = ([], t)"
| "tee_reads wr (k # ks) t =
     (case TeeReader_Read wr k t of (p, e, t') \<Rightarrow>
        (case tee_reads wr ks t' of (res, t'') \<Rightarrow> ((p, e) # res, t'')))"

lemma tee_reads_append:
  "tee_reads wr (ks @ ks') t = (case tee_reads wr ks t of (res, t1) \<Rightarrow>
     (case tee_reads wr ks' t1 of (res', t2) \<Rightarrow> (res @ res', t2)))"
  by (induction ks arbitrary: t) (auto split: prod.splits)

definition read_data :: "(string \<times> io_error option) list \<Rightarrow> string" where
  "read_data res = concat (map fst res)"

lemma read_data_simps [simp]: "read_data [] = []" "read_data ((p, e) # res) = p @ read_data res"
  by (simp_all add: read_data_def)

text \<open>The data a reader still holds.\<close>

definition remaining :: "reader \<Rightarrow> string" where
  "remaining r = read_data (pieces r)"

lemma src_Read_remaining:
  "src_Read k r = (p, e, r') \<Longrightarrow> remaining r = p @ remaining r'"
  by (auto simp: src_Read_def remaining_def split: list.splits if_splits)

lemma src_reads_remaining:
  "src_reads ks r = (res, r') \<Longrightarrow> remaining r = read_data res @ remaining r'"
  by (induction ks arbitrary: r res)
    (auto split: prod.splits dest!: src_Read_remaining)

lemma tee_Read_src:
  "TeeReader_Read wr k t = (p, e, t') \<Longrightarrow> src_Read k (src t) = (p, e, src t')"
  by (auto simp: TeeReader_Read_def Let_def split: prod.splits if_splits option.splits)

lemma tee_Read_total:
  "TeeReader_Read wr k t = (p, e, t') \<Longrightarrow> totalRead t' = totalRead t + length p"
  by (auto simp: TeeReader_Read_def Let_def split: prod.splits if_splits option.splits)

text \<open>
  Reading through the tee gives the caller exactly what reading the source would, whatever
  the writer does.
\<close>

lemma tee_reads_src:
  "tee_reads wr ks t = (res, t') \<Longrightarrow> src_reads ks (src t) = (res, src t')"
  by (induction ks arbitrary: t res)
    (auto split: prod.splits dest!: tee_Read_src)

lemma tee_reads_total:
  "tee_reads wr ks t = (res, t') \<Longrightarrow> totalRead t' = totalRead t + length (read_data res)"
  by (induction ks arbitrary: t res)
    (auto split: prod.splits dest!: tee_Read_total)

text \<open>The recorded errors are those that set the flag.\<close>

definition tee_inv :: "'d TeeReader \<Rightarrow> bool" where
  "tee_inv t \<longleftrightarrow> (hasError t \<longleftrightarrow> lastReadErr t \<noteq> None \<or> lastWriteErr t \<noteq> None)"

lemma tee_inv_New [simp]: "tee_inv (TeeReader_New s d)"
  by (simp add: tee_inv_def TeeReader_New_def)

lemma tee_inv_Read: "tee_inv t \<Longrightarrow> TeeReader_Read wr k t = (p, e, t') \<Longrightarrow> tee_inv t'"
  by (auto simp: tee_inv_def TeeReader_Read_def Let_def split: prod.splits if_splits option.splits)

lemma tee_inv_reads: "tee_inv t \<Longrightarrow> tee_reads wr ks t = (res, t') \<Longrightarrow> tee_inv t'"
  by (induction ks arbitrary: t res)
    (auto split: prod.splits dest: tee_inv_Read)

lemma tee_Read_hasError: "TeeReader_Read wr k t = (p, e, t') \<Longrightarrow> hasError t \<Longrightarrow> hasError t'"
  by (auto simp: TeeReader_Read_def Let_def split: prod.splits if_splits option.splits)

lemma tee_reads_hasError: "tee_reads wr ks t = (res, t') \<Longrightarrow> hasError t \<Longrightarrow> hasError t'"
  by (induction ks arbitrary: t res)
    (auto split: prod.splits dest: tee_Read_hasError)

section \<open>The writer's contract\<close>

text \<open>
  What the tee relies on: a write that reports no error has appended the data to what the
  writer holds.
\<close>

locale append_writer =
  fixes wr :: "'d writer"
    and contents :: "'d \<Rightarrow> string"
  assumes write_ok: "wr d p = (d', None) \<Longrightarrow> contents d' = contents d @ p"
begin

lemma Read_contents:
  assumes "TeeReader_Read wr k t = (p, e, t')" and "\<not> hasError t'"
  shows "contents (dest t') = contents (dest t) @ p"
  using assms write_ok
  by (fastforce simp: TeeReader_Read_def Let_def split: prod.splits if_splits option.splits)

lemma reads_contents:
  "tee_reads wr ks t = (res, t') \<Longrightarrow> \<not> hasError t' \<Longrightarrow>
   contents (dest t') = contents (dest t) @ read_data res"
proof (induction ks arbitrary: t res)
  case Nil
  then show ?case by simp
next
  case (Cons k ks)
  obtain p e t1 where r: "TeeReader_Read wr k t = (p, e, t1)" by (cases "TeeReader_Read wr k t")
  obtain res' where rs: "tee_reads wr ks t1 = (res', t')" and res: "res = (p, e) # res'"
    using Cons.prems(1) r by (auto split: prod.splits)
  have "\<not> hasError t1" using tee_reads_hasError [OF rs] Cons.prems(2) by blast
  with Cons.IH [OF rs Cons.prems(2)] Read_contents [OF r] res show ?case by simp
qed

text \<open>When no error was seen and the source is drained, the writer holds all of the source.\<close>

lemma drained_contents:
  assumes "tee_reads wr ks (TeeReader_New s d) = (res, t')" and "\<not> hasError t'"
    and "remaining (src t') = []"
  shows "contents (dest t') = contents d @ remaining s"
  using reads_contents [OF assms(1,2)] src_reads_remaining [OF tee_reads_src [OF assms(1)]] assms(3)
  by (simp add: TeeReader_New_def)

end

section \<open>Properties\<close>

text \<open>
  Transparency. Whatever the writer does, also when it fails, reading through the tee gives
  the client the same bytes and the same errors as reading the source itself, call by call.
\<close>

lemma tee_transparent:
  "fst (tee_reads wr ks t) = fst (src_reads ks (src t))"
  using tee_reads_src [of wr ks t] by (metis fst_conv prod.collapse)

end
