(* ===== verification/FileCache.thy ===== *)
theory FileCache
  imports GoTime TeeReader
begin

text \<open>
  \<^verbatim>\<open>internal/filecache/filecache.go\<close>: the content-addressed store of response bodies on disk.

  The directory tree below the cache's root is a Go map from directory names to Go maps from
  file names to files. Every call of package \<open>os\<close> takes a fault function \<open>F\<close>: where it is
  \<open>Some e\<close> for the call, the operating system fails with \<open>e\<close>; otherwise the call behaves as on a
  healthy file system. The hash function (package blake3) is an argument, the digest of the
  data written.

  While a body is being ingested its bytes are kept in the ingestion's own state; the temporary
  file's entry in the tree gets them when the file is renamed. Nothing reads temporary files.
\<close>

section \<open>The file system\<close>

record disk_file =
  content :: string
  mtime :: time

type_synonym dir = "(string, disk_file) gomap"
type_synonym fs = "(string, dir) gomap"

datatype os_error = ErrNotExist | ErrExist | ErrOS string

datatype os_call = OpMkdir string | OpReadDir string | OpRemoveAll string | OpStat string string
  | OpInfo string string | OpRemove string string | OpOpen string string | OpChtimes string string
  | OpCreateTemp | OpCloseTemp string | OpRename string string

type_synonym faults = "os_call \<Rightarrow> os_error option"

definition no_faults :: faults where "no_faults = (\<lambda>_. None)"

definition fs_file :: "fs \<Rightarrow> string \<Rightarrow> string \<Rightarrow> disk_file option" where
  "fs_file t d n = (case map_of t d of None \<Rightarrow> None | Some es \<Rightarrow> map_of es n)"

definition fs_dir :: "fs \<Rightarrow> string \<Rightarrow> dir" where
  "fs_dir t d = (case map_of t d of None \<Rightarrow> [] | Some es \<Rightarrow> es)"

definition fs_put :: "fs \<Rightarrow> string \<Rightarrow> string \<Rightarrow> disk_file \<Rightarrow> fs" where
  "fs_put t d n f = gm_set t d (gm_set (fs_dir t d) n f)"

definition fs_remove :: "fs \<Rightarrow> string \<Rightarrow> string \<Rightarrow> fs" where
  "fs_remove t d n = (case map_of t d of None \<Rightarrow> t | Some es \<Rightarrow> gm_set t d (gm_del es n))"

text \<open>\<open>os.ReadDir\<close> sorts the entries by name.\<close>

definition ReadDir :: "faults \<Rightarrow> fs \<Rightarrow> string \<Rightarrow> os_error + string list" where
  "ReadDir F t d =
     (case F (OpReadDir d) of
        Some e \<Rightarrow> Inl e
      | None \<Rightarrow> (case map_of t d of None \<Rightarrow> Inl ErrNotExist | Some es \<Rightarrow> Inr (sort (map fst es))))"

definition ReadRoot :: "faults \<Rightarrow> fs \<Rightarrow> os_error + string list" where
  "ReadRoot F t = (case F (OpReadDir []) of Some e \<Rightarrow> Inl e | None \<Rightarrow> Inr (sort (map fst t)))"

definition lookup_call :: "faults \<Rightarrow> os_call \<Rightarrow> fs \<Rightarrow> string \<Rightarrow> string \<Rightarrow> os_error + disk_file" where
  "lookup_call F op t d n =
     (case F op of
        Some e \<Rightarrow> Inl e
      | None \<Rightarrow> (case fs_file t d n of None \<Rightarrow> Inl ErrNotExist | Some f \<Rightarrow> Inr f))"

definition os_Stat :: "faults \<Rightarrow> fs \<Rightarrow> string \<Rightarrow> string \<Rightarrow> os_error + disk_file" where
  "os_Stat F t d n = lookup_call F (OpStat d n) t d n"

definition os_Info :: "faults \<Rightarrow> fs \<Rightarrow> string \<Rightarrow> string \<Rightarrow> os_error + disk_file" where
  "os_Info F t d n = lookup_call F (OpInfo d n) t d n"

definition os_Remove :: "faults \<Rightarrow> fs \<Rightarrow> string \<Rightarrow> string \<Rightarrow> os_error + fs" where
  "os_Remove F t d n =
     (case lookup_call F (OpRemove d n) t d n of Inl e \<Rightarrow> Inl e | Inr _ \<Rightarrow> Inr (fs_remove t d n))"

text \<open>\<open>os.Rename\<close> of a temporary file; the target's directory must exist.\<close>

definition tmpDirName :: string where "tmpDirName = ''_tmp''"

definition os_Rename :: "faults \<Rightarrow> fs \<Rightarrow> string \<Rightarrow> disk_file \<Rightarrow> string \<Rightarrow> string \<Rightarrow> os_error + fs" where
  "os_Rename F t tmp f d n =
     (case F (OpRename d n) of
        Some e \<Rightarrow> Inl e
      | None \<Rightarrow>
          if fs_file t tmpDirName tmp = None \<or> map_of t d = None then Inl ErrNotExist
          else Inr (fs_put (fs_remove t tmpDirName tmp) d n f))"

lemma fs_file_put [simp]:
  "fs_file (fs_put t d n f) d' n' = (if d' = d \<and> n' = n then Some f else fs_file t d' n')"
  by (auto simp: fs_file_def fs_put_def fs_dir_def split: option.splits)

lemma fs_file_remove [simp]:
  "fs_file (fs_remove t d n) d' n' = (if d' = d \<and> n' = n then None else fs_file t d' n')"
  by (auto simp: fs_file_def fs_remove_def split: option.splits)

lemma fs_remove_dirs [simp]: "map_of (fs_remove t d n) d' = None \<longleftrightarrow> map_of t d' = None"
  by (auto simp: fs_remove_def split: option.splits)

lemma fs_put_dirs [simp]: "map_of t d \<noteq> None \<Longrightarrow> map_of (fs_put t d n f) d' = None \<longleftrightarrow> map_of t d' = None"
  by (auto simp: fs_put_def)

text \<open>The representation invariant: directories and their entries have distinct names.\<close>

definition fs_wf :: "fs \<Rightarrow> bool" where
  "fs_wf t \<longleftrightarrow> gm_wf t \<and> (\<forall>d es. map_of t d = Some es \<longrightarrow> gm_wf es)"

lemma fs_wf_dir: "fs_wf t \<Longrightarrow> gm_wf (fs_dir t d)"
  by (auto simp: fs_wf_def fs_dir_def split: option.splits)

lemma fs_wf_put [simp]: "fs_wf t \<Longrightarrow> fs_wf (fs_put t d n f)"
  using fs_wf_dir [of t d] by (auto simp: fs_wf_def fs_put_def)

lemma fs_wf_remove [simp]: "fs_wf t \<Longrightarrow> fs_wf (fs_remove t d n)"
  by (auto simp: fs_wf_def fs_remove_def split: option.splits)

section \<open>Hashes and paths\<close>

definition hex_digits :: string where "hex_digits = ''0123456789abcdef''"

text \<open>\<open>fmt.Sprintf("%02x", i)\<close> for a byte, and \<open>hex.EncodeToString\<close>.\<close>

definition hex_byte :: "nat \<Rightarrow> string" where
  "hex_byte b = [hex_digits ! (b div 16), hex_digits ! (b mod 16)]"

definition hex_encode :: "string \<Rightarrow> string" where
  "hex_encode bs = concat (map (\<lambda>c. hex_byte (of_char c)) bs)"

text \<open>The expressions \<open>hash[:2]\<close> and \<open>hash[2:]\<close>, which panic on a shorter hash.\<close>

definition split_hash :: "string \<Rightarrow> (string \<times> string) go" where
  "split_hash h = (if length h < 2 then Panic ''slice bounds out of range'' else Ret (take 2 h, drop 2 h))"

lemma hex_encode_Cons: "hex_encode (c # cs) = hex_byte (of_char c) @ hex_encode cs"
  by (simp add: hex_encode_def)

lemma length_hex_encode [simp]: "length (hex_encode bs) = 2 * length bs"
  by (induction bs) (simp_all add: hex_encode_def hex_byte_def)

lemma hex_byte_tmp: "hex_byte b \<noteq> tmpDirName"
  by (simp add: hex_byte_def tmpDirName_def)

text \<open>The digest of a body as the cache names it.\<close>

definition body_hash :: "(string \<Rightarrow> string) \<Rightarrow> string \<Rightarrow> string" where
  "body_hash blake3 c = hex_encode (blake3 c)"

lemma split_body_hash:
  assumes "length (blake3 c) = 32"
  shows "split_hash (body_hash blake3 c) =
    Ret (hex_byte (of_char (hd (blake3 c))), hex_encode (tl (blake3 c)))"
  using assms
  by (cases "blake3 c") (auto simp: split_hash_def body_hash_def hex_encode_Cons hex_byte_def)

section \<open>The file cache\<close>

record FileCache =
  quotaLow :: int
  quotaHigh :: int

datatype fc_error = ErrInitialize os_error | ErrCannotOpen os_error | ErrGCleanupNotRequired
  | ErrAlreadyClosed | ErrScan os_error

subsection \<open>NewFileCache\<close>

definition mkdir_all :: "fs \<Rightarrow> string \<Rightarrow> fs" where
  "mkdir_all t d = (if map_of t d = None then gm_set t d [] else t)"

fun remove_temps :: "faults \<Rightarrow> string list \<Rightarrow> fs \<Rightarrow> os_error option \<times> fs" where
  "remove_temps F [] t = (None, t)"
| "remove_temps F (n # ns) t =
     (case F (OpRemoveAll n) of
        Some e \<Rightarrow> (Some e, t)
      | None \<Rightarrow> remove_temps F ns (fs_remove t tmpDirName n))"

text \<open>\<open>os.Mkdir\<close> of the 256 directories; that one exists already is no error.\<close>

fun make_dirs :: "faults \<Rightarrow> nat list \<Rightarrow> fs \<Rightarrow> os_error option \<times> fs" where
  "make_dirs F [] t = (None, t)"
| "make_dirs F (i # is) t =
     (case F (OpMkdir (hex_byte i)) of
        Some e \<Rightarrow> if e = ErrExist then make_dirs F is t else (Some e, t)
      | None \<Rightarrow> make_dirs F is (mkdir_all t (hex_byte i)))"

definition NewFileCache :: "faults \<Rightarrow> int \<Rightarrow> int \<Rightarrow> fs \<Rightarrow> (fc_error + FileCache) \<times> fs" where
  "NewFileCache F low high t =
     (case F (OpMkdir tmpDirName) of
        Some e \<Rightarrow> (Inl (ErrInitialize e), t)
      | None \<Rightarrow>
          (case ReadDir F (mkdir_all t tmpDirName) tmpDirName of
             Inl e \<Rightarrow> (Inl (ErrInitialize e), mkdir_all t tmpDirName)
           | Inr ns \<Rightarrow>
               (case remove_temps F ns (mkdir_all t tmpDirName) of
                  (Some e, t2) \<Rightarrow> (Inl (ErrInitialize e), t2)
                | (None, t2) \<Rightarrow>
                    (case make_dirs F [0..<256] t2 of
                       (Some e, t3) \<Rightarrow> (Inl (ErrInitialize e), t3)
                     | (None, t3) \<Rightarrow> (Inr \<lparr>quotaLow = low, quotaHigh = high\<rparr>, t3)))))"

subsection \<open>Open, Stat and Delete\<close>

text \<open>
  \<open>Open\<close> returns the content of the opened file and sets its modification time to the current
  time; a failure of the latter is only logged.
\<close>

definition fc_Open :: "faults \<Rightarrow> time \<Rightarrow> fs \<Rightarrow> string \<Rightarrow> ((fc_error + string) \<times> fs) go" where
  "fc_Open F now t hash =
     (case split_hash hash of
        Panic m \<Rightarrow> Panic m
      | Ret (d, n) \<Rightarrow>
          (case lookup_call F (OpOpen d n) t d n of
             Inl e \<Rightarrow> Ret (Inl (ErrCannotOpen e), t)
           | Inr f \<Rightarrow>
               Ret (Inr (content f),
                    case F (OpChtimes d n) of
                      Some e \<Rightarrow> t
                    | None \<Rightarrow> fs_put t d n (f\<lparr>mtime := now\<rparr>))))"

definition fc_Stat :: "faults \<Rightarrow> fs \<Rightarrow> string \<Rightarrow> (os_error + disk_file) go" where
  "fc_Stat F t hash =
     (case split_hash hash of Panic m \<Rightarrow> Panic m | Ret (d, n) \<Rightarrow> Ret (os_Stat F t d n))"

definition fc_Delete :: "faults \<Rightarrow> fs \<Rightarrow> string \<Rightarrow> (os_error + fs) go" where
  "fc_Delete F t hash =
     (case split_hash hash of Panic m \<Rightarrow> Panic m | Ret (d, n) \<Rightarrow> Ret (os_Remove F t d n))"

subsection \<open>Walking the directories\<close>

text \<open>
  The three walks of the source visit every directory but the temporary one in name order, and
  in each the files in name order; they end with the first error. The accumulator of the walk
  is an argument.
\<close>

fun walk_files ::
    "(string \<Rightarrow> 'a \<Rightarrow> os_error + 'a) \<Rightarrow> string list \<Rightarrow> 'a \<Rightarrow> os_error + 'a" where
  "walk_files f [] a = Inr a"
| "walk_files f (n # ns) a = (case f n a of Inl e \<Rightarrow> Inl e | Inr a' \<Rightarrow> walk_files f ns a')"

fun walk_dirs ::
    "faults \<Rightarrow> fs \<Rightarrow> (string \<Rightarrow> string \<Rightarrow> 'a \<Rightarrow> os_error + 'a) \<Rightarrow> string list \<Rightarrow> 'a \<Rightarrow> os_error + 'a" where
  "walk_dirs F t f [] a = Inr a"
| "walk_dirs F t f (d # ds) a =
     (if d = tmpDirName then walk_dirs F t f ds a
      else (case ReadDir F t d of
              Inl e \<Rightarrow> Inl e
            | Inr ns \<Rightarrow> (case walk_files (f d) ns a of
                           Inl e \<Rightarrow> Inl e
                         | Inr a' \<Rightarrow> walk_dirs F t f ds a')))"

definition walk ::
    "faults \<Rightarrow> fs \<Rightarrow> (string \<Rightarrow> string \<Rightarrow> 'a \<Rightarrow> os_error + 'a) \<Rightarrow> 'a \<Rightarrow> os_error + 'a" where
  "walk F t f a = (case ReadRoot F t of Inl e \<Rightarrow> Inl e | Inr ds \<Rightarrow> walk_dirs F t f ds a)"

definition file_size :: "disk_file \<Rightarrow> int" where
  "file_size f = int (length (content f))"

definition fc_GetStatistics :: "faults \<Rightarrow> fs \<Rightarrow> os_error + int \<times> int" where
  "fc_GetStatistics F t =
     walk F t (\<lambda>d n (count, size). case os_Info F t d n of
                 Inl e \<Rightarrow> Inl e
               | Inr f \<Rightarrow> Inr (count + 1, size + file_size f)) (0, 0)"

text \<open>Indexing a map of slices: the empty slice for a key that is absent.\<close>

definition map_slice :: "'a list option \<Rightarrow> 'a list" where
  "map_slice v = (case v of None \<Rightarrow> [] | Some xs \<Rightarrow> xs)"

type_synonym by_timestamp = "(int, (string \<times> string) list) gomap"

definition getFilesAndTimestamps :: "faults \<Rightarrow> fs \<Rightarrow> os_error + int \<times> by_timestamp" where
  "getFilesAndTimestamps F t =
     walk F t (\<lambda>d n (usage, m). case os_Info F t d n of
                 Inl e \<Rightarrow> Inl e
               | Inr f \<Rightarrow>
                   let ts = UnixTime (mtime f)
                   in Inr (usage + file_size f, gm_set m ts (map_slice (map_of m ts) @ [(d, n)]))) (0, [])"

definition GetAllHashes :: "faults \<Rightarrow> fs \<Rightarrow> os_error + string list" where
  "GetAllHashes F t = walk F t (\<lambda>d n hs. Inr (hs @ [d @ n])) []"

subsection \<open>Prune\<close>

text \<open>
  The eviction loop, over the files of the scan in the order of their timestamps. Between two
  iterations other goroutines may change the file system: \<open>other i\<close> is what they do before the
  \<open>i\<close>-th one. A failed \<open>os.Stat\<close> is only logged, and the nil file info is then dereferenced.
\<close>

fun evict ::
    "faults \<Rightarrow> (nat \<Rightarrow> fs \<Rightarrow> fs) \<Rightarrow> int \<Rightarrow> nat \<Rightarrow> (int \<times> string \<times> string) list \<Rightarrow> fs \<Rightarrow> int \<Rightarrow> int
     \<Rightarrow> (int \<times> fs) go" where
  "evict F other low i [] t usage removed = Ret (removed, t)"
| "evict F other low i ((ts, d, n) # files) t usage removed =
     (if usage \<le> low then Ret (removed, t)
      else case os_Stat F (other i t) d n of
             Inl e \<Rightarrow> Panic ''invalid memory address or nil pointer dereference''
           | Inr f \<Rightarrow>
               if UnixTime (mtime f) \<noteq> ts
               then evict F other low (Suc i) files (other i t) usage removed
               else (case os_Remove F (other i t) d n of
                       Inl e \<Rightarrow> evict F other low (Suc i) files (other i t) usage removed
                     | Inr t' \<Rightarrow>
                         evict F other low (Suc i) files t' (usage - file_size f) (removed + 1)))"

definition eviction_order :: "by_timestamp \<Rightarrow> (int \<times> string \<times> string) list" where
  "eviction_order m =
     concat (map (\<lambda>ts. map (\<lambda>f. (ts, f)) (map_slice (map_of m ts))) (sort (map fst m)))"

definition Prune ::
    "faults \<Rightarrow> (nat \<Rightarrow> fs \<Rightarrow> fs) \<Rightarrow> FileCache \<Rightarrow> fs \<Rightarrow> ((fc_error + int) \<times> fs) go" where
  "Prune F other fc t =
     (case getFilesAndTimestamps F t of
        Inl e \<Rightarrow> Ret (Inl (ErrScan e), t)
      | Inr (usage, m) \<Rightarrow>
          if usage < quotaHigh fc then Ret (Inl ErrGCleanupNotRequired, t)
          else (case evict F other (quotaLow fc) 0 (eviction_order m) t usage 0 of
                  Panic msg \<Rightarrow> Panic msg
                | Ret (removed, t') \<Rightarrow> Ret (Inr removed, t')))"

subsection \<open>Ingestion\<close>

text \<open>
  The destination of the tee: \<open>io.MultiWriter\<close> of the temporary file and the hasher. The disk
  takes \<open>capacity\<close> bytes, if it is bounded; a write that does not fit writes what fits, fails,
  and does not reach the hasher.
\<close>

record sink =
  tmp_name :: string
  written :: string
  hashed :: string
  capacity :: "nat option"

definition sink_write :: "sink writer" where
  "sink_write s p =
     (case capacity s of
        Some c \<Rightarrow>
          if length (written s) + length p \<le> c
          then (s\<lparr>written := written s @ p, hashed := hashed s @ p\<rparr>, None)
          else (s\<lparr>written := written s @ take (c - length (written s)) p\<rparr>,
                Some (ErrIO ''no space left on device''))
      | None \<Rightarrow> (s\<lparr>written := written s @ p, hashed := hashed s @ p\<rparr>, None))"

record ingestion =
  tee :: "sink TeeReader"
  wasCalled :: bool

text \<open>What \<open>SetupIngestion\<close> returns: the source itself, or a tee on it.\<close>

datatype body_reader = PlainBody reader | IngestBody ingestion

text \<open>\<open>os.CreateTemp\<close> picks the name \<open>name\<close>; it fails where the name is taken.\<close>

definition SetupIngestion ::
    "faults \<Rightarrow> string \<Rightarrow> nat option \<Rightarrow> time \<Rightarrow> fs \<Rightarrow> reader \<Rightarrow> body_reader \<times> fs" where
  "SetupIngestion F name cap now t s =
     (if F OpCreateTemp \<noteq> None \<or> map_of t tmpDirName = None \<or> fs_file t tmpDirName name \<noteq> None
      then (PlainBody s, t)
      else (IngestBody \<lparr>tee = TeeReader_New s \<lparr>tmp_name = name, written = [], hashed = [], capacity = cap\<rparr>,
                        wasCalled = False\<rparr>,
            fs_put t tmpDirName name \<lparr>content = [], mtime = now\<rparr>))"

definition ingest_Read :: "nat \<Rightarrow> ingestion \<Rightarrow> string \<times> io_error option \<times> ingestion" where
  "ingest_Read k g = (case TeeReader_Read sink_write k (tee g) of (p, e, t') \<Rightarrow> (p, e, g\<lparr>tee := t'\<rparr>))"

text \<open>The result of closing: the error returned, and the hash \<open>onIngest\<close> was called with, if it was.\<close>

datatype close_error = AlreadyClosed | SrcClose io_error

record close_result =
  cl_err :: "close_error option"
  cl_hash :: "string option"
  cl_released :: bool  \<comment> \<open>whether \<open>onCleanup\<close> ran\<close>

definition fc_cleanup :: "faults \<Rightarrow> string \<Rightarrow> fs \<Rightarrow> fs" where
  "fc_cleanup F name t = (case os_Remove F t tmpDirName name of Inl e \<Rightarrow> t | Inr t' \<Rightarrow> t')"

definition discarded :: "faults \<Rightarrow> sink TeeReader \<Rightarrow> fs \<Rightarrow> close_result \<times> fs" where
  "discarded F t files =
     (\<lparr>cl_err = map_option SrcClose (close_err (src t)), cl_hash = None, cl_released = True\<rparr>,
      fc_cleanup F (tmp_name (dest t)) files)"

text \<open>The callback that \<open>SetupIngestion\<close> hands to the tee; \<open>now\<close> is the time of the last write.\<close>

definition ingest_onClose ::
    "faults \<Rightarrow> (string \<Rightarrow> string) \<Rightarrow> FileCache \<Rightarrow> time \<Rightarrow> sink TeeReader \<Rightarrow> fs
     \<Rightarrow> nat \<Rightarrow> io_error option \<Rightarrow> io_error option \<Rightarrow> (close_result \<times> fs) go" where
  "ingest_onClose F blake3 fc now t files totalread readErr writeErr =
     (if go_quot (quotaHigh fc) 2 < int totalread then Ret (discarded F t files)
      else if readErr \<noteq> None \<or> writeErr \<noteq> None then Ret (discarded F t files)
      else (case src_Read 1 (src t) of (p, e, s') \<Rightarrow>
        if e \<noteq> Some EOF \<or> p \<noteq> [] then Ret (discarded F t files)
        else
          (case split_hash (body_hash blake3 (hashed (dest t))) of
             Panic m \<Rightarrow> Panic m
           | Ret (d, n) \<Rightarrow>
               (case os_Rename F files (tmp_name (dest t)) \<lparr>content = written (dest t), mtime = now\<rparr> d n of
                  Inl err \<Rightarrow> Ret (discarded F t files)
                | Inr files' \<Rightarrow>
                    Ret (\<lparr>cl_err = map_option SrcClose (close_err (src t)),
                          cl_hash = (if F (OpCloseTemp (tmp_name (dest t))) = None
                                     then Some (body_hash blake3 (hashed (dest t))) else None),
                          cl_released = True\<rparr>, files')))))"

definition ingest_Close ::
    "faults \<Rightarrow> (string \<Rightarrow> string) \<Rightarrow> FileCache \<Rightarrow> time \<Rightarrow> ingestion \<Rightarrow> fs
     \<Rightarrow> (close_result \<times> ingestion \<times> fs) go" where
  "ingest_Close F blake3 fc now g files =
     (if wasCalled g
      then Ret (\<lparr>cl_err = Some AlreadyClosed, cl_hash = None, cl_released = False\<rparr>, g, files)
      else (case TeeReader_Close (ingest_onClose F blake3 fc now (tee g) files) (tee g) of
              Panic m \<Rightarrow> Panic m
            | Ret (r, files') \<Rightarrow> Ret (r, g\<lparr>wasCalled := True\<rparr>, files')))"

interpretation sink: append_writer sink_write hashed
  by unfold_locales (auto simp: sink_write_def split: option.splits if_splits)

interpretation sink_file: append_writer sink_write written
  by unfold_locales (auto simp: sink_write_def split: option.splits if_splits)

end
