(* ===== verification/BlobStore.thy ===== *)
theory BlobStore
  imports FileCache
begin

text \<open>
  The file cache as a content-addressed store: the invariant that a file outside the temporary
  directory is named by the hash of its content, that every operation keeps it, the interface
  that the HTTP cache relies on, and that closing an ingested body stores it completely or not
  at all.
\<close>


section \<open>Content addressing\<close>

text \<open>
  The invariant of the store: every file outside the temporary directory is named by the hash
  of its content, and the 256 directories and the temporary one exist.
\<close>

definition addressed :: "(string \<Rightarrow> string) \<Rightarrow> fs \<Rightarrow> bool" where
  "addressed blake3 t \<longleftrightarrow>
     (\<forall>d n f. fs_file t d n = Some f \<and> d \<noteq> tmpDirName \<longrightarrow> d @ n = body_hash blake3 (content f))"

definition fc_dirs :: "fs \<Rightarrow> bool" where
  "fc_dirs t \<longleftrightarrow> (\<forall>d. map_of t d \<noteq> None \<longleftrightarrow> d = tmpDirName \<or> (\<exists>i < 256. d = hex_byte i))"

definition fc_inv :: "(string \<Rightarrow> string) \<Rightarrow> fs \<Rightarrow> bool" where
  "fc_inv blake3 t \<longleftrightarrow> fs_wf t \<and> fc_dirs t \<and> addressed blake3 t"

text \<open>The body stored under a hash.\<close>

definition blob :: "fs \<Rightarrow> string \<Rightarrow> string option" where
  "blob t h = (if length h < 2 then None else map_option content (fs_file t (take 2 h) (drop 2 h)))"

lemma split_hash_Ret: "split_hash h = Ret (d, n) \<longleftrightarrow> 2 \<le> length h \<and> d = take 2 h \<and> n = drop 2 h"
  by (auto simp: split_hash_def)

lemma take_drop_2_eq: "2 \<le> length h \<Longrightarrow> take 2 h = take 2 h' \<and> drop 2 h = drop 2 h' \<longleftrightarrow> h = h'"
  by (metis append_take_drop_id)

lemma take_2_not_tmp: "take 2 h \<noteq> tmpDirName"
  by (auto simp: tmpDirName_def dest: arg_cong [where f = length])

lemma fs_file_dir: "fs_file t d n = Some f \<Longrightarrow> map_of t d \<noteq> None"
  by (auto simp: fs_file_def split: option.splits)

lemma hex_byte_length [simp]: "length (hex_byte i) = 2"
  by (simp add: hex_byte_def)

lemma fc_inv_blob: "fc_inv blake3 t \<Longrightarrow> blob t h = Some c \<Longrightarrow> body_hash blake3 c = h"
  using take_2_not_tmp [of h]
  by (auto simp: fc_inv_def addressed_def blob_def split: if_splits) (metis append_take_drop_id)

lemma fc_inv_remove: "fc_inv blake3 t \<Longrightarrow> fc_inv blake3 (fs_remove t d n)"
  by (auto simp: fc_inv_def addressed_def fc_dirs_def)

lemma fc_dirs_put: "map_of t d \<noteq> None \<Longrightarrow> fc_dirs (fs_put t d n f) \<longleftrightarrow> fc_dirs t"
  unfolding fc_dirs_def fs_put_dirs ..

lemma fc_inv_touch:
  "fc_inv blake3 t \<Longrightarrow> fs_file t d n = Some f \<Longrightarrow> fc_inv blake3 (fs_put t d n (f\<lparr>mtime := m\<rparr>))"
  using fc_dirs_put [OF fs_file_dir, of t d n f] by (auto simp: fc_inv_def addressed_def)

lemma fc_inv_put_tmp:
  "fc_inv blake3 t \<Longrightarrow> fc_inv blake3 (fs_put t tmpDirName n f)"
  by (auto simp: fc_inv_def addressed_def fc_dirs_def)

lemma fc_inv_put:
  assumes "fc_inv blake3 t" and "map_of t d \<noteq> None" and "d @ n = body_hash blake3 (content f)"
  shows "fc_inv blake3 (fs_put t d n f)"
  using assms by (auto simp: fc_inv_def addressed_def fc_dirs_def)

lemma lookup_call_Inr: "lookup_call F op t d n = Inr f \<Longrightarrow> fs_file t d n = Some f"
  by (auto simp: lookup_call_def split: option.splits)

lemma fc_inv_Open: "fc_inv blake3 t \<Longrightarrow> fc_Open F now t h = Ret (r, t') \<Longrightarrow> fc_inv blake3 t'"
  by (auto simp: fc_Open_def fc_inv_touch dest: lookup_call_Inr split: go.splits prod.splits sum.splits option.splits)

lemma fc_inv_Delete: "fc_inv blake3 t \<Longrightarrow> fc_Delete F t h = Ret (Inr t') \<Longrightarrow> fc_inv blake3 t'"
  by (auto simp: fc_Delete_def os_Remove_def fc_inv_remove split: go.splits prod.splits sum.splits)

lemma fc_inv_cleanup: "fc_inv blake3 t \<Longrightarrow> fc_inv blake3 (fc_cleanup F name t)"
  by (auto simp: fc_cleanup_def os_Remove_def fc_inv_remove split: sum.splits)

lemma fc_inv_SetupIngestion:
  "fc_inv blake3 t \<Longrightarrow> SetupIngestion F name cap now t s = (b, t') \<Longrightarrow> fc_inv blake3 t'"
  by (auto simp: SetupIngestion_def fc_inv_put_tmp split: if_splits)

text \<open>Opening and statting never change what is stored.\<close>

lemma blob_touch: "fs_file t d n = Some f \<Longrightarrow> blob (fs_put t d n (f\<lparr>mtime := m\<rparr>)) = blob t"
  by (auto simp: blob_def fun_eq_iff)

lemma blob_Open: "fc_Open F now t h = Ret (r, t') \<Longrightarrow> blob t' = blob t"
  by (auto simp: fc_Open_def blob_touch dest: lookup_call_Inr split: go.splits prod.splits sum.splits option.splits)

lemma fc_Open_content: "fc_Open F now t h = Ret (Inr c, t') \<Longrightarrow> blob t h = Some c"
  by (auto simp: fc_Open_def blob_def split_hash_Ret dest: lookup_call_Inr split: go.splits prod.splits sum.splits)

lemma fc_Open_healthy:
  "2 \<le> length h \<Longrightarrow> F (OpOpen (take 2 h) (drop 2 h)) = None \<Longrightarrow>
   \<exists>t'. fc_Open F now t h = Ret (case blob t h of None \<Rightarrow> Inl (ErrCannotOpen ErrNotExist) | Some c \<Rightarrow> Inr c, t')"
  by (auto simp: fc_Open_def blob_def split_hash_def lookup_call_def split: option.splits)

lemma fs_remove_blob: "2 \<le> length h \<Longrightarrow> blob (fs_remove t (take 2 h) (drop 2 h)) = (blob t)(h := None)"
  by (auto simp: blob_def fun_eq_iff take_drop_2_eq)

lemma blob_remove_tmp: "blob (fs_remove t tmpDirName n) = blob t"
  using take_2_not_tmp by (auto simp: blob_def fun_eq_iff)

lemma blob_put_tmp: "blob (fs_put t tmpDirName n f) = blob t"
  using take_2_not_tmp by (auto simp: blob_def fun_eq_iff)

lemma blob_cleanup: "blob (fc_cleanup F name t) = blob t"
  by (auto simp: fc_cleanup_def os_Remove_def blob_remove_tmp split: sum.splits)

lemma blob_SetupIngestion: "SetupIngestion F name cap now t s = (b, t') \<Longrightarrow> blob t' = blob t"
  by (auto simp: SetupIngestion_def blob_put_tmp split: if_splits)

text \<open>
  The interface of the store for its clients: \<open>blob\<close> is what is stored under a hash, opening
  returns it and keeps it, deleting removes it and nothing else.
\<close>

locale blob_store =
  fixes stored :: "'s \<Rightarrow> string \<Rightarrow> string option"
    and opn :: "'s \<Rightarrow> string \<Rightarrow> string option \<times> 's"
    and del :: "'s \<Rightarrow> string \<Rightarrow> 's"
    and valid :: "string \<Rightarrow> bool"
  assumes opn_result: "valid h \<Longrightarrow> fst (opn s h) = stored s h"
    and opn_stored: "valid h \<Longrightarrow> stored (snd (opn s h)) = stored s"
    and del_stored: "valid h \<Longrightarrow> stored (del s h) = (stored s)(h := None)"
begin

lemma opn_again: "valid h \<Longrightarrow> valid h' \<Longrightarrow> fst (opn (snd (opn s h)) h') = fst (opn s h')"
  by (simp add: opn_result opn_stored)

lemma opn_after_del: "valid h \<Longrightarrow> valid h' \<Longrightarrow>
    fst (opn (del s h) h') = (if h' = h then None else fst (opn s h'))"
  by (simp add: opn_result del_stored)

lemma del_list: "(\<forall>h \<in> set hs. valid h) \<Longrightarrow>
    stored (fold (\<lambda>h s. del s h) hs s) = (\<lambda>h. if h \<in> set hs then None else stored s h)"
  by (induction hs arbitrary: s) (auto simp: del_stored fun_eq_iff)

end

text \<open>The file cache on a healthy file system provides it for every hash of two bytes or more.\<close>

definition healthy_open :: "fs \<Rightarrow> string \<Rightarrow> string option \<times> fs" where
  "healthy_open t h =
     (case fc_Open no_faults 0 t h of Ret (Inr c, t') \<Rightarrow> (Some c, t') | Ret (Inl e, t') \<Rightarrow> (None, t')
      | Panic m \<Rightarrow> (None, t))"

definition healthy_delete :: "fs \<Rightarrow> string \<Rightarrow> fs" where
  "healthy_delete t h = (case fc_Delete no_faults t h of Ret (Inr t') \<Rightarrow> t' | _ \<Rightarrow> t)"

interpretation disk: blob_store blob healthy_open healthy_delete "\<lambda>h. 2 \<le> length h"
proof
  fix h :: string and t :: fs
  assume h: "2 \<le> length h"
  obtain t' where o: "fc_Open no_faults 0 t h =
      Ret (case blob t h of None \<Rightarrow> Inl (ErrCannotOpen ErrNotExist) | Some c \<Rightarrow> Inr c, t')"
    using fc_Open_healthy [OF h, of no_faults 0 t] by (auto simp: no_faults_def)
  then show "fst (healthy_open t h) = blob t h"
    by (cases "blob t h") (simp_all add: healthy_open_def)
  show "blob (snd (healthy_open t h)) = blob t"
    using blob_Open [OF o] o by (cases "blob t h") (simp_all add: healthy_open_def)
  show "blob (healthy_delete t h) = (blob t)(h := None)"
  proof (cases "fs_file t (take 2 h) (drop 2 h)")
    case None
    then have "blob t h = None" using h by (simp add: blob_def)
    with None h show ?thesis
      by (simp add: healthy_delete_def fc_Delete_def split_hash_def os_Remove_def lookup_call_def
          no_faults_def fun_upd_idem)
  next
    case Some
    with h show ?thesis
      by (simp add: healthy_delete_def fc_Delete_def split_hash_def os_Remove_def lookup_call_def
          no_faults_def fs_remove_blob)
  qed
qed

section \<open>Ingestion stores complete bodies only\<close>

text \<open>A reader that reports EOF has nothing more to deliver.\<close>

definition eof_last :: "reader \<Rightarrow> bool" where
  "eof_last r \<longleftrightarrow> (\<forall>p \<in> set (butlast (pieces r)). snd p \<noteq> Some EOF)"

lemma eof_last_Read: "eof_last r \<Longrightarrow> src_Read k r = (p, e, r') \<Longrightarrow> eof_last r'"
  by (force simp: eof_last_def src_Read_def split: list.splits if_splits)

lemma eof_last_reads: "eof_last r \<Longrightarrow> src_reads ks r = (res, r') \<Longrightarrow> eof_last r'"
  by (induction ks arbitrary: r res) (auto split: prod.splits dest: eof_last_Read)

lemma eof_drained: "eof_last r \<Longrightarrow> src_Read k r = ([], Some EOF, r') \<Longrightarrow> remaining r = []"
  by (auto simp: eof_last_def src_Read_def remaining_def split: list.splits if_splits)

text \<open>The state of an ingestion after some reads of a fresh one.\<close>

definition ingesting :: "reader \<Rightarrow> ingestion \<Rightarrow> bool" where
  "ingesting s g \<longleftrightarrow> (\<exists>name cap ks res.
     tee_reads sink_write ks (TeeReader_New s \<lparr>tmp_name = name, written = [], hashed = [], capacity = cap\<rparr>)
       = (res, tee g))"

lemma sink_same: "TeeReader_Read sink_write k t = (p, e, t') \<Longrightarrow> \<not> hasError t' \<Longrightarrow>
    written (dest t) = hashed (dest t) \<Longrightarrow> written (dest t') = hashed (dest t')"
  using sink.Read_contents sink_file.Read_contents by metis

lemma ingesting_contents:
  assumes "ingesting s g" and "lastReadErr (tee g) = None" and "lastWriteErr (tee g) = None"
    and "remaining (src (tee g)) = []"
  shows "hashed (dest (tee g)) = remaining s" and "written (dest (tee g)) = remaining s"
    and "totalRead (tee g) = length (remaining s)"
proof -
  obtain name cap ks res where r: "tee_reads sink_write ks
      (TeeReader_New s \<lparr>tmp_name = name, written = [], hashed = [], capacity = cap\<rparr>) = (res, tee g)"
    using assms(1) by (auto simp: ingesting_def)
  have ok: "\<not> hasError (tee g)"
    using tee_inv_reads [OF tee_inv_New r] assms(2,3) by (simp add: tee_inv_def)
  show "hashed (dest (tee g)) = remaining s" "written (dest (tee g)) = remaining s"
    using sink.drained_contents [OF r ok assms(4)] sink_file.drained_contents [OF r ok assms(4)] by simp_all
  show "totalRead (tee g) = length (remaining s)"
    using tee_reads_total [OF r] src_reads_remaining [OF tee_reads_src [OF r]] assms(4)
    by (simp add: TeeReader_New_def)
qed


lemma ingesting_eof: "ingesting s g \<Longrightarrow> eof_last s \<Longrightarrow> eof_last (src (tee g))"
  unfolding ingesting_def
  by (elim exE) (frule tee_reads_src, auto simp: TeeReader_New_def dest: eof_last_reads)

lemma ingest_onClose_cases:
  assumes "ingest_onClose F blake3 fc now t files k re we = Ret (r, files')"
  obtains (discard) "r = fst (discarded F t files)" "files' = snd (discarded F t files)"
  | (store) d n s' where
      "int k \<le> go_quot (quotaHigh fc) 2" "re = None" "we = None"
      "src_Read 1 (src t) = ([], Some EOF, s')"
      "split_hash (body_hash blake3 (hashed (dest t))) = Ret (d, n)"
      "os_Rename F files (tmp_name (dest t)) \<lparr>content = written (dest t), mtime = now\<rparr> d n = Inr files'"
      "cl_hash r = (if F (OpCloseTemp (tmp_name (dest t))) = None
                    then Some (body_hash blake3 (hashed (dest t))) else None)"
proof -
  obtain p e s' where s: "src_Read 1 (src t) = (p, e, s')"
    by (cases "src_Read 1 (src t)")
  consider "go_quot (quotaHigh fc) 2 < int k \<or> re \<noteq> None \<or> we \<noteq> None \<or> e \<noteq> Some EOF \<or> p \<noteq> []"
    | "int k \<le> go_quot (quotaHigh fc) 2" "re = None" "we = None" "e = Some EOF" "p = []"
    by fastforce
  then show thesis
  proof cases
    case 1
    then have "Ret (r, files') = Ret (discarded F t files)"
      unfolding assms [symmetric] ingest_onClose_def s prod.case
      by (metis (no_types, lifting))
    then show thesis using discard by (metis fst_conv go.inject(1) snd_conv)
  next
    case 2
    obtain dn where h: "split_hash (body_hash blake3 (hashed (dest t))) = Ret dn"
      using assms 2 s by (cases "split_hash (body_hash blake3 (hashed (dest t)))") (simp_all add: ingest_onClose_def)
    obtain d n where dn: "dn = (d, n)" by (cases dn)
    show thesis
    proof (cases "os_Rename F files (tmp_name (dest t)) \<lparr>content = written (dest t), mtime = now\<rparr> d n")
      case (Inl err)
      then have "(r, files') = discarded F t files"
        using assms 2 s h dn by (simp add: ingest_onClose_def)
      then show thesis using discard by (metis fst_conv snd_conv)
    next
      case (Inr files'')
      then have "files' = files''" "cl_hash r = (if F (OpCloseTemp (tmp_name (dest t))) = None
          then Some (body_hash blake3 (hashed (dest t))) else None)"
        using assms 2 s h dn by (auto simp: ingest_onClose_def)
      with Inr 2 s h dn show thesis by (intro store [of s' d n]) simp_all
    qed
  qed
qed

lemma ingest_Close_onClose:
  assumes "ingest_Close F blake3 fc now g t = Ret (r, g', t')" and "\<not> wasCalled g"
  shows "ingest_onClose F blake3 fc now (tee g) t (totalRead (tee g)) (lastReadErr (tee g))
    (lastWriteErr (tee g)) = Ret (r, t')"
  using assms by (auto simp: ingest_Close_def TeeReader_Close_def split: go.splits prod.splits)

lemmas ingest_Close_cases = ingest_onClose_cases [OF ingest_Close_onClose, consumes 2, case_names discard store]

lemma os_Rename_blob:
  assumes "os_Rename F t tmp f (take 2 h) (drop 2 h) = Inr t'" and "2 \<le> length h"
  shows "blob t' = (blob t)(h \<mapsto> content f)"
  using assms take_2_not_tmp
  by (auto simp: os_Rename_def blob_def fun_eq_iff take_drop_2_eq split: option.splits if_splits)

lemma ingest_Close_stored:
  assumes "ingesting s g" "eof_last s" "\<not> wasCalled g"
    and close: "ingest_Close F blake3 fc now g t = Ret (r, g', t')" and hash: "cl_hash r = Some h"
  shows "h = body_hash blake3 (remaining s) \<and> blob t' = (blob t)(h \<mapsto> remaining s) \<and>
    int (length (remaining s)) \<le> go_quot (quotaHigh fc) 2"
  using close assms(3)
proof (cases rule: ingest_Close_cases)
  case discard
  then have False using hash by (simp add: discarded_def)
  then show ?thesis ..
next
  case (store d n s')
  have "remaining (src (tee g)) = []"
    using eof_drained [OF ingesting_eof [OF assms(1,2)] store(4)] .
  note c = ingesting_contents [OF assms(1) store(2,3) this]
  have h: "h = body_hash blake3 (remaining s)"
    using store(7) hash c by (simp split: if_splits)
  then have "2 \<le> length h" "d = take 2 h" "n = drop 2 h"
    using store(5) c by (simp_all add: split_hash_Ret)
  then have "blob t' = (blob t)(h \<mapsto> remaining s)"
    using os_Rename_blob [of F t _ _ h] store(6) c by simp
  then show ?thesis using h store(1) c by simp
qed

lemma ingest_Close_inv:
  assumes "ingesting s g" "eof_last s" and inv: "fc_inv blake3 t"
    and close: "ingest_Close F blake3 fc now g t = Ret (r, g', t')"
  shows "fc_inv blake3 t'"
proof (cases "wasCalled g")
  case True
  then show ?thesis using close inv by (simp add: ingest_Close_def)
next
  case False
  with close show ?thesis
  proof (cases rule: ingest_Close_cases)
    case discard
    then show ?thesis using inv by (simp add: discarded_def fc_inv_cleanup)
  next
    case (store d n s')
    have "remaining (src (tee g)) = []"
      using eof_drained [OF ingesting_eof [OF assms(1,2)] store(4)] .
    note c = ingesting_contents [OF assms(1) store(2,3) this]
    have "d @ n = body_hash blake3 (remaining s)"
      using store(5) c by (simp add: split_hash_Ret)
    moreover have "map_of t d \<noteq> None"
      "t' = fs_put (fs_remove t tmpDirName (tmp_name (dest (tee g)))) d n
        \<lparr>content = remaining s, mtime = now\<rparr>"
      using store(6) c by (auto simp: os_Rename_def split: option.splits if_splits)
    ultimately show ?thesis using inv by (simp add: fc_inv_put fc_inv_remove)
  qed
qed

lemma ingest_Close_success:
  assumes "ingesting s g" "\<not> wasCalled g" "lastReadErr (tee g) = None" "lastWriteErr (tee g) = None"
    and drained: "pieces (src (tee g)) = []" and fits: "int (length (remaining s)) \<le> go_quot (quotaHigh fc) 2"
    and hash: "2 \<le> length (body_hash blake3 (remaining s))"
      "map_of t (take 2 (body_hash blake3 (remaining s))) \<noteq> None"
    and tmp: "fs_file t tmpDirName (tmp_name (dest (tee g))) \<noteq> None"
    and F: "\<And>op. F op = None"
  shows "\<exists>r g' t'. ingest_Close F blake3 fc now g t = Ret (r, g', t') \<and>
    cl_hash r = Some (body_hash blake3 (remaining s))"
proof -
  have "remaining (src (tee g)) = []" using drained by (simp add: remaining_def)
  note c = ingesting_contents [OF assms(1,3,4) this]
  have eof: "src_Read 1 (src (tee g)) = ([], Some EOF, src (tee g))"
    using drained by (simp add: src_Read_def)
  let ?d = "take 2 (body_hash blake3 (remaining s))" and ?n = "drop 2 (body_hash blake3 (remaining s))"
  have dn: "split_hash (body_hash blake3 (remaining s)) = Ret (?d, ?n)"
    using hash(1) by (simp add: split_hash_def)
  have "\<exists>t'. os_Rename F t (tmp_name (dest (tee g))) \<lparr>content = remaining s, mtime = now\<rparr> ?d ?n = Inr t'"
    using tmp F hash(2) by (simp add: os_Rename_def)
  then show ?thesis
    using assms(2,3,4) fits eof c dn F
    by (auto simp: ingest_Close_def TeeReader_Close_def ingest_onClose_def)
qed

section \<open>A new file cache\<close>

lemma fs_file_mkdir_all [simp]: "fs_file (mkdir_all t d) d' n = fs_file t d' n"
  by (auto simp: mkdir_all_def fs_file_def)

lemma mkdir_all_dirs: "map_of (mkdir_all t d) d' \<noteq> None \<longleftrightarrow> d' = d \<or> map_of t d' \<noteq> None"
  by (auto simp: mkdir_all_def)

lemma fs_wf_mkdir_all: "fs_wf t \<Longrightarrow> fs_wf (mkdir_all t d)"
  by (auto simp: mkdir_all_def fs_wf_def)

lemma remove_temps_healthy:
  "\<exists>t'. remove_temps no_faults ns t = (None, t') \<and> (fs_wf t \<longrightarrow> fs_wf t') \<and>
    (\<forall>d. map_of t' d = None \<longleftrightarrow> map_of t d = None) \<and>
    (\<forall>d n. fs_file t' d n = (if d = tmpDirName \<and> n \<in> set ns then None else fs_file t d n))"
proof (induction ns arbitrary: t)
  case (Cons x ns)
  from Cons.IH [of "fs_remove t tmpDirName x"] show ?case
    by (auto simp: no_faults_def)
qed simp

lemma make_dirs_healthy:
  "\<exists>t'. make_dirs no_faults is t = (None, t') \<and> (fs_wf t \<longrightarrow> fs_wf t') \<and>
    (\<forall>d. map_of t' d \<noteq> None \<longleftrightarrow> map_of t d \<noteq> None \<or> d \<in> hex_byte ` set is) \<and>
    (\<forall>d n. fs_file t' d n = fs_file t d n)"
proof (induction "is" arbitrary: t)
  case (Cons i "is")
  from Cons.IH [of "mkdir_all t (hex_byte i)"] show ?case
    unfolding mkdir_all_dirs by (auto simp: no_faults_def fs_wf_mkdir_all)
qed simp

text \<open>
  Creating the cache on a directory of an earlier run, or on an empty one, establishes the
  invariant: the stored bodies are kept, and the temporary files of interrupted ingestions
  are gone.
\<close>

lemma NewFileCache_inv:
  assumes "fs_wf t" "addressed blake3 t"
    and dirs: "\<And>d. map_of t d \<noteq> None \<Longrightarrow> d = tmpDirName \<or> (\<exists>i < 256. d = hex_byte i)"
  shows "\<exists>t'. NewFileCache no_faults low high t = (Inr \<lparr>quotaLow = low, quotaHigh = high\<rparr>, t') \<and>
    fc_inv blake3 t' \<and> blob t' = blob t \<and> (\<forall>n. fs_file t' tmpDirName n = None)"
proof -
  let ?t1 = "mkdir_all t tmpDirName"
  obtain es where es: "map_of ?t1 tmpDirName = Some es"
    using mkdir_all_dirs [of t tmpDirName tmpDirName] by auto
  obtain t2 where t2: "remove_temps no_faults (sort (map fst es)) ?t1 = (None, t2)" "fs_wf t2"
    "\<And>d. map_of t2 d = None \<longleftrightarrow> map_of ?t1 d = None"
    "\<And>d n. fs_file t2 d n = (if d = tmpDirName \<and> n \<in> fst ` set es then None else fs_file ?t1 d n)"
    using remove_temps_healthy [of "sort (map fst es)" ?t1] fs_wf_mkdir_all [OF assms(1)] by auto
  obtain t3 where t3: "make_dirs no_faults [0..<256] t2 = (None, t3)" "fs_wf t3"
    "\<And>d. map_of t3 d \<noteq> None \<longleftrightarrow> map_of t2 d \<noteq> None \<or> d \<in> hex_byte ` {0..<256}"
    "\<And>d n. fs_file t3 d n = fs_file t2 d n"
    using make_dirs_healthy [of "[0..<256]" t2] t2(2) by (auto simp del: upt_Suc)
  have new: "NewFileCache no_faults low high t = (Inr \<lparr>quotaLow = low, quotaHigh = high\<rparr>, t3)"
    using es t2(1) t3(1) by (simp add: NewFileCache_def ReadDir_def no_faults_def)
  have "map_of t3 d \<noteq> None \<longleftrightarrow> d = tmpDirName \<or> (\<exists>i < 256. d = hex_byte i)" for d
    using t3(3) [of d] t2(3) [of d] mkdir_all_dirs [of t tmpDirName d] dirs [of d] by auto
  then have "fc_dirs t3" by (simp add: fc_dirs_def)
  moreover have keep: "fs_file t3 d n = fs_file t d n" if "d \<noteq> tmpDirName" for d n
    using that by (simp add: t3(4) t2(4))
  moreover have "blob t3 = blob t"
    using keep take_2_not_tmp by (simp add: blob_def fun_eq_iff)
  moreover have "fs_file t3 tmpDirName n = None" for n
  proof -
    have "fs_file ?t1 tmpDirName n = map_of es n" unfolding fs_file_def using es by simp
    then show ?thesis unfolding t3(4) t2(4) by (simp add: map_of_eq_None_iff)
  qed
  ultimately show ?thesis
    using new t3(2) assms(2) by (auto simp: fc_inv_def addressed_def)
qed

section \<open>The life of the store\<close>

text \<open>One operation of some goroutine on the store, the eviction of a single file included.\<close>

inductive fc_step :: "(string \<Rightarrow> string) \<Rightarrow> FileCache \<Rightarrow> fs \<Rightarrow> fs \<Rightarrow> bool" for blake3 fc where
  opened: "fc_Open F now t h = Ret (r, t') \<Longrightarrow> fc_step blake3 fc t t'"
| deleted: "fc_Delete F t h = Ret (Inr t') \<Longrightarrow> fc_step blake3 fc t t'"
| evicted: "os_Remove F t d n = Inr t' \<Longrightarrow> fc_step blake3 fc t t'"
| started: "SetupIngestion F name cap now t s = (b, t') \<Longrightarrow> fc_step blake3 fc t t'"
| closed: "ingesting s g \<Longrightarrow> eof_last s \<Longrightarrow> ingest_Close F blake3 fc now g t = Ret (r, g', t') \<Longrightarrow>
    fc_step blake3 fc t t'"

lemma fc_inv_step: "fc_step blake3 fc t t' \<Longrightarrow> fc_inv blake3 t \<Longrightarrow> fc_inv blake3 t'"
proof (induction rule: fc_step.induct)
  case (evicted F t d n t')
  then show ?case by (auto simp: os_Remove_def fc_inv_remove split: sum.splits)
qed (auto intro: fc_inv_Open fc_inv_Delete fc_inv_SetupIngestion ingest_Close_inv)

lemma fc_inv_steps: "(fc_step blake3 fc)\<^sup>*\<^sup>* t t' \<Longrightarrow> fc_inv blake3 t \<Longrightarrow> fc_inv blake3 t'"
  by (induction rule: rtranclp_induct) (auto intro: fc_inv_step)

definition empty_store :: fs where
  "empty_store = snd (NewFileCache no_faults 10 20 [])"

lemma empty_store_inv: "fc_inv blake3 empty_store"
  using NewFileCache_inv [of "[]" blake3 10 20]
  by (auto simp: empty_store_def fs_wf_def gm_wf_def addressed_def fs_file_def)

section \<open>Properties\<close>

text \<open>
  C12: Content addressing. Whatever goroutines open, delete, evict and ingest, in any order and
  with any failures of the file system, a body that the cache opens under a hash has that hash.
\<close>

theorem open_returns_addressed_content:
  assumes "fc_inv blake3 t" and "(fc_step blake3 fc)\<^sup>*\<^sup>* t t'" and "fc_Open F now t' h = Ret (Inr c, t'')"
  shows "body_hash blake3 c = h"
  using fc_inv_blob [OF fc_inv_steps [OF assms(2,1)] fc_Open_content [OF assms(3)]] .

text \<open>The examples: a digest of 32 bytes, and a store that holds one body under it.\<close>

definition pad_digest :: "string \<Rightarrow> string" where
  "pad_digest c = take 32 (c @ replicate 32 CHR ''0'')"

definition one_body :: fs where
  "one_body = fs_put empty_store ''61'' (drop 2 (body_hash pad_digest ''a'')) \<lparr>content = ''a'', mtime = 0\<rparr>"

lemma hex_byte_dir: "i < 256 \<Longrightarrow> fc_dirs t \<Longrightarrow> map_of t (hex_byte i) \<noteq> None"
  unfolding fc_dirs_def by blast

lemma one_body_inv: "fc_inv pad_digest one_body"
  unfolding one_body_def
proof (rule fc_inv_put [OF empty_store_inv])
  have "fc_dirs empty_store" using empty_store_inv [of pad_digest] by (simp add: fc_inv_def)
  moreover have "''61'' = hex_byte 97" by code_simp
  ultimately show "map_of empty_store ''61'' \<noteq> None"
    using hex_byte_dir [of 97] by simp
  show "''61'' @ drop 2 (body_hash pad_digest ''a'') = body_hash pad_digest (content \<lparr>content = ''a'', mtime = 0\<rparr>)"
    by code_simp
qed

lemma one_body_file: "fs_file one_body ''61'' (drop 2 (body_hash pad_digest ''a'')) = Some \<lparr>content = ''a'', mtime = 0\<rparr>"
  by (simp add: one_body_def)

theorem open_returns_addressed_content_witness:
  "\<exists>c t'. fc_Open no_faults 5 one_body (body_hash pad_digest ''a'') = Ret (Inr c, t') \<and>
     body_hash pad_digest c = body_hash pad_digest ''a''"
proof -
  have s: "split_hash (body_hash pad_digest ''a'') = Ret (''61'', drop 2 (body_hash pad_digest ''a''))"
    by code_simp
  obtain t' where o: "fc_Open no_faults 5 one_body (body_hash pad_digest ''a'') = Ret (Inr ''a'', t')"
    unfolding fc_Open_def s by (auto simp: lookup_call_def no_faults_def one_body_file)
  show ?thesis
    using o open_returns_addressed_content [OF one_body_inv rtranclp.rtrancl_refl o] by blast
qed


text \<open>
  C13: Round trip. When closing an ingested body reports a hash, the body was read to its end, the
  hash is that of the whole body, and opening the hash afterwards returns the body.
\<close>

theorem ingestion_roundtrip:
  assumes "ingesting s g" "eof_last s" "\<not> wasCalled g"
    and "ingest_Close F blake3 fc now g t = Ret (r, g', t')" and "cl_hash r = Some h"
  shows "h = body_hash blake3 (remaining s) \<and> int (length (remaining s)) \<le> go_quot (quotaHigh fc) 2 \<and>
    (\<exists>t''. fc_Open no_faults later t' h = Ret (Inr (remaining s), t''))"
proof -
  note c = ingest_Close_stored [OF assms]
  have b: "blob t' h = Some (remaining s)" using c by simp
  then have "2 \<le> length h" by (simp add: blob_def split: if_splits)
  from fc_Open_healthy [OF this, of no_faults later t'] b c show ?thesis by (auto simp: no_faults_def)
qed

text \<open>The example: a body of two pieces, read with buffers of 4 bytes.\<close>

definition hello :: reader where
  "hello = \<lparr>pieces = [(''hello '', None), (''w'', Some EOF)], close_err = None\<rparr>"

definition hello_tree :: fs where
  "hello_tree = [(tmpDirName, [(''tmp1'', \<lparr>content = [], mtime = 0\<rparr>)]), (''68'', [])]"

definition hello_read :: ingestion where
  "hello_read = \<lparr>tee = snd (tee_reads sink_write [4, 4, 4]
     (TeeReader_New hello \<lparr>tmp_name = ''tmp1'', written = [], hashed = [], capacity = None\<rparr>)),
     wasCalled = False\<rparr>"

lemma hello_ingesting: "ingesting hello hello_read" "eof_last hello" "\<not> wasCalled hello_read"
proof -
  show "ingesting hello hello_read"
    unfolding ingesting_def hello_read_def ingestion.simps by (metis prod.collapse)
qed (simp_all add: eof_last_def hello_def hello_read_def)

lemma hello_close:
  "\<exists>r g' t'. ingest_Close no_faults pad_digest \<lparr>quotaLow = 10, quotaHigh = 20\<rparr> 7 hello_read hello_tree = Ret (r, g', t')
     \<and> cl_hash r = Some (body_hash pad_digest ''hello w'')"
proof -
  have "remaining hello = ''hello w''" by code_simp
  moreover have "\<exists>r g' t'. ingest_Close no_faults pad_digest \<lparr>quotaLow = 10, quotaHigh = 20\<rparr> 7 hello_read hello_tree
      = Ret (r, g', t') \<and> cl_hash r = Some (body_hash pad_digest (remaining hello))"
  proof (rule ingest_Close_success [OF hello_ingesting(1,3)])
    show "lastReadErr (tee hello_read) = None" by code_simp
    show "lastWriteErr (tee hello_read) = None" by code_simp
    show "pieces (src (tee hello_read)) = []" by code_simp
    show "int (length (remaining hello)) \<le> go_quot (quotaHigh \<lparr>quotaLow = 10, quotaHigh = 20\<rparr>) 2" by code_simp
    show "2 \<le> length (body_hash pad_digest (remaining hello))" by code_simp
    show "map_of hello_tree (take 2 (body_hash pad_digest (remaining hello))) \<noteq> None" by code_simp
    show "fs_file hello_tree tmpDirName (tmp_name (dest (tee hello_read))) \<noteq> None" by code_simp
  qed (simp add: no_faults_def)
  ultimately show ?thesis by simp
qed

theorem ingestion_roundtrip_witness:
  "\<exists>r g' t' t''. ingest_Close no_faults pad_digest \<lparr>quotaLow = 10, quotaHigh = 20\<rparr> 7 hello_read hello_tree = Ret (r, g', t')
     \<and> fc_Open no_faults 9 t' (body_hash pad_digest ''hello w'') = Ret (Inr (remaining hello), t'')"
proof -
  obtain r g' t' where c: "ingest_Close no_faults pad_digest \<lparr>quotaLow = 10, quotaHigh = 20\<rparr> 7 hello_read hello_tree = Ret (r, g', t')"
    "cl_hash r = Some (body_hash pad_digest ''hello w'')"
    using hello_close by blast
  show ?thesis using c ingestion_roundtrip [OF hello_ingesting c, of 9] by blast
qed

text \<open>
  C14: A body is stored when it should be: if it was read to its end without a read or write
  error, is not larger than half of the high quota and the file system works, closing it
  reports the hash of the body (which by the round trip is then stored).
\<close>

theorem complete_body_is_stored:
  assumes "ingesting s g" "\<not> wasCalled g" "lastReadErr (tee g) = None" "lastWriteErr (tee g) = None"
    and "pieces (src (tee g)) = []" and "int (length (remaining s)) \<le> go_quot (quotaHigh fc) 2"
    and "fc_dirs t" and "length (blake3 (remaining s)) = 32"
    and "fs_file t tmpDirName (tmp_name (dest (tee g))) \<noteq> None"
  shows "\<exists>r g' t'. ingest_Close no_faults blake3 fc now g t = Ret (r, g', t') \<and>
    cl_hash r = Some (body_hash blake3 (remaining s))"
proof (rule ingest_Close_success [OF assms(1-6) _ _ assms(9)])
  show "2 \<le> length (body_hash blake3 (remaining s))" using assms(8) by (simp add: body_hash_def)
  have "take 2 (body_hash blake3 (remaining s)) = hex_byte (of_char (hd (blake3 (remaining s))))"
    using split_body_hash [of blake3 "remaining s", OF assms(8)] by (simp add: split_hash_Ret)
  then show "map_of t (take 2 (body_hash blake3 (remaining s))) \<noteq> None"
    using assms(7) nat_of_char_less_256 unfolding fc_dirs_def by metis
qed (simp add: no_faults_def)

definition hello_store :: fs where
  "hello_store = fs_put empty_store tmpDirName ''tmp1'' \<lparr>content = [], mtime = 0\<rparr>"

theorem complete_body_is_stored_witness:
  "\<exists>r g' t'. ingest_Close no_faults pad_digest \<lparr>quotaLow = 10, quotaHigh = 20\<rparr> 7 hello_read hello_store = Ret (r, g', t')
     \<and> cl_hash r = Some (body_hash pad_digest (remaining hello))"
proof (rule complete_body_is_stored [OF hello_ingesting(1,3)])
  show "lastReadErr (tee hello_read) = None" by code_simp
  show "lastWriteErr (tee hello_read) = None" by code_simp
  show "pieces (src (tee hello_read)) = []" by code_simp
  show "int (length (remaining hello)) \<le> go_quot (quotaHigh \<lparr>quotaLow = 10, quotaHigh = 20\<rparr>) 2" by code_simp
  have "fc_inv pad_digest hello_store" unfolding hello_store_def by (rule fc_inv_put_tmp [OF empty_store_inv])
  then show "fc_dirs hello_store" by (simp add: fc_inv_def)
  show "length (pad_digest (remaining hello)) = 32" by code_simp
  have "tmp_name (dest (tee hello_read)) = ''tmp1''" by code_simp
  then show "fs_file hello_store tmpDirName (tmp_name (dest (tee hello_read))) \<noteq> None" by (simp add: hello_store_def)
qed

text \<open>
  Nothing else is stored: a close that reports no hash leaves every stored body as it was,
  unless the operating system fails to close the file after it was renamed.
\<close>

lemma unreported_close_stores_nothing:
  assumes "ingest_Close F blake3 fc now g t = Ret (r, g', t')" and "cl_hash r = None"
    and "\<And>name. F (OpCloseTemp name) = None"
  shows "blob t' = blob t"
proof (cases "wasCalled g")
  case True
  then show ?thesis using assms(1) by (simp add: ingest_Close_def)
next
  case False
  with assms(1) show ?thesis
  proof (cases rule: ingest_Close_cases)
    case discard
    then show ?thesis by (simp add: discarded_def blob_cleanup)
  next
    case store
    then show ?thesis using assms(2,3) by simp
  qed
qed

text \<open>The example: the same body with the disk full after three bytes.\<close>

definition hello_cut :: ingestion where
  "hello_cut = \<lparr>tee = snd (tee_reads sink_write [4, 4, 4]
     (TeeReader_New hello \<lparr>tmp_name = ''tmp1'', written = [], hashed = [], capacity = Some 3\<rparr>)),
     wasCalled = False\<rparr>"

lemma unreported_close_stores_nothing_witness:
  "\<exists>r g' t'. ingest_Close no_faults pad_digest \<lparr>quotaLow = 10, quotaHigh = 20\<rparr> 7 hello_cut hello_tree = Ret (r, g', t')
     \<and> cl_hash r = None \<and> blob t' = blob hello_tree"
proof -
  let ?c = "ingest_Close no_faults pad_digest \<lparr>quotaLow = 10, quotaHigh = 20\<rparr> 7 hello_cut hello_tree"
  have we: "lastWriteErr (tee hello_cut) = Some (ErrIO ''no space left on device'')" by code_simp
  have wc: "wasCalled hello_cut = False" by (simp add: hello_cut_def)
  have "\<exists>r g' t'. ?c = Ret (r, g', t') \<and> cl_hash r = None"
    using we wc by (simp add: ingest_Close_def TeeReader_Close_def ingest_onClose_def discarded_def)
  then obtain r g' t' where c: "?c = Ret (r, g', t')" "cl_hash r = None" by blast
  show ?thesis
    using c unreported_close_stores_nothing [OF c] by (auto simp: no_faults_def)
qed

text \<open>
  Start up. On the directory of an earlier run or on an empty one, creating the cache
  succeeds when the file system works: every stored body is kept, the temporary files are
  removed, and the invariant holds.
\<close>

lemma new_file_cache_ready:
  assumes "fs_wf t" "addressed blake3 t"
    and "\<And>d. map_of t d \<noteq> None \<Longrightarrow> d = tmpDirName \<or> (\<exists>i < 256. d = hex_byte i)"
  shows "\<exists>t'. NewFileCache no_faults low high t = (Inr \<lparr>quotaLow = low, quotaHigh = high\<rparr>, t') \<and>
    fc_inv blake3 t' \<and> blob t' = blob t \<and> (\<forall>n. fs_file t' tmpDirName n = None)"
  by (rule NewFileCache_inv [OF assms])

lemma new_file_cache_ready_witness:
  "\<exists>t'. NewFileCache no_faults 10 20 hello_tree = (Inr \<lparr>quotaLow = 10, quotaHigh = 20\<rparr>, t') \<and>
    fc_inv pad_digest t' \<and> blob t' = blob hello_tree \<and> (\<forall>n. fs_file t' tmpDirName n = None)"
proof (rule new_file_cache_ready)
  show "fs_wf hello_tree" by (auto simp: hello_tree_def fs_wf_def gm_wf_def tmpDirName_def)
  show "addressed pad_digest hello_tree"
    by (auto simp: hello_tree_def addressed_def fs_file_def split: if_splits option.splits)
  have "''68'' = hex_byte 104" by code_simp
  then have "\<exists>i < 256. ''68'' = hex_byte i" by (intro exI [of _ 104]) simp
  then show "d = tmpDirName \<or> (\<exists>i < 256. d = hex_byte i)" if "map_of hello_tree d \<noteq> None" for d
    using that unfolding hello_tree_def by (auto split: if_splits)
qed

end
