(* ===== verification/Eviction.thy ===== *)
theory Eviction
  imports BlobStore "HOL-Library.Multiset"
begin

text \<open>
  The walks of the file cache on a healthy file system, and its eviction policy: \<open>Prune\<close>
  removes the files that were least recently used, and no more of them than it has to.
\<close>


section \<open>The files that are walked\<close>

definition walk_order :: "fs \<Rightarrow> (string \<times> string) list" where
  "walk_order t = concat (map (\<lambda>d. map (Pair d) (sort (map fst (fs_dir t d))))
                             (filter (\<lambda>d. d \<noteq> tmpDirName) (sort (map fst t))))"

lemma fs_file_dir_map_of: "fs_file t d n = map_of (fs_dir t d) n"
  by (simp add: fs_file_def fs_dir_def split: option.splits)

lemma set_walk_order: "(d, n) \<in> set (walk_order t) \<longleftrightarrow> d \<noteq> tmpDirName \<and> fs_file t d n \<noteq> None"
proof -
  have "n \<in> fst ` set (fs_dir t d) \<Longrightarrow> d \<in> fst ` set t"
    by (cases "map_of t d") (auto simp: fs_dir_def dest: map_of_SomeD intro: rev_image_eqI)
  then show ?thesis
    by (auto simp: walk_order_def fs_file_dir_map_of map_of_eq_None_iff)
qed

lemma distinct_walk_order: "fs_wf t \<Longrightarrow> distinct (walk_order t)"
proof -
  assume wf: "fs_wf t"
  have "distinct (concat (map (\<lambda>d. map (Pair d) (sort (map fst (fs_dir t d)))) ds))"
    if "distinct ds" for ds
    using that fs_wf_dir [OF wf]
    by (induction ds) (auto simp: gm_wf_def distinct_map inj_on_def)
  then show ?thesis using wf by (simp add: walk_order_def fs_wf_def gm_wf_def)
qed

fun fold_err :: "('k \<Rightarrow> 'a \<Rightarrow> 'e + 'a) \<Rightarrow> 'k list \<Rightarrow> 'a \<Rightarrow> 'e + 'a" where
  "fold_err f [] a = Inr a"
| "fold_err f (k # ks) a = (case f k a of Inl e \<Rightarrow> Inl e | Inr a' \<Rightarrow> fold_err f ks a')"

lemma fold_err_append: "fold_err f (ks @ ks') a =
    (case fold_err f ks a of Inl e \<Rightarrow> Inl e | Inr a' \<Rightarrow> fold_err f ks' a')"
  by (induction ks arbitrary: a) (auto split: sum.splits)

lemma walk_files_fold: "walk_files (f d) ns a = fold_err (\<lambda>(d, n). f d n) (map (Pair d) ns) a"
  by (induction ns arbitrary: a) (auto split: sum.splits)

lemma walk_dirs_fold:
  assumes "\<forall>d \<in> set ds. map_of t d \<noteq> None"
  shows "walk_dirs no_faults t f ds a = fold_err (\<lambda>(d, n). f d n)
    (concat (map (\<lambda>d. map (Pair d) (sort (map fst (fs_dir t d)))) (filter (\<lambda>d. d \<noteq> tmpDirName) ds))) a"
  using assms
  by (induction ds arbitrary: a)
    (auto simp: ReadDir_def no_faults_def fs_dir_def walk_files_fold fold_err_append split: sum.splits)

lemma walk_fold: "walk no_faults t f a = fold_err (\<lambda>(d, n). f d n) (walk_order t) a"
  using walk_dirs_fold [of "sort (map fst t)" t f a]
  by (auto simp: walk_def ReadRoot_def no_faults_def walk_order_def map_of_eq_None_iff)

lemma fold_err_fold:
  assumes "\<And>k a. k \<in> set ks \<Longrightarrow> f k a = Inr (g k a)"
  shows "fold_err f ks a = Inr (fold g ks a)"
  using assms by (induction ks arbitrary: a) simp_all

section \<open>Listing and statistics\<close>

lemma GetAllHashes_healthy: "GetAllHashes no_faults t = Inr (map (\<lambda>(d, n). d @ n) (walk_order t))"
proof -
  have "fold (\<lambda>(d, n) hs. hs @ [d @ n]) ks hs = hs @ map (\<lambda>(d, n). d @ n) ks" for ks :: "(string \<times> string) list" and hs
    by (induction ks arbitrary: hs) auto
  moreover have "GetAllHashes no_faults t = Inr (fold (\<lambda>(d, n) hs. hs @ [d @ n]) (walk_order t) [])"
    unfolding GetAllHashes_def walk_fold by (rule fold_err_fold) auto
  ultimately show ?thesis by simp
qed

definition the_file :: "fs \<Rightarrow> string \<times> string \<Rightarrow> disk_file" where
  "the_file t k = (case fs_file t (fst k) (snd k) of None \<Rightarrow> \<lparr>content = [], mtime = 0\<rparr> | Some f \<Rightarrow> f)"

definition usage_of :: "fs \<Rightarrow> (string \<times> string) list \<Rightarrow> int" where
  "usage_of t ks = (\<Sum>k \<leftarrow> ks. file_size (the_file t k))"

definition fc_usage :: "fs \<Rightarrow> int" where
  "fc_usage t = usage_of t (walk_order t)"

lemma os_Info_walked: "(d, n) \<in> set (walk_order t) \<Longrightarrow> os_Info no_faults t d n = Inr (the_file t (d, n))"
  by (auto simp: set_walk_order os_Info_def lookup_call_def no_faults_def the_file_def)

lemma fc_GetStatistics_healthy:
  "fc_GetStatistics no_faults t = Inr (int (length (walk_order t)), fc_usage t)"
proof -
  have "fold (\<lambda>(d, n) (c, s). (c + 1, s + file_size (the_file t (d, n)))) ks (c, s)
      = (c + int (length ks), s + usage_of t ks)" for ks c s
    by (induction ks arbitrary: c s) (auto simp: usage_of_def)
  moreover have "fc_GetStatistics no_faults t =
      Inr (fold (\<lambda>(d, n) (c, s). (c + 1, s + file_size (the_file t (d, n)))) (walk_order t) (0, 0))"
    unfolding fc_GetStatistics_def walk_fold by (rule fold_err_fold) (auto simp: os_Info_walked)
  ultimately show ?thesis by (simp add: fc_usage_def)
qed

section \<open>The eviction order\<close>

definition timestamp_of :: "fs \<Rightarrow> string \<times> string \<Rightarrow> int" where
  "timestamp_of t k = UnixTime (mtime (the_file t k))"

definition group_step :: "fs \<Rightarrow> string \<times> string \<Rightarrow> int \<times> by_timestamp \<Rightarrow> int \<times> by_timestamp" where
  "group_step t k = (\<lambda>(usage, m). (usage + file_size (the_file t k),
     gm_set m (timestamp_of t k) (map_slice (map_of m (timestamp_of t k)) @ [k])))"

lemma group_step_pair: "group_step t k (u, m) = (u + file_size (the_file t k),
    gm_set m (timestamp_of t k) (map_slice (map_of m (timestamp_of t k)) @ [k]))"
  by (simp add: group_step_def)

lemma group_fold:
  assumes "fold (group_step t) ks (u, m) = (u', m')" and "gm_wf m"
  shows "u' = u + usage_of t ks" and "gm_wf m'"
    and "map_slice (map_of m' ts) = map_slice (map_of m ts) @ filter (\<lambda>k. timestamp_of t k = ts) ks"
    and "map_of m' ts \<noteq> None \<longleftrightarrow> map_of m ts \<noteq> None \<or> ts \<in> timestamp_of t ` set ks"
proof -
  have "u' = u + usage_of t ks \<and> gm_wf m' \<and>
    map_slice (map_of m' ts) = map_slice (map_of m ts) @ filter (\<lambda>k. timestamp_of t k = ts) ks \<and>
    (map_of m' ts \<noteq> None \<longleftrightarrow> map_of m ts \<noteq> None \<or> ts \<in> timestamp_of t ` set ks)"
    using assms
  proof (induction ks arbitrary: u m)
    case (Cons k ks)
    let ?m = "gm_set m (timestamp_of t k) (map_slice (map_of m (timestamp_of t k)) @ [k])"
    have "gm_wf ?m" "fold (group_step t) ks (u + file_size (the_file t k), ?m) = (u', m')"
      using Cons.prems by (simp_all add: group_step_pair)
    from Cons.IH [OF this(2,1)] show ?case
      by (auto simp: usage_of_def map_slice_def)
  qed (simp add: usage_of_def)
  then show "u' = u + usage_of t ks" and "gm_wf m'"
    and "map_slice (map_of m' ts) = map_slice (map_of m ts) @ filter (\<lambda>k. timestamp_of t k = ts) ks"
    and "map_of m' ts \<noteq> None \<longleftrightarrow> map_of m ts \<noteq> None \<or> ts \<in> timestamp_of t ` set ks"
    by blast+
qed

lemma getFilesAndTimestamps_healthy:
  "getFilesAndTimestamps no_faults t = Inr (fold (group_step t) (walk_order t) (0, []))"
  unfolding getFilesAndTimestamps_def walk_fold
  by (rule fold_err_fold) (auto simp: os_Info_walked group_step_def timestamp_of_def Let_def)

definition lru_order :: "fs \<Rightarrow> (string \<times> string) list" where
  "lru_order t = sort_key (timestamp_of t) (walk_order t)"

lemma filter_buckets:
  "distinct vs \<Longrightarrow> filter (\<lambda>x. f x = v) (concat (map (\<lambda>w. filter (\<lambda>x. f x = w) xs) vs))
    = (if v \<in> set vs then filter (\<lambda>x. f x = v) xs else [])"
  by (induction vs) (auto simp: filter_empty_conv conj_commute cong: conj_cong)

lemma sorted_buckets:
  "sorted vs \<Longrightarrow> sorted (map f (concat (map (\<lambda>w. filter (\<lambda>x. f x = w) xs) vs)))"
proof (induction vs)
  case (Cons v vs)
  moreover have "sorted (map f (filter (\<lambda>x. f x = v) xs))"
    by (induction xs) auto
  ultimately show ?case by (auto simp: sorted_append)
qed simp

lemma sort_key_buckets:
  assumes "sorted vs" "distinct vs" "f ` set xs \<subseteq> set vs"
  shows "sort_key f xs = concat (map (\<lambda>w. filter (\<lambda>x. f x = w) xs) vs)"
proof (rule properties_for_sort_key)
  let ?ys = "concat (map (\<lambda>w. filter (\<lambda>x. f x = w) xs) vs)"
  have flt: "filter (\<lambda>x. f x = f k) ?ys = filter (\<lambda>x. f x = f k) xs" for k
  proof (cases "f k \<in> set vs")
    case False
    then have "filter (\<lambda>x. f x = f k) xs = []" using assms(3) by (auto simp: filter_empty_conv)
    with False show ?thesis by (simp only: filter_buckets [OF assms(2)] if_False)
  qed (simp only: filter_buckets [OF assms(2)] if_True)
  show "mset ?ys = mset xs"
  proof (rule multiset_eqI)
    fix x
    have "count (mset zs) x = count (mset (filter (\<lambda>y. f y = f x) zs)) x" for zs
      by (simp add: mset_filter)
    then show "count (mset ?ys) x = count (mset xs) x" by (metis flt)
  qed
  show "filter (\<lambda>x. f k = f x) ?ys = filter (\<lambda>x. f k = f x) xs" for k
    using flt [of k] by (simp add: eq_commute)
  show "sorted (map f ?ys)" using assms(1) by (rule sorted_buckets)
qed

text \<open>The scan and the sorted timestamps amount to a stable sort of the files by timestamp.\<close>

lemma eviction_order_lru:
  assumes "getFilesAndTimestamps no_faults t = Inr (usage, m)"
  shows "usage = fc_usage t" and "eviction_order m = map (\<lambda>k. (timestamp_of t k, k)) (lru_order t)"
proof -
  have f: "fold (group_step t) (walk_order t) (0, []) = (usage, m)"
    using assms by (simp add: getFilesAndTimestamps_healthy)
  note g = group_fold [OF f, simplified]
  show "usage = fc_usage t" using g(1) by (simp add: fc_usage_def)
  have keys: "fst ` set m = timestamp_of t ` set (walk_order t)"
    using g(4) unfolding dom_map_of_conv_image_fst [symmetric] by (simp add: set_eq_iff domIff)
  have "map_slice (map_of m ts) = filter (\<lambda>k. timestamp_of t k = ts) (walk_order t)" for ts
    using g(3) [of ts] by (simp add: map_slice_def)
  then have "eviction_order m = concat (map (\<lambda>ts. map (\<lambda>k. (timestamp_of t k, k))
      (filter (\<lambda>k. timestamp_of t k = ts) (walk_order t))) (sort (map fst m)))"
    unfolding eviction_order_def by (intro arg_cong [where f = concat] map_cong) auto
  also have "\<dots> = map (\<lambda>k. (timestamp_of t k, k)) (lru_order t)"
    using g(2) keys unfolding lru_order_def
    by (subst sort_key_buckets [of "sort (map fst m)"]) (auto simp: gm_wf_def map_concat o_def)
  finally show "eviction_order m = map (\<lambda>k. (timestamp_of t k, k)) (lru_order t)" .
qed

section \<open>The eviction loop\<close>

definition remove_files :: "(string \<times> string) list \<Rightarrow> fs \<Rightarrow> fs" where
  "remove_files ks t = fold (\<lambda>(d, n) t. fs_remove t d n) ks t"

lemma fs_file_remove_files:
  "fs_file (remove_files ks t) d n = (if (d, n) \<in> set ks then None else fs_file t d n)"
  by (induction ks arbitrary: t) (auto simp: remove_files_def split: if_splits)

lemma evict_prefix:
  assumes "distinct ks" and "\<forall>(d, n) \<in> set ks. fs_file t d n = fs_file t0 d n \<and> fs_file t d n \<noteq> None"
  shows "\<exists>k \<le> length ks.
    evict no_faults (\<lambda>_ t. t) low i (map (\<lambda>k. (timestamp_of t0 k, k)) ks) t usage removed
      = Ret (removed + int k, remove_files (take k ks) t) \<and>
    (k = length ks \<or> usage - usage_of t0 (take k ks) \<le> low) \<and>
    (\<forall>j < k. low < usage - usage_of t0 (take j ks))"
  using assms
proof (induction ks arbitrary: i t usage removed)
  case Nil
  then show ?case by (simp add: remove_files_def)
next
  case (Cons x ks)
  obtain d n where x: "x = (d, n)" by (cases x)
  show ?case
  proof (cases "usage \<le> low")
    case True
    then show ?thesis using x by (intro exI [of _ 0]) (simp add: remove_files_def usage_of_def)
  next
    case False
    let ?f = "the_file t0 x"
    have "fs_file t d n = fs_file t0 d n" "fs_file t d n \<noteq> None" using Cons.prems(2) unfolding x by fastforce+
    then have f: "fs_file t d n = Some ?f" by (cases "fs_file t0 d n") (simp_all add: the_file_def x)
    have "\<forall>(d', n') \<in> set ks. fs_file (fs_remove t d n) d' n' = fs_file t0 d' n' \<and>
        fs_file (fs_remove t d n) d' n' \<noteq> None"
      using Cons.prems x by auto
    then obtain k where k: "k \<le> length ks"
      "evict no_faults (\<lambda>_ t. t) low (Suc i) (map (\<lambda>k. (timestamp_of t0 k, k)) ks) (fs_remove t d n)
          (usage - file_size ?f) (removed + 1)
        = Ret (removed + 1 + int k, remove_files (take k ks) (fs_remove t d n))"
      "k = length ks \<or> usage - file_size ?f - usage_of t0 (take k ks) \<le> low"
      "\<forall>j < k. low < usage - file_size ?f - usage_of t0 (take j ks)"
      using Cons.IH [of "fs_remove t d n"] Cons.prems(1) by (meson distinct.simps(2))
    have "low < usage - usage_of t0 (take j (x # ks))" if "j < Suc k" for j
      using that False k(4) by (cases j) (auto simp: usage_of_def)
    moreover have "evict no_faults (\<lambda>_ t. t) low i (map (\<lambda>k. (timestamp_of t0 k, k)) (x # ks)) t usage removed
        = Ret (removed + int (Suc k), remove_files (take (Suc k) (x # ks)) t)"
      using False f k(2) x
      by (simp add: os_Stat_def os_Remove_def lookup_call_def no_faults_def timestamp_of_def remove_files_def)
    ultimately show ?thesis
      using k(1,3) by (intro exI [of _ "Suc k"]) (auto simp: usage_of_def)
  qed
qed

lemma lru_order_props:
  "set (lru_order t) = set (walk_order t)" "length (lru_order t) = length (walk_order t)"
  "fs_wf t \<Longrightarrow> distinct (lru_order t)" "sorted (map (timestamp_of t) (lru_order t))"
  by (simp_all add: lru_order_def distinct_walk_order)

lemma fs_wf_remove_files: "fs_wf t \<Longrightarrow> fs_wf (remove_files ks t)"
  by (induction ks arbitrary: t) (auto simp: remove_files_def)

lemma set_walk_order_remove:
  "set (walk_order (remove_files ks t)) = set (walk_order t) - set ks"
  by (auto simp: set_walk_order fs_file_remove_files split: if_splits)

lemma fc_usage_remove_files:
  assumes "fs_wf t" "distinct ks" "set ks \<subseteq> set (walk_order t)"
  shows "fc_usage (remove_files ks t) = fc_usage t - usage_of t ks"
proof -
  let ?s = "\<lambda>k. file_size (the_file t k)"
  have "the_file (remove_files ks t) k = the_file t k" if "k \<notin> set ks" for k
    using that by (cases k) (simp add: the_file_def fs_file_remove_files)
  then have "fc_usage (remove_files ks t) = sum ?s (set (walk_order t) - set ks)"
    using distinct_walk_order [OF fs_wf_remove_files [OF assms(1)], of ks]
    by (simp add: fc_usage_def usage_of_def sum_list_distinct_conv_sum_set set_walk_order_remove)
  then show ?thesis
    using assms distinct_walk_order [OF assms(1)]
    by (simp add: fc_usage_def usage_of_def sum_list_distinct_conv_sum_set sum_diff)
qed

text \<open>
  Pruning a cache above its high quota evicts the shortest prefix of the files in order of
  their last use that brings it down to the low quota.
\<close>

lemma Prune_prefix:
  assumes "fs_wf t" and "quotaHigh fc \<le> fc_usage t"
  shows "\<exists>k \<le> length (walk_order t).
    Prune no_faults (\<lambda>_ t. t) fc t = Ret (Inr (int k), remove_files (take k (lru_order t)) t) \<and>
    (k = length (walk_order t) \<or> fc_usage t - usage_of t (take k (lru_order t)) \<le> quotaLow fc) \<and>
    (\<forall>j < k. quotaLow fc < fc_usage t - usage_of t (take j (lru_order t)))"
proof -
  obtain usage m where g: "getFilesAndTimestamps no_faults t = Inr (usage, m)"
    unfolding getFilesAndTimestamps_healthy by (metis surj_pair)
  have "\<forall>(d, n) \<in> set (lru_order t). fs_file t d n = fs_file t d n \<and> fs_file t d n \<noteq> None"
    using lru_order_props(1) set_walk_order by auto
  from evict_prefix [OF lru_order_props(3) [OF assms(1)] this,
      of "quotaLow fc" 0 "fc_usage t" 0]
  show ?thesis
    using assms(2) g eviction_order_lru [OF g] lru_order_props(2) by (auto simp: Prune_def)
qed

lemma sorted_take_drop:
  "sorted (map f xs) \<Longrightarrow> x \<in> set (take k xs) \<Longrightarrow> y \<in> set (drop k xs) \<Longrightarrow> f x \<le> f y"
  using sorted_append [of "map f (take k xs)" "map f (drop k xs)"]
  unfolding map_append [symmetric] append_take_drop_id by simp


text \<open>
  A file that is used between the scan of the cache and its turn in the eviction loop is
  kept, whatever faults occur and whatever else other goroutines do: if from the first
  iteration on the file is \<open>f\<close>, with a time that differs from the one that was scanned, then it
  is still there after the loop.
\<close>

lemma evict_keeps_used:
  assumes "evict F other low i files t usage removed = Ret (r, t')"
    and "\<And>i t. fs_file t d n \<noteq> None \<Longrightarrow> fs_file (other i t) d n = Some f"
    and "fs_file t d n \<noteq> None" and "(UnixTime (mtime f), d, n) \<notin> set files"
  shows "fs_file t' d n \<noteq> None"
  using assms
proof (induction F other low i files t usage removed rule: evict.induct)
  case (2 F other low i ts d' n' files t usage removed)
  have o: "fs_file (other i t) d n = Some f" using 2 by blast
  show ?case
  proof (cases "usage \<le> low")
    case True
    with "2.prems" show ?thesis by simp
  next
    case False
    then obtain f' where f': "os_Stat F (other i t) d' n' = Inr f'"
      using "2.prems"(1) by (cases "os_Stat F (other i t) d' n'") auto
    then have "fs_file (other i t) d' n' = Some f'" by (auto simp: os_Stat_def dest: lookup_call_Inr)
    then have ne: "UnixTime (mtime f') = ts \<Longrightarrow> (d', n') \<noteq> (d, n)" using o "2.prems"(4) by auto
    show ?thesis
    proof (cases "UnixTime (mtime f') \<noteq> ts")
      case True
      then show ?thesis
        using "2.IH"(1) [OF False f'] "2.prems" False f' o by auto
    next
      case ts: False
      show ?thesis
      proof (cases "os_Remove F (other i t) d' n'")
        case (Inl e)
        then show ?thesis using "2.IH"(2) [OF False f' ts] "2.prems" False f' ts o by auto
      next
        case (Inr t'')
        then have "fs_file t'' d n = Some f"
          using o ne ts by (auto simp: os_Remove_def split: sum.splits)
        then show ?thesis using "2.IH"(3) [OF False f' ts Inr] "2.prems" False f' ts Inr by auto
      qed
    qed
  qed
qed simp

text \<open>Pruning keeps the invariant of the store if the other goroutines do.\<close>

lemma fc_inv_evict:
  assumes "evict F other low i files t usage removed = Ret (r, t')"
    and "\<And>i t. fc_inv blake3 t \<Longrightarrow> fc_inv blake3 (other i t)" and "fc_inv blake3 t"
  shows "fc_inv blake3 t'"
  using assms
  by (induction F other low i files t usage removed rule: evict.induct)
    (auto simp: os_Remove_def fc_inv_remove split: if_splits sum.splits)

lemma fc_inv_Prune:
  "Prune F other fc t = Ret (r, t') \<Longrightarrow> (\<And>i t. fc_inv blake3 t \<Longrightarrow> fc_inv blake3 (other i t)) \<Longrightarrow>
   fc_inv blake3 t \<Longrightarrow> fc_inv blake3 t'"
  by (auto simp: Prune_def split: sum.splits prod.splits if_splits go.splits intro: fc_inv_evict)

text \<open>
  A file of the scan that another goroutine removes before its turn in the loop makes \<open>Prune\<close>
  panic: the error of \<open>os.Stat\<close> is logged, and the missing file info is used nevertheless.
\<close>

lemma Prune_vanished_panics:
  assumes "quotaHigh fc \<le> fc_usage t" "quotaLow fc < fc_usage t" "lru_order t = (d, n) # ks"
    and "fs_file (other 0 t) d n = None"
  shows "panics (Prune no_faults other fc t)"
proof -
  obtain usage m where g: "getFilesAndTimestamps no_faults t = Inr (usage, m)"
    unfolding getFilesAndTimestamps_healthy by (metis surj_pair)
  show ?thesis
    using assms g eviction_order_lru [OF g]
    by (simp add: Prune_def os_Stat_def lookup_call_def no_faults_def)
qed

section \<open>Examples\<close>

definition two_files :: fs where
  "two_files = [(tmpDirName, []), (''61'', [(''x'', \<lparr>content = ''old one'', mtime = 5 * Second\<rparr>),
     (''y'', \<lparr>content = ''new'', mtime = 9 * Second\<rparr>)])]"

definition small_cache :: FileCache where
  "small_cache = \<lparr>quotaLow = 4, quotaHigh = 8\<rparr>"

lemma two_files_wf: "fs_wf two_files"
  by (auto simp: two_files_def fs_wf_def gm_wf_def tmpDirName_def)


text \<open>Another goroutine uses the older file before its turn: the newer one goes.\<close>

definition use_x :: "nat \<Rightarrow> fs \<Rightarrow> fs" where
  "use_x i t = fs_put t ''61'' ''x'' \<lparr>content = ''old one'', mtime = 12 * Second\<rparr>"

lemma evict_keeps_used_witness:
  "\<exists>r t'. evict no_faults use_x 4 0 [(UnixTime (5 * Second), ''61'', ''x''), (UnixTime (9 * Second), ''61'', ''y'')]
     two_files 10 0 = Ret (r, t') \<and> fs_file t' ''61'' ''x'' \<noteq> None"
proof -
  let ?fs = "[(UnixTime (5 * Second), ''61'', ''x''), (UnixTime (9 * Second), ''61'', ''y'')]"
  have "\<not> panics (evict no_faults use_x 4 0 ?fs two_files 10 0)" by code_simp
  then obtain r t' where e: "evict no_faults use_x 4 0 ?fs two_files 10 0 = Ret (r, t')"
    by (cases "evict no_faults use_x 4 0 ?fs two_files 10 0") auto
  have "fs_file t' ''61'' ''x'' \<noteq> None"
  proof (rule evict_keeps_used [OF e, of _ _ "\<lparr>content = ''old one'', mtime = 12 * Second\<rparr>"])
    show "fs_file two_files ''61'' ''x'' \<noteq> None" by code_simp
    show "(UnixTime (mtime \<lparr>content = ''old one'', mtime = 12 * Second\<rparr>), ''61'', ''x'') \<notin> set ?fs" by code_simp
  qed (simp add: use_x_def)
  with e show ?thesis by blast
qed

definition remove_x :: "nat \<Rightarrow> fs \<Rightarrow> fs" where
  "remove_x i t = fs_remove t ''61'' ''x''"

lemma Prune_vanished_panics_witness: "panics (Prune no_faults remove_x small_cache two_files)"
proof (rule Prune_vanished_panics)
  show "quotaHigh small_cache \<le> fc_usage two_files" by code_simp
  show "quotaLow small_cache < fc_usage two_files" by code_simp
  show "lru_order two_files = (''61'', ''x'') # [(''61'', ''y'')]" by code_simp
  show "fs_file (remove_x 0 two_files) ''61'' ''x'' = None" by (simp add: remove_x_def)
qed

end
