(* ===== verification/Database.thy ===== *)
theory Database
  imports Prelude
begin

text \<open>
  \<^verbatim>\<open>internal/database/database.go\<close>: the typed key-value database with optimistic concurrency on
  top of badger.

  Badger and the generated msgp codec are arguments of the operations. The record \<open>badger\<close> has
  the calls the source makes: a transaction is one atomic call on the store, which fails
  without an effect or commits. Versions are badger's commit timestamps, natural numbers here:
  the code compares them, and uses 0 for an entry that was never stored.
\<close>

section \<open>Badger\<close>

datatype kv_error = KvKeyNotFound | KvNoRewrite | KvFailure string

record item =
  item_value :: "kv_error + string"  \<comment> \<open>what \<open>item.Value\<close> hands to its callback\<close>
  item_version :: nat

record kv =
  kv_Key :: string
  kv_Value :: string
  kv_Version :: nat

record 's badger =
  kv_open :: "string \<Rightarrow> kv_error + 's"
  kv_close :: "'s \<Rightarrow> kv_error option \<times> 's"
  kv_get :: "'s \<Rightarrow> string \<Rightarrow> kv_error + item"
  kv_set :: "'s \<Rightarrow> string \<Rightarrow> string \<Rightarrow> kv_error + 's"
  kv_delete :: "'s \<Rightarrow> string \<Rightarrow> kv_error + 's"
  kv_sizes :: "'s \<Rightarrow> kv_error + int list"  \<comment> \<open>the estimated sizes along the iterator\<close>
  kv_stream :: "'s \<Rightarrow> kv list \<times> kv_error option"  \<comment> \<open>what is sent, and how the stream ends\<close>
  kv_gc :: "'s \<Rightarrow> kv_error option \<times> 's"

text \<open>
  The codec generated for the value type: \<open>UnmarshalMsg\<close> decodes into a value that exists, which
  it may leave partly overwritten when it fails.
\<close>

record 'v codec =
  MarshalMsg :: "'v \<Rightarrow> string + string"
  UnmarshalMsg :: "string \<Rightarrow> 'v \<Rightarrow> 'v \<times> string option"

section \<open>Operations\<close>

record 'v Entry =
  Value :: 'v
  version :: nat

datatype db_error = ErrKeyNotFound | ErrConflict | ErrFormat string | ErrStore kv_error

definition NewDatabase :: "'s badger \<Rightarrow> string \<Rightarrow> db_error + 's" where
  "NewDatabase B path = (case kv_open B path of Inl e \<Rightarrow> Inl (ErrStore e) | Inr s \<Rightarrow> Inr s)"

definition db_Close :: "'s badger \<Rightarrow> 's \<Rightarrow> db_error option \<times> 's" where
  "db_Close B s = (case kv_close B s of (e, s') \<Rightarrow> (map_option ErrStore e, s'))"

definition unmarshal :: "'v codec \<Rightarrow> string \<Rightarrow> 'v \<Rightarrow> 'v \<times> db_error option" where
  "unmarshal C val v = (case UnmarshalMsg C val v of (v', e) \<Rightarrow> (v', map_option ErrFormat e))"

text \<open>\<open>errors.Is(err, ErrKeyNotFound)\<close> on the wrapped errors of a transaction.\<close>

definition load_error :: "kv_error \<Rightarrow> db_error" where
  "load_error e = (if e = KvKeyNotFound then ErrKeyNotFound else ErrStore e)"

definition db_Get ::
    "'s badger \<Rightarrow> 'v codec \<Rightarrow> 's \<Rightarrow> string \<Rightarrow> 'v Entry \<Rightarrow> db_error option \<times> 'v Entry" where
  "db_Get B C s key entry =
     (case kv_get B s key of
        Inl e \<Rightarrow> (Some (load_error e), if e = KvKeyNotFound then entry\<lparr>version := 0\<rparr> else entry)
      | Inr it \<Rightarrow>
          (case item_value it of
             Inl e \<Rightarrow> (Some (load_error e), entry)
           | Inr val \<Rightarrow>
               (case unmarshal C val (Value entry) of
                  (v, e) \<Rightarrow> (e, \<lparr>Value = v, version = item_version it\<rparr>))))"

definition db_Save ::
    "'s badger \<Rightarrow> 'v codec \<Rightarrow> 's \<Rightarrow> string \<Rightarrow> 'v Entry \<Rightarrow> db_error + 's" where
  "db_Save B C s key entry =
     (case MarshalMsg C (Value entry) of
        Inl e \<Rightarrow> Inl (ErrFormat e)
      | Inr data \<Rightarrow>
          (case kv_get B s key of
             Inl e \<Rightarrow>
               if e \<noteq> KvKeyNotFound then Inl (ErrStore e)
               else (case kv_set B s key data of Inl e' \<Rightarrow> Inl (ErrStore e') | Inr s' \<Rightarrow> Inr s')
           | Inr it \<Rightarrow>
               if item_version it \<noteq> version entry then Inl ErrConflict
               else (case kv_set B s key data of Inl e' \<Rightarrow> Inl (ErrStore e') | Inr s' \<Rightarrow> Inr s')))"

definition db_New :: "'s badger \<Rightarrow> 'v codec \<Rightarrow> 's \<Rightarrow> string \<Rightarrow> 'v \<Rightarrow> db_error + 's" where
  "db_New B C s key v = db_Save B C s key \<lparr>Value = v, version = 0\<rparr>"

definition db_Delete :: "'s badger \<Rightarrow> 's \<Rightarrow> string \<Rightarrow> 'v Entry \<Rightarrow> db_error + 's" where
  "db_Delete B s key entry =
     (case kv_get B s key of
        Inl e \<Rightarrow> if e = KvKeyNotFound then Inr s else Inl (ErrStore e)
      | Inr it \<Rightarrow>
          if item_version it \<noteq> version entry then Inl ErrConflict
          else (case kv_delete B s key of Inl e \<Rightarrow> Inl (ErrStore e) | Inr s' \<Rightarrow> Inr s'))"

text \<open>The counters are \<open>int64\<close>.\<close>

definition db_GetStatistics :: "'s badger \<Rightarrow> 's \<Rightarrow> db_error + int \<times> int" where
  "db_GetStatistics B s =
     (case kv_sizes B s of
        Inl e \<Rightarrow> Inl (ErrStore e)
      | Inr ns \<Rightarrow> Inr (fold (\<lambda>n (count, size). (wrap64 (count + 1), wrap64 (size + n))) ns (0, 0)))"

text \<open>
  \<open>Iterate\<close> over a snapshot of the store. The callback threads a state of its own, which may
  hold the store; \<open>zero\<close> is the zero value that every item is decoded into.
\<close>

datatype 'e iter_error = IterDb db_error | IterApply 'e

fun send :: "'v codec \<Rightarrow> 'v \<Rightarrow> (string \<Rightarrow> 'v Entry \<Rightarrow> 'a \<Rightarrow> 'e option \<times> 'a) \<Rightarrow> kv list \<Rightarrow> 'a
    \<Rightarrow> 'e iter_error option \<times> 'a" where
  "send C zero apply_fn [] a = (None, a)"
| "send C zero apply_fn (x # xs) a =
     (case unmarshal C (kv_Value x) zero of
        (v, Some e) \<Rightarrow> (Some (IterDb e), a)
      | (v, None) \<Rightarrow>
          (case apply_fn (kv_Key x) \<lparr>Value = v, version = kv_Version x\<rparr> a of
             (Some e, a') \<Rightarrow> (Some (IterApply e), a')
           | (None, a') \<Rightarrow> send C zero apply_fn xs a'))"

definition db_Iterate ::
    "'s badger \<Rightarrow> 'v codec \<Rightarrow> 'v \<Rightarrow> (string \<Rightarrow> 'v Entry \<Rightarrow> 'a \<Rightarrow> 'e option \<times> 'a) \<Rightarrow> 's \<Rightarrow> 'a
     \<Rightarrow> 'e iter_error option \<times> 'a" where
  "db_Iterate B C zero apply_fn s a =
     (case kv_stream B s of
        (kvs, fin) \<Rightarrow>
          (case send C zero apply_fn kvs a of
             (Some e, a') \<Rightarrow> (Some e, a')
           | (None, a') \<Rightarrow> (map_option (\<lambda>e. IterDb (ErrStore e)) fin, a')))"

definition RunGarbageCollector :: "'s badger \<Rightarrow> 's \<Rightarrow> kv_error option \<times> 's" where
  "RunGarbageCollector B s = kv_gc B s"

section \<open>What the code relies on\<close>

text \<open>
  Badger's contract, for the states \<open>ok\<close> that its calls lead to. \<open>clock s\<close> is the timestamp of the
  last commit: a committed write has a later version than everything before it. Reads see what
  was committed, writes and deletions touch their own key only, the stream delivers what is
  stored, and garbage collection changes nothing that is visible.
\<close>

locale badger =
  fixes B :: "'s badger" and ok :: "'s \<Rightarrow> bool" and clock :: "'s \<Rightarrow> nat"
  assumes get_version: "ok s \<Longrightarrow> kv_get B s k = Inr it \<Longrightarrow> 0 < item_version it \<and> item_version it \<le> clock s"
    and set_ok: "ok s \<Longrightarrow> kv_set B s k v = Inr s' \<Longrightarrow> ok s' \<and> clock s \<le> clock s'"
    and set_get: "ok s \<Longrightarrow> kv_set B s k v = Inr s' \<Longrightarrow>
      \<exists>n. kv_get B s' k = Inr \<lparr>item_value = Inr v, item_version = n\<rparr> \<and> clock s < n"
    and set_get_other: "ok s \<Longrightarrow> kv_set B s k v = Inr s' \<Longrightarrow> k' \<noteq> k \<Longrightarrow> kv_get B s' k' = kv_get B s k'"
    and delete_ok: "ok s \<Longrightarrow> kv_delete B s k = Inr s' \<Longrightarrow> ok s' \<and> clock s \<le> clock s'"
    and delete_get: "ok s \<Longrightarrow> kv_delete B s k = Inr s' \<Longrightarrow> kv_get B s' k = Inl KvKeyNotFound"
    and delete_get_other: "ok s \<Longrightarrow> kv_delete B s k = Inr s' \<Longrightarrow> k' \<noteq> k \<Longrightarrow> kv_get B s' k' = kv_get B s k'"
    and gc_ok: "ok s \<Longrightarrow> ok (snd (kv_gc B s))"
    and gc_get: "ok s \<Longrightarrow> kv_get B (snd (kv_gc B s)) k = kv_get B s k"
    and stream_get: "ok s \<Longrightarrow> x \<in> set (fst (kv_stream B s)) \<Longrightarrow>
      kv_get B s (kv_Key x) = Inr \<lparr>item_value = Inr (kv_Value x), item_version = kv_Version x\<rparr>"
    and stream_distinct: "ok s \<Longrightarrow> distinct (map kv_Key (fst (kv_stream B s)))"
    and stream_complete: "ok s \<Longrightarrow> snd (kv_stream B s) = None \<Longrightarrow> kv_get B s k = Inr it \<Longrightarrow>
      k \<in> kv_Key ` set (fst (kv_stream B s))"

text \<open>The codec's: a value that was encoded decodes, whatever the target held, up to \<open>norm\<close>.\<close>

definition codec_ok :: "'v codec \<Rightarrow> ('v \<Rightarrow> 'v) \<Rightarrow> bool" where
  "codec_ok C norm \<longleftrightarrow> (\<forall>v b old. MarshalMsg C v = Inr b \<longrightarrow> UnmarshalMsg C b old = (norm v, None))"

lemma unmarshal_marshal:
  "codec_ok C norm \<Longrightarrow> MarshalMsg C v = Inr b \<Longrightarrow> unmarshal C b old = (norm v, None)"
  by (simp add: codec_ok_def unmarshal_def)

section \<open>A versioned store\<close>

text \<open>
  The contract the database offers to its clients. \<open>versions s k\<close> is the version under which a
  key is stored; \<open>write_at\<close> and \<open>erase_at\<close> are the attempts to update and to remove an entry that
  was read at a version (0 when it was absent), \<open>None\<close> a refused attempt.
\<close>

definition vs_step :: "('s \<Rightarrow> string \<Rightarrow> nat \<Rightarrow> 'v \<Rightarrow> 's option) \<Rightarrow> ('s \<Rightarrow> string \<Rightarrow> nat \<Rightarrow> 's option) \<Rightarrow> 's \<Rightarrow> 's \<Rightarrow> bool" where
  "vs_step write_at erase_at s s' \<longleftrightarrow>
     (\<exists>k n v. write_at s k n v = Some s') \<or> (\<exists>k n. erase_at s k n = Some s')"

locale versioned_store =
  fixes ok :: "'s \<Rightarrow> bool"
    and versions :: "'s \<Rightarrow> string \<Rightarrow> nat option"
    and write_at :: "'s \<Rightarrow> string \<Rightarrow> nat \<Rightarrow> 'v \<Rightarrow> 's option"
    and erase_at :: "'s \<Rightarrow> string \<Rightarrow> nat \<Rightarrow> 's option"
    and latest :: "'s \<Rightarrow> nat"
  assumes version_latest: "ok s \<Longrightarrow> versions s k = Some n \<Longrightarrow> 0 < n \<and> n \<le> latest s"
    and write_ok: "ok s \<Longrightarrow> write_at s k n v = Some s' \<Longrightarrow> ok s' \<and> latest s \<le> latest s'"
    and write_guard: "ok s \<Longrightarrow> write_at s k n v = Some s' \<Longrightarrow> versions s k = None \<or> versions s k = Some n"
    and write_version: "ok s \<Longrightarrow> write_at s k n v = Some s' \<Longrightarrow> \<exists>m. versions s' k = Some m \<and> latest s < m"
    and write_other: "ok s \<Longrightarrow> write_at s k n v = Some s' \<Longrightarrow> k' \<noteq> k \<Longrightarrow> versions s' k' = versions s k'"
    and erase_ok: "ok s \<Longrightarrow> erase_at s k n = Some s' \<Longrightarrow> ok s' \<and> latest s \<le> latest s'"
    and erase_guard: "ok s \<Longrightarrow> erase_at s k n = Some s' \<Longrightarrow> versions s k = None \<or> versions s k = Some n"
    and erase_version: "ok s \<Longrightarrow> erase_at s k n = Some s' \<Longrightarrow> versions s' k = None"
    and erase_other: "ok s \<Longrightarrow> erase_at s k n = Some s' \<Longrightarrow> k' \<noteq> k \<Longrightarrow> versions s' k' = versions s k'"
begin

lemma step_ok: "ok s \<Longrightarrow> vs_step write_at erase_at s s' \<Longrightarrow> ok s' \<and> latest s \<le> latest s'"
  unfolding vs_step_def using write_ok erase_ok by blast

lemma step_version:
  assumes "ok s" "vs_step write_at erase_at s s'"
  shows "versions s' k = versions s k \<or> versions s' k = None \<or> (\<exists>m. versions s' k = Some m \<and> latest s < m)"
  using assms unfolding vs_step_def
  by (metis write_version write_other erase_version erase_other)

text \<open>Along any history a key keeps its version, loses it, or gets one never seen before.\<close>

lemma history:
  assumes "(vs_step write_at erase_at)\<^sup>*\<^sup>* s s'" "ok s"
  shows "ok s' \<and> latest s \<le> latest s' \<and>
    (versions s' k = versions s k \<or> versions s' k = None \<or> (\<exists>m. versions s' k = Some m \<and> latest s < m))"
  using assms(1)
proof (induction rule: rtranclp_induct)
  case base
  then show ?case using assms(2) by simp
next
  case (step y z)
  then show ?case
    using step_version [OF _ step(2), of k] step_ok [OF _ step(2)] by fastforce
qed

text \<open>
  The version that a write replaced never comes back. So of two writers that read the same
  entry only the first succeeds, unless the key was removed in between.
\<close>

lemma superseded:
  assumes "ok s" "versions s k = Some n" "write_at s k n v = Some s1" "(vs_step write_at erase_at)\<^sup>*\<^sup>* s1 s2"
  shows "versions s2 k \<noteq> Some n"
proof
  assume "versions s2 k = Some n"
  moreover obtain m where m: "versions s1 k = Some m" "latest s < m"
    using write_version [OF assms(1,3)] by blast
  moreover have "n \<le> latest s" "latest s \<le> latest s1" "ok s1"
    using version_latest assms(1,2) write_ok [OF assms(1,3)] by blast+
  ultimately show False using history [OF assms(4), of k] by auto
qed

lemma second_writer_refused:
  assumes "ok s" "versions s k = Some n" "write_at s k n v = Some s1" "(vs_step write_at erase_at)\<^sup>*\<^sup>* s1 s2"
    and "versions s2 k \<noteq> None"
  shows "write_at s2 k n v' = None" and "erase_at s2 k n = None"
proof -
  have "ok s2" using write_ok [OF assms(1,3)] history [OF assms(4)] by blast
  then show "write_at s2 k n v' = None" and "erase_at s2 k n = None"
    using superseded [OF assms(1-4)] assms(5) write_guard erase_guard by fastforce+
qed

end

section \<open>The database is a versioned store\<close>

definition db_version :: "'s badger \<Rightarrow> 's \<Rightarrow> string \<Rightarrow> nat option" where
  "db_version B s k = (case kv_get B s k of Inl e \<Rightarrow> None | Inr it \<Rightarrow> Some (item_version it))"

definition save_at :: "'s badger \<Rightarrow> 'v codec \<Rightarrow> 's \<Rightarrow> string \<Rightarrow> nat \<Rightarrow> 'v \<Rightarrow> 's option" where
  "save_at B C s k n v =
     (case db_Save B C s k \<lparr>Value = v, version = n\<rparr> of Inl e \<Rightarrow> None | Inr s' \<Rightarrow> Some s')"

definition delete_at :: "'s badger \<Rightarrow> 'v \<Rightarrow> 's \<Rightarrow> string \<Rightarrow> nat \<Rightarrow> 's option" where
  "delete_at B v s k n =
     (case db_Delete B s k \<lparr>Value = v, version = n\<rparr> of Inl e \<Rightarrow> None | Inr s' \<Rightarrow> Some s')"

lemma db_Save_Inr:
  "db_Save B C s k e = Inr s' \<longleftrightarrow>
   (\<exists>data. MarshalMsg C (Value e) = Inr data \<and> kv_set B s k data = Inr s' \<and>
      (kv_get B s k = Inl KvKeyNotFound \<or> (\<exists>it. kv_get B s k = Inr it \<and> item_version it = version e)))"
  by (auto simp: db_Save_def split: sum.splits if_splits)

lemma db_Delete_Inr:
  "db_Delete B s k e = Inr s' \<longleftrightarrow>
   (kv_get B s k = Inl KvKeyNotFound \<and> s' = s \<or>
    (\<exists>it. kv_get B s k = Inr it \<and> item_version it = version e \<and> kv_delete B s k = Inr s'))"
  by (auto simp: db_Delete_def split: sum.splits if_splits)

lemma save_at_Some: "save_at B C s k n v = Some s' \<longleftrightarrow> db_Save B C s k \<lparr>Value = v, version = n\<rparr> = Inr s'"
  by (auto simp: save_at_def split: sum.splits)

lemma delete_at_Some: "delete_at B v s k n = Some s' \<longleftrightarrow> db_Delete B s k \<lparr>Value = v, version = n\<rparr> = Inr s'"
  by (auto simp: delete_at_def split: sum.splits)

context badger
begin

lemma db_Save_version:
  "ok s \<Longrightarrow> db_Save B C s k e = Inr s' \<Longrightarrow> \<exists>m. db_version B s' k = Some m \<and> clock s < m"
  using set_get by (fastforce simp: db_Save_Inr db_version_def)

lemma db_Save_ok: "ok s \<Longrightarrow> db_Save B C s k e = Inr s' \<Longrightarrow> ok s' \<and> clock s \<le> clock s'"
  using set_ok by (auto simp: db_Save_Inr)

lemma db_Save_other: "ok s \<Longrightarrow> db_Save B C s k e = Inr s' \<Longrightarrow> k' \<noteq> k \<Longrightarrow> kv_get B s' k' = kv_get B s k'"
  by (auto simp: db_Save_Inr set_get_other)

lemma db_Delete_ok: "ok s \<Longrightarrow> db_Delete B s k e = Inr s' \<Longrightarrow> ok s' \<and> clock s \<le> clock s'"
  using delete_ok by (auto simp: db_Delete_Inr)

lemma db_Delete_other: "ok s \<Longrightarrow> db_Delete B s k e = Inr s' \<Longrightarrow> k' \<noteq> k \<Longrightarrow> kv_get B s' k' = kv_get B s k'"
  by (auto simp: db_Delete_Inr delete_get_other)

lemma db_Delete_get: "ok s \<Longrightarrow> db_Delete B s k e = Inr s' \<Longrightarrow> kv_get B s' k = Inl KvKeyNotFound"
  by (auto simp: db_Delete_Inr delete_get)

lemma db_Save_Get:
  assumes "ok s" "codec_ok C norm" "db_Save B C s k e = Inr s'"
  shows "\<exists>m. db_Get B C s' k old = (None, \<lparr>Value = norm (Value e), version = m\<rparr>) \<and> clock s < m"
proof -
  obtain data where d: "MarshalMsg C (Value e) = Inr data" "kv_set B s k data = Inr s'"
    using assms(3) by (auto simp: db_Save_Inr)
  then show ?thesis
    using set_get [OF assms(1) d(2)] unmarshal_marshal [OF assms(2) d(1)] by (auto simp: db_Get_def)
qed

end

sublocale badger \<subseteq> db: versioned_store ok "db_version B" "save_at B C" "delete_at B v" clock
  for C :: "'v codec" and v :: 'v
proof
  fix s k n assume "ok s" "db_version B s k = Some n"
  then show "0 < n \<and> n \<le> clock s" using get_version by (auto simp: db_version_def split: sum.splits)
next
  fix s k n w s' assume ok: "ok s" and a: "save_at B C s k n w = Some s'"
  then show "db_version B s k = None \<or> db_version B s k = Some n"
    by (auto simp: save_at_Some db_Save_Inr db_version_def)
  show "\<exists>m. db_version B s' k = Some m \<and> clock s < m"
    using ok a by (simp add: save_at_Some db_Save_version)
  show "ok s' \<and> clock s \<le> clock s'" using a db_Save_ok [OF ok] by (simp add: save_at_Some)
  show "db_version B s' k' = db_version B s k'" if "k' \<noteq> k" for k'
    using ok a that by (simp add: save_at_Some db_version_def db_Save_other)
next
  fix s k n s' assume ok: "ok s" and a: "delete_at B v s k n = Some s'"
  then show "db_version B s k = None \<or> db_version B s k = Some n"
    by (auto simp: delete_at_Some db_Delete_Inr db_version_def)
  show "db_version B s' k = None"
    using ok a by (simp add: delete_at_Some db_version_def db_Delete_get)
  show "ok s' \<and> clock s \<le> clock s'" using a db_Delete_ok [OF ok] by (simp add: delete_at_Some)
  show "db_version B s' k' = db_version B s k'" if "k' \<noteq> k" for k'
    using ok a that by (simp add: delete_at_Some db_version_def db_Delete_other)
qed

section \<open>Histories of the database\<close>

text \<open>One successful operation of some client.\<close>

inductive db_step :: "'s badger \<Rightarrow> 'v codec \<Rightarrow> 's \<Rightarrow> 's \<Rightarrow> bool" for B C where
  save: "db_Save B C s k e = Inr s' \<Longrightarrow> db_step B C s s'"
| delete: "db_Delete B s k (e :: 'v Entry) = Inr s' \<Longrightarrow> db_step B C s s'"

inductive_cases db_stepE: "db_step B C s s'"

lemma db_step_vs_step: "db_step B C s s' \<Longrightarrow> vs_step (save_at B C) (delete_at B v) s s'"
proof (induction rule: db_step.induct)
  case (save s k e s')
  then have "save_at B C s k (version e) (Value e) = Some s'" by (cases e) (simp add: save_at_Some)
  then show ?case unfolding vs_step_def by blast
next
  case (delete s k e s')
  then have "delete_at B v s k (version e) = Some s'" by (simp add: delete_at_Some db_Delete_Inr)
  then show ?case unfolding vs_step_def by blast
qed

lemma db_steps_vs_steps:
  "(db_step B C)\<^sup>*\<^sup>* s s' \<Longrightarrow> (vs_step (save_at B C) (delete_at B v))\<^sup>*\<^sup>* s s'"
  by (induction rule: rtranclp_induct) (auto dest: db_step_vs_step [where v = v] intro: rtranclp.rtrancl_into_rtrancl)

context badger
begin

lemma db_steps_ok: "(db_step B C)\<^sup>*\<^sup>* s s' \<Longrightarrow> ok s \<Longrightarrow> ok s' \<and> clock s \<le> clock s'"
  using db.history [OF db_steps_vs_steps, of C s s' undefined] by blast

lemma db_second_writer_refused:
  assumes ok: "ok s" and read: "db_version B s k = Some n"
    and first: "db_Save B C s k \<lparr>Value = v1, version = n\<rparr> = Inr s1"
    and between: "(db_step B C)\<^sup>*\<^sup>* s1 s2" and stored: "kv_get B s2 k = Inr it"
    and data: "MarshalMsg C v2 = Inr data"
  shows "db_Save B C s2 k \<lparr>Value = v2, version = n\<rparr> = Inl ErrConflict"
    and "db_Delete B s2 k \<lparr>Value = v2, version = n\<rparr> = Inl ErrConflict"
proof -
  have "db_version B s2 k \<noteq> Some n"
    using db.superseded [OF ok read _ db_steps_vs_steps [OF between, of v1], of v1] first
    by (simp add: save_at_Some)
  then show "db_Save B C s2 k \<lparr>Value = v2, version = n\<rparr> = Inl ErrConflict"
    and "db_Delete B s2 k \<lparr>Value = v2, version = n\<rparr> = Inl ErrConflict"
    using stored data by (simp_all add: db_Save_def db_Delete_def db_version_def)
qed

end

section \<open>An in-memory store\<close>

text \<open>
  A store with badger's contract: the items of a Go map with their versions, the timestamp of
  the last commit, and whether the disk still takes writes.
\<close>

record mem =
  mem_items :: "(string, string \<times> nat) gomap"
  mem_ts :: nat
  mem_full :: bool

definition mem_commit :: "mem \<Rightarrow> (string, string \<times> nat) gomap \<Rightarrow> kv_error + mem" where
  "mem_commit s items =
     (if mem_full s then Inl (KvFailure ''no space left on device'')
      else Inr (s\<lparr>mem_items := items, mem_ts := Suc (mem_ts s)\<rparr>))"

definition mem_get :: "mem \<Rightarrow> string \<Rightarrow> kv_error + item" where
  "mem_get s k =
     (case map_of (mem_items s) k of
        None \<Rightarrow> Inl KvKeyNotFound
      | Some (v, n) \<Rightarrow> Inr \<lparr>item_value = Inr v, item_version = n\<rparr>)"

definition mem_badger :: "mem badger" where
  "mem_badger =
     \<lparr>kv_open = \<lambda>path. Inr \<lparr>mem_items = [], mem_ts = 0, mem_full = False\<rparr>,
      kv_close = \<lambda>s. (None, s),
      kv_get = mem_get,
      kv_set = \<lambda>s k v. mem_commit s (gm_set (mem_items s) k (v, Suc (mem_ts s))),
      kv_delete = \<lambda>s k. mem_commit s (gm_del (mem_items s) k),
      kv_sizes = \<lambda>s. Inr (map (\<lambda>(k, v, n). int (length k + length v)) (mem_items s)),
      kv_stream = \<lambda>s. (map (\<lambda>(k, v, n). \<lparr>kv_Key = k, kv_Value = v, kv_Version = n\<rparr>) (mem_items s), None),
      kv_gc = \<lambda>s. (Some KvNoRewrite, s)\<rparr>"

definition mem_ok :: "mem \<Rightarrow> bool" where
  "mem_ok s \<longleftrightarrow> gm_wf (mem_items s) \<and> (\<forall>k v n. map_of (mem_items s) k = Some (v, n) \<longrightarrow> 0 < n \<and> n \<le> mem_ts s)"

lemma mem_get_Inr: "mem_get s k = Inr it \<longleftrightarrow>
    (\<exists>v n. map_of (mem_items s) k = Some (v, n) \<and> it = \<lparr>item_value = Inr v, item_version = n\<rparr>)"
  by (auto simp: mem_get_def split: option.splits)

lemma mem_commit_Inr: "mem_commit s items = Inr s' \<longleftrightarrow>
    \<not> mem_full s \<and> s' = s\<lparr>mem_items := items, mem_ts := Suc (mem_ts s)\<rparr>"
  by (auto simp: mem_commit_def)

interpretation mem: badger mem_badger mem_ok mem_ts
proof
  fix s k and s' :: mem
  assume "mem_ok s" "kv_delete mem_badger s k = Inr s'"
  then show "mem_ok s' \<and> mem_ts s \<le> mem_ts s'" "kv_get mem_badger s' k = Inl KvKeyNotFound"
    by (auto simp: mem_badger_def mem_commit_Inr mem_ok_def mem_get_def le_SucI split: if_splits)
next
  fix s x
  assume "mem_ok s" "x \<in> set (fst (kv_stream mem_badger s))"
  then show "kv_get mem_badger s (kv_Key x) = Inr \<lparr>item_value = Inr (kv_Value x), item_version = kv_Version x\<rparr>"
    by (auto simp: mem_badger_def mem_ok_def mem_get_def gm_wf_def map_of_eq_Some_iff)
next
  fix s assume "mem_ok s"
  then show "distinct (map kv_Key (fst (kv_stream mem_badger s)))"
    by (simp add: mem_badger_def mem_ok_def gm_wf_def o_def case_prod_beta)
next
  fix s k it assume "mem_ok s" "kv_get mem_badger s k = Inr it"
  then show "k \<in> kv_Key ` set (fst (kv_stream mem_badger s))"
    by (force simp: mem_badger_def mem_get_Inr dest: map_of_SomeD)
qed (auto simp: mem_badger_def mem_commit_Inr mem_ok_def mem_get_def le_SucI
    split: if_splits option.splits)

section \<open>Properties\<close>

text \<open>
  Round trip. A successful save is what the next load of the key returns, into whatever
  entry it loads, with a version that is later than all earlier ones.
\<close>

lemma save_get_roundtrip:
  assumes "badger B ok clock" "ok s" "codec_ok C norm" "db_Save B C s k e = Inr s'"
  shows "\<exists>m. db_Get B C s' k old = (None, \<lparr>Value = norm (Value e), version = m\<rparr>) \<and> clock s < m"
  by (rule badger.db_Save_Get [OF assms])

text \<open>The examples: strings stored as they are.\<close>

definition plain_codec :: "string codec" where
  "plain_codec = \<lparr>MarshalMsg = Inr, UnmarshalMsg = \<lambda>b old. (b, None)\<rparr>"

definition mem1 :: mem where
  "mem1 = \<lparr>mem_items = [(''k'', ''v0'', 1)], mem_ts = 1, mem_full = False\<rparr>"

definition mem2 :: mem where
  "mem2 = \<lparr>mem_items = [(''k'', ''v1'', 2)], mem_ts = 2, mem_full = False\<rparr>"

lemma mem1_ok: "mem_ok mem1"
  by (simp add: mem_ok_def mem1_def gm_wf_def)

lemma plain_codec_ok: "codec_ok plain_codec (\<lambda>v. v)"
  by (simp add: codec_ok_def plain_codec_def)

lemma mem1_save: "db_Save mem_badger plain_codec mem1 ''k'' \<lparr>Value = ''v1'', version = 1\<rparr> = Inr mem2"
  by (simp add: db_Save_def mem_badger_def plain_codec_def mem_get_def mem1_def mem2_def mem_commit_def gm_set_def)

lemma save_get_roundtrip_witness:
  "db_Save mem_badger plain_codec mem1 ''k'' \<lparr>Value = ''v1'', version = 1\<rparr> = Inr mem2 \<and>
   (\<exists>m. db_Get mem_badger plain_codec mem2 ''k'' \<lparr>Value = ''z'', version = 9\<rparr> = (None, \<lparr>Value = ''v1'', version = m\<rparr>)
      \<and> mem_ts mem1 < m)"
  using save_get_roundtrip [OF mem.badger_axioms mem1_ok plain_codec_ok mem1_save, of "\<lparr>Value = ''z'', version = 9\<rparr>"]
    mem1_save by simp

text \<open>
  C11: No lost update. Two clients read an entry at the same version; the first saves its change,
  then any operations of any clients follow. If the key is still stored, the second client can
  neither overwrite nor delete the entry on the strength of the version it read.
\<close>

theorem no_lost_update:
  assumes "badger B ok clock" and "ok s" and "db_version B s k = Some n"
    and "db_Save B C s k \<lparr>Value = v1, version = n\<rparr> = Inr s1"
    and "(db_step B C)\<^sup>*\<^sup>* s1 s2" and "kv_get B s2 k = Inr it"
    and "MarshalMsg C v2 = Inr data"
  shows "db_Save B C s2 k \<lparr>Value = v2, version = n\<rparr> = Inl ErrConflict \<and>
    db_Delete B s2 k \<lparr>Value = v2, version = n\<rparr> = Inl ErrConflict"
  using badger.db_second_writer_refused [OF assms] by blast

theorem no_lost_update_witness:
  "db_Save mem_badger plain_codec mem2 ''k'' \<lparr>Value = ''w'', version = 1\<rparr> = Inl ErrConflict"
proof -
  have v: "db_version mem_badger mem1 ''k'' = Some 1"
    by (simp add: db_version_def mem_badger_def mem_get_def mem1_def)
  have g: "kv_get mem_badger mem2 ''k'' = Inr \<lparr>item_value = Inr ''v1'', item_version = 2\<rparr>"
    by (simp add: mem_badger_def mem_get_def mem2_def)
  have d: "MarshalMsg plain_codec ''w'' = Inr ''w''" by (simp add: plain_codec_def)
  show ?thesis
    using no_lost_update [OF mem.badger_axioms mem1_ok v mem1_save rtranclp.rtrancl_refl g d] by blast
qed

end
