(* ===== verification/CompareAndSwap.thy ===== *)
theory CompareAndSwap
  imports Database
begin

text \<open>
  The database as an abstract data type: a map from keys to values with versions, in which a write
  or a removal takes effect only for those who know the current version. \<open>db_Get\<close>, \<open>db_Save\<close>,
  \<open>db_New\<close>, \<open>db_Delete\<close> and \<open>RunGarbageCollector\<close> are simulated by its operations.
\<close>

section \<open>The abstract store\<close>

type_synonym 'v cas = "string \<rightharpoonup> nat \<times> 'v"

text \<open>An absent key may be written at any version: the code does not tell a new entry from a deleted one.\<close>

definition cas_current :: "'v cas \<Rightarrow> string \<Rightarrow> nat \<Rightarrow> bool" where
  "cas_current m k n = (case m k of None \<Rightarrow> True | Some (n', _) \<Rightarrow> n' = n)"

definition newer :: "'v cas \<Rightarrow> nat \<Rightarrow> bool" where
  "newer m n \<longleftrightarrow> (\<forall>(n', _) \<in> ran m. n' < n)"

inductive cas_step :: "'v cas \<Rightarrow> 'v cas \<Rightarrow> bool" where
  cas_write: "cas_current m k n \<Longrightarrow> newer m n' \<Longrightarrow> cas_step m (m(k \<mapsto> (n', v)))"
| cas_remove: "cas_current m k n \<Longrightarrow> cas_step m (m(k := None))"

text \<open>The store holds the map: every key decodes to its value, whatever it is decoded into.\<close>

definition holds :: "'v codec \<Rightarrow> kv_error + item \<Rightarrow> (nat \<times> 'v) option \<Rightarrow> bool" where
  "holds C g x \<longleftrightarrow>
     (case x of
        None \<Rightarrow> g = Inl KvKeyNotFound
      | Some (n, v) \<Rightarrow> \<exists>b. g = Inr \<lparr>item_value = Inr b, item_version = n\<rparr> \<and> (\<forall>old. unmarshal C b old = (v, None)))"

lemma holds_None [simp]: "holds C g None \<longleftrightarrow> g = Inl KvKeyNotFound"
  by (simp add: holds_def)

lemma holds_Some [simp]:
  "holds C g (Some (n, v)) \<longleftrightarrow> (\<exists>b. g = Inr \<lparr>item_value = Inr b, item_version = n\<rparr> \<and> (\<forall>old. unmarshal C b old = (v, None)))"
  by (simp add: holds_def)

definition represents :: "'s badger \<Rightarrow> 'v codec \<Rightarrow> 's \<Rightarrow> 'v cas \<Rightarrow> bool" where
  "represents B C s m \<longleftrightarrow> (\<forall>k. holds C (kv_get B s k) (m k))"

lemma represents_None: "represents B C s m \<Longrightarrow> m k = None \<Longrightarrow> kv_get B s k = Inl KvKeyNotFound"
  unfolding represents_def by (metis holds_None)

lemma represents_Some:
  "represents B C s m \<Longrightarrow> m k = Some (n, v) \<Longrightarrow>
     \<exists>b. kv_get B s k = Inr \<lparr>item_value = Inr b, item_version = n\<rparr> \<and> (\<forall>old. unmarshal C b old = (v, None))"
  unfolding represents_def by (metis holds_Some)

section \<open>Simulation\<close>

lemma get_represented:
  assumes "represents B C s m"
  shows "db_Get B C s k e =
    (case m k of None \<Rightarrow> (Some ErrKeyNotFound, e\<lparr>version := 0\<rparr>) | Some (n, v) \<Rightarrow> (None, \<lparr>Value = v, version = n\<rparr>))"
proof (cases "m k")
  case None
  then show ?thesis using represents_None [OF assms None] by (simp add: db_Get_def load_error_def)
next
  case (Some x)
  obtain n v where x: "x = (n, v)" by (cases x)
  then show ?thesis using represents_Some [OF assms, of k n v] Some by (auto simp: db_Get_def)
qed

lemma save_conflict:
  assumes "represents B C s m" "MarshalMsg C (Value e) = Inr b"
  shows "db_Save B C s k e = Inl ErrConflict \<longleftrightarrow> \<not> cas_current m k (version e)"
proof (cases "m k")
  case None
  then show ?thesis using represents_None [OF assms(1) None] assms(2) by (simp add: db_Save_def cas_current_def split: sum.splits)
next
  case (Some x)
  obtain n v where x: "x = (n, v)" by (cases x)
  then show ?thesis using represents_Some [OF assms(1), of k n v] Some assms(2)
    by (auto simp: db_Save_def cas_current_def split: sum.splits)
qed

lemma delete_conflict:
  assumes "represents B C s m"
  shows "db_Delete B s k e = Inl ErrConflict \<longleftrightarrow> \<not> cas_current m k (version e)"
proof (cases "m k")
  case None
  then show ?thesis using represents_None [OF assms None] by (simp add: db_Delete_def cas_current_def)
next
  case (Some x)
  obtain n v where x: "x = (n, v)" by (cases x)
  then show ?thesis using represents_Some [OF assms, of k n v] Some
    by (auto simp: db_Delete_def cas_current_def split: sum.splits)
qed

context badger
begin

lemma represents_newer: "ok s \<Longrightarrow> represents B C s m \<Longrightarrow> clock s < n \<Longrightarrow> newer m n"
proof -
  assume a: "ok s" "represents B C s m" "clock s < n"
  have "n' < n" if mk: "m k = Some (n', v)" for k n' v
  proof -
    obtain b where "kv_get B s k = Inr \<lparr>item_value = Inr b, item_version = n'\<rparr>"
      using represents_Some [OF a(2) mk] by blast
    then show ?thesis using get_version [OF a(1)] a(3) by fastforce
  qed
  then show ?thesis by (auto simp: newer_def ran_def)
qed

lemma represents_put:
  assumes "ok s" "represents B C s m" "kv_set B s k b = Inr s'" "\<forall>old. unmarshal C b old = (v, None)"
  shows "\<exists>n. newer m n \<and> represents B C s' (m(k \<mapsto> (n, v)))"
proof -
  obtain n where n: "kv_get B s' k = Inr \<lparr>item_value = Inr b, item_version = n\<rparr>" "clock s < n"
    using set_get [OF assms(1,3)] by blast
  have "kv_get B s' k' = kv_get B s k'" if "k' \<noteq> k" for k' using set_get_other [OF assms(1,3) that] .
  then have "represents B C s' (m(k \<mapsto> (n, v)))"
    using assms(2,4) n(1) by (auto simp: represents_def)
  then show ?thesis using represents_newer [OF assms(1,2) n(2)] by blast
qed

lemma save_simulated:
  assumes "ok s" "codec_ok C norm" "represents B C s m" "db_Save B C s k e = Inr s'"
  shows "ok s' \<and> (\<exists>n. cas_current m k (version e) \<and> newer m n \<and> represents B C s' (m(k \<mapsto> (n, norm (Value e)))))"
proof -
  obtain b where b: "MarshalMsg C (Value e) = Inr b" "kv_set B s k b = Inr s'"
    using assms(4) by (auto simp: db_Save_Inr)
  have "cas_current m k (version e)" using save_conflict [OF assms(3) b(1), of k] assms(4) by auto
  moreover have "\<forall>old. unmarshal C b old = (norm (Value e), None)"
    using unmarshal_marshal [OF assms(2) b(1)] by blast
  ultimately show ?thesis using represents_put [OF assms(1,3) b(2)] db_Save_ok [OF assms(1,4)] by blast
qed

lemma delete_simulated:
  assumes "ok s" "represents B C s m" "db_Delete B s k e = Inr s'"
  shows "ok s' \<and> cas_current m k (version e) \<and> represents B C s' (m(k := None))"
proof -
  have "kv_get B s' k' = kv_get B s k'" if "k' \<noteq> k" for k' using db_Delete_other [OF assms(1,3) that] .
  then have "represents B C s' (m(k := None))"
    using assms(2) db_Delete_get [OF assms(1,3)] by (auto simp: represents_def)
  then show ?thesis
    using delete_conflict [OF assms(2), of k e] assms(3) db_Delete_ok [OF assms(1,3)] by auto
qed

lemma gc_simulated: "ok s \<Longrightarrow> represents B C s m \<Longrightarrow> represents B C (snd (RunGarbageCollector B s)) m"
  by (simp add: represents_def RunGarbageCollector_def gc_get)

lemma step_simulated:
  assumes "db_step B C s s'" "ok s" "codec_ok C norm" "represents B C s m"
  shows "\<exists>m'. cas_step m m' \<and> represents B C s' m' \<and> ok s'"
  using assms(1)
proof cases
  case (save k e)
  obtain n where n: "cas_current m k (version e)" "newer m n" "represents B C s' (m(k \<mapsto> (n, norm (Value e))))" "ok s'"
    using save_simulated [OF assms(2-4) save] by blast
  from cas_write [OF n(1,2)] n(3,4) show ?thesis by (intro exI conjI)
next
  case (delete k e)
  from cas_remove delete_simulated [OF assms(2,4) delete] show ?thesis by (intro exI conjI) auto
qed

lemma steps_simulated:
  assumes "(db_step B C)\<^sup>*\<^sup>* s s'" "ok s" "codec_ok C norm" "represents B C s m"
  shows "\<exists>m'. cas_step\<^sup>*\<^sup>* m m' \<and> represents B C s' m' \<and> ok s'"
  using assms(1)
proof (induction rule: rtranclp_induct)
  case base
  then show ?case using assms by blast
next
  case (step y z)
  then show ?case using step_simulated [OF step(2) _ assms(3)] by (meson rtranclp.rtrancl_into_rtrancl)
qed

end

text \<open>
  C10: The database refines a compare-and-swap store. Whatever operations its clients have done, there
  is an abstract history that ends in a map that the database holds: loading a key gives its value
  and version in the map, saving and deleting are refused as conflicts exactly when the client's
  version is not the current one, and an operation that succeeds does in the map what its name
  says, with a version that no entry had.\<close>

theorem database_refines_cas:
  fixes C :: "'v codec"
  assumes "badger B ok clock" "ok s" "codec_ok C norm" "represents B C s m" "(db_step B C)\<^sup>*\<^sup>* s t"
  shows "\<exists>m'. cas_step\<^sup>*\<^sup>* m m' \<and> represents B C t m' \<and>
    (\<forall>k old. db_Get B C t k old =
       (case m' k of None \<Rightarrow> (Some ErrKeyNotFound, old\<lparr>version := 0\<rparr>) | Some (n, v) \<Rightarrow> (None, \<lparr>Value = v, version = n\<rparr>))) \<and>
    (\<forall>k e b. MarshalMsg C (Value e) = Inr b \<longrightarrow> (db_Save B C t k e = Inl ErrConflict \<longleftrightarrow> \<not> cas_current m' k (version e))) \<and>
    (\<forall>k e t'. db_Save B C t k e = Inr t' \<longrightarrow> (\<exists>n. newer m' n \<and> represents B C t' (m'(k \<mapsto> (n, norm (Value e)))))) \<and>
    (\<forall>k (e :: 'v Entry). db_Delete B t k e = Inl ErrConflict \<longleftrightarrow> \<not> cas_current m' k (version e)) \<and>
    (\<forall>k (e :: 'v Entry) t'. db_Delete B t k e = Inr t' \<longrightarrow> represents B C t' (m'(k := None)))"
proof -
  obtain m' where m': "cas_step\<^sup>*\<^sup>* m m'" "represents B C t m'" "ok t"
    using badger.steps_simulated [OF assms(1,5,2,3,4)] by blast
  show ?thesis
  proof (intro exI [of _ m'] conjI allI impI)
    show "\<exists>n. newer m' n \<and> represents B C t' (m'(k \<mapsto> (n, norm (Value e))))" if "db_Save B C t k e = Inr t'" for k e t'
      using badger.save_simulated [OF assms(1) m'(3) assms(3) m'(2) that] by blast
    show "represents B C t' (m'(k := None))" if "db_Delete B t k e = Inr t'" for k t' and e :: "'v Entry"
      using badger.delete_simulated [OF assms(1) m'(3,2) that] by blast
  qed (rule m' get_represented [OF m'(2)] save_conflict [OF m'(2)] delete_conflict [OF m'(2)]; assumption?)+
qed

definition map1 :: "string cas" where
  "map1 = [''k'' \<mapsto> (1, ''v0'')]"

lemma mem1_represents: "represents mem_badger plain_codec mem1 map1"
  unfolding represents_def
  by (auto simp: map1_def mem_badger_def mem_get_def mem1_def unmarshal_def plain_codec_def)

theorem database_refines_cas_witness:
  "\<exists>m'. cas_step\<^sup>*\<^sup>* map1 m' \<and> represents mem_badger plain_codec mem2 m' \<and> m' ''k'' \<noteq> None \<and> \<not> cas_current m' ''k'' 1"
proof -
  have "(db_step mem_badger plain_codec)\<^sup>*\<^sup>* mem1 mem2" using db_step.save [OF mem1_save] by blast
  from database_refines_cas [OF mem.badger_axioms mem1_ok plain_codec_ok mem1_represents this]
  obtain m' where m': "cas_step\<^sup>*\<^sup>* map1 m'" "represents mem_badger plain_codec mem2 m'"
    "\<forall>k old. db_Get mem_badger plain_codec mem2 k old =
       (case m' k of None \<Rightarrow> (Some ErrKeyNotFound, old\<lparr>version := 0\<rparr>) | Some (n, v) \<Rightarrow> (None, \<lparr>Value = v, version = n\<rparr>))"
    by blast
  have "db_Get mem_badger plain_codec mem2 ''k'' \<lparr>Value = [], version = 0\<rparr> = (None, \<lparr>Value = ''v1'', version = 2\<rparr>)"
    by (simp add: db_Get_def mem_badger_def mem_get_def mem2_def unmarshal_def plain_codec_def)
  then have "m' ''k'' = Some (2, ''v1'')" using m'(3) by (auto split: option.splits)
  then show ?thesis using m'(1,2) by (auto simp: cas_current_def)
qed

end
