(* ===== verification/GoURL.thy ===== *)
theory GoURL
  imports Prelude
begin

text \<open>
  Package net/url, as far as the program uses it: the fields of a \<open>url.URL\<close>, \<open>String\<close>, \<open>Parse\<close>,
  \<open>Hostname\<close> and the escaping that they rest on. Strings are byte strings.
\<close>

section \<open>Escaping\<close>

datatype encoding = encodePath | encodePathSegment | encodeHost | encodeZone | encodeUserPassword
  | encodeQueryComponent | encodeFragment

definition is_alpha :: "char \<Rightarrow> bool" where
  "is_alpha c \<longleftrightarrow> 97 \<le> (of_char c :: nat) \<and> (of_char c :: nat) \<le> 122 \<or> 65 \<le> (of_char c :: nat) \<and> (of_char c :: nat) \<le> 90"

definition is_alnum :: "char \<Rightarrow> bool" where
  "is_alnum c \<longleftrightarrow> is_alpha c \<or> is_digit c"

definition single_quote :: char where "single_quote = CHR 0x27"
definition double_quote :: char where "double_quote = CHR 0x22"

definition shouldEscape :: "char \<Rightarrow> encoding \<Rightarrow> bool" where
  "shouldEscape c mode =
     (if is_alnum c then False
      else if (mode = encodeHost \<or> mode = encodeZone)
              \<and> (c \<in> set ''!$&()*+,;=:[]<>'' \<or> c = single_quote \<or> c = double_quote) then False
      else if c \<in> set ''-_.~'' then False
      else if c \<in> set ''$&+,/:;=?@'' \<and> mode \<noteq> encodeHost \<and> mode \<noteq> encodeZone then
        (case mode of
           encodePath \<Rightarrow> c = CHR ''?''
         | encodePathSegment \<Rightarrow> c \<in> set ''/;,?''
         | encodeUserPassword \<Rightarrow> c \<in> set ''@/?:''
         | encodeQueryComponent \<Rightarrow> True
         | _ \<Rightarrow> False)
      else if mode = encodeFragment \<and> c \<in> set ''!()*'' then False
      else True)"

definition upperhex :: string where "upperhex = ''0123456789ABCDEF''"

definition ishex :: "char \<Rightarrow> bool" where
  "ishex c \<longleftrightarrow> is_digit c \<or> c \<in> set ''abcdefABCDEF''"

definition unhex :: "char \<Rightarrow> nat" where
  "unhex c =
     (if is_digit c then of_char c - 48
      else if 97 \<le> (of_char c :: nat) then of_char c - 87
      else of_char c - 55)"

definition percent_encode :: "char \<Rightarrow> string" where
  "percent_encode c = [CHR ''%'', upperhex ! (of_char c div 16), upperhex ! (of_char c mod 16)]"

definition escape :: "string \<Rightarrow> encoding \<Rightarrow> string" where
  "escape s mode = concat (map (\<lambda>c.
     if shouldEscape c mode
     then (if c = CHR '' '' \<and> mode = encodeQueryComponent then ''+'' else percent_encode c)
     else [c]) s)"

datatype url_error = EscapeError string | InvalidHostError string | UrlError string

text \<open>
  One pass decodes and checks; as in the source, the check of a byte of a host depends on the
  mode, and a failing check anywhere makes the whole call fail.
\<close>

fun unescape :: "string \<Rightarrow> encoding \<Rightarrow> url_error + string" where
  "unescape [] mode = Inr []"
| "unescape (c # s) mode =
     (if c = CHR ''%'' then
        (case s of
           a # b # r \<Rightarrow>
             if \<not> ishex a \<or> \<not> ishex b then Inl (EscapeError (take 3 (c # s)))
             else if mode = encodeHost \<and> unhex a < 8 \<and> [a, b] \<noteq> ''25'' then Inl (EscapeError [c, a, b])
             else if mode = encodeZone \<and> [a, b] \<noteq> ''25''
                     \<and> char_of (unhex a * 16 + unhex b) \<noteq> CHR '' ''
                     \<and> shouldEscape (char_of (unhex a * 16 + unhex b)) encodeHost
               then Inl (EscapeError [c, a, b])
             else (case unescape r mode of
                     Inl e \<Rightarrow> Inl e | Inr t \<Rightarrow> Inr (char_of (unhex a * 16 + unhex b) # t))
         | _ \<Rightarrow> Inl (EscapeError (take 3 (c # s))))
      else if (mode = encodeHost \<or> mode = encodeZone) \<and> (of_char c :: nat) < 128 \<and> shouldEscape c mode
        then Inl (InvalidHostError [c])
      else (case unescape s mode of
              Inl e \<Rightarrow> Inl e
            | Inr t \<Rightarrow> Inr ((if c = CHR ''+'' \<and> mode = encodeQueryComponent then CHR '' '' else c) # t)))"

text \<open>A valid encoding may leave unescaped what \<open>escape\<close> would escape.\<close>

definition validEncoded :: "string \<Rightarrow> encoding \<Rightarrow> bool" where
  "validEncoded s mode =
     list_all (\<lambda>c. c \<in> set ''!$&()*+,;=:@[]%'' \<or> c = single_quote \<or> \<not> shouldEscape c mode) s"

section \<open>URLs\<close>

record Userinfo =
  username :: string
  password :: string
  passwordSet :: bool

record URL =
  Scheme :: string
  Opaque :: string
  User :: "Userinfo option"
  Host :: string
  Path :: string
  RawPath :: string
  OmitHost :: bool
  ForceQuery :: bool
  RawQuery :: string
  Fragment :: string
  RawFragment :: string

definition url_zero :: URL where
  "url_zero = \<lparr>Scheme = [], Opaque = [], User = None, Host = [], Path = [], RawPath = [],
     OmitHost = False, ForceQuery = False, RawQuery = [], Fragment = [], RawFragment = []\<rparr>"

definition user_String :: "Userinfo \<Rightarrow> string" where
  "user_String u =
     (if username u \<noteq> [] \<or> password u \<noteq> []
      then escape (username u) encodeUserPassword @
           (if passwordSet u then '':'' @ escape (password u) encodeUserPassword else [])
      else [])"

definition EscapedPath :: "URL \<Rightarrow> string" where
  "EscapedPath u =
     (if RawPath u \<noteq> [] \<and> validEncoded (RawPath u) encodePath
         \<and> unescape (RawPath u) encodePath = Inr (Path u) then RawPath u
      else if Path u = ''*'' then ''*''
      else escape (Path u) encodePath)"

definition EscapedFragment :: "URL \<Rightarrow> string" where
  "EscapedFragment u =
     (if RawFragment u \<noteq> [] \<and> validEncoded (RawFragment u) encodeFragment
         \<and> unescape (RawFragment u) encodeFragment = Inr (Fragment u) then RawFragment u
      else escape (Fragment u) encodeFragment)"

text \<open>The scheme and the authority, the first part of what \<open>String\<close> writes.\<close>

definition url_authority :: "URL \<Rightarrow> string" where
  "url_authority u =
     (if Scheme u \<noteq> [] \<or> Host u \<noteq> [] \<or> User u \<noteq> None then
        (if OmitHost u \<and> Host u = [] \<and> User u = None then []
         else (if Host u \<noteq> [] \<or> Path u \<noteq> [] \<or> User u \<noteq> None then ''//'' else []) @
              (case User u of None \<Rightarrow> [] | Some ui \<Rightarrow> user_String ui @ ''@'') @
              escape (Host u) encodeHost)
      else [])"

definition url_String :: "URL \<Rightarrow> string" where
  "url_String u =
     (let scheme = (if Scheme u \<noteq> [] then Scheme u @ '':'' else []);
          hier = (if Opaque u \<noteq> [] then scheme @ Opaque u
                  else
                    (let start = scheme @ url_authority u;
                         path = EscapedPath u;
                         start' = start @ (if path \<noteq> [] \<and> hd path \<noteq> CHR ''/'' \<and> Host u \<noteq> [] then ''/'' else []);
                         start'' = start' @ (if start' = [] \<and> CHR '':'' \<in> set (takeWhile (\<lambda>c. c \<noteq> CHR ''/'') path)
                                             then ''./'' else [])
                     in start'' @ path))
      in hier @ (if ForceQuery u \<or> RawQuery u \<noteq> [] then ''?'' @ RawQuery u else [])
              @ (if Fragment u \<noteq> [] then ''#'' @ EscapedFragment u else []))"

section \<open>Parsing\<close>

fun getScheme_loop :: "string \<Rightarrow> string \<Rightarrow> string \<Rightarrow> url_error + string \<times> string" where
  "getScheme_loop raw acc [] = Inr ([], raw)"
| "getScheme_loop raw acc (c # cs) =
     (if is_alpha c then getScheme_loop raw (acc @ [c]) cs
      else if is_digit c \<or> c \<in> set ''+-.'' then
        (if acc = [] then Inr ([], raw) else getScheme_loop raw (acc @ [c]) cs)
      else if c = CHR '':'' then
        (if acc = [] then Inl (UrlError ''missing protocol scheme'') else Inr (acc, cs))
      else Inr ([], raw))"

definition getScheme :: "string \<Rightarrow> url_error + string \<times> string" where
  "getScheme raw = getScheme_loop raw [] raw"

definition ascii_lower :: "char \<Rightarrow> char" where
  "ascii_lower c = (if 65 \<le> (of_char c :: nat) \<and> (of_char c :: nat) \<le> 90 then char_of ((of_char c :: nat) + 32) else c)"

definition validOptionalPort :: "string \<Rightarrow> bool" where
  "validOptionalPort p = (case p of [] \<Rightarrow> True | c # cs \<Rightarrow> c = CHR '':'' \<and> list_all is_digit cs)"

text \<open>The string before and from the last occurrence of a byte, if it occurs.\<close>

definition cut_last :: "char \<Rightarrow> string \<Rightarrow> (string \<times> string) option" where
  "cut_last c s =
     (if c \<in> set s
      then Some (rev (tl (dropWhile (\<lambda>x. x \<noteq> c) (rev s))), c # rev (takeWhile (\<lambda>x. x \<noteq> c) (rev s)))
      else None)"

text \<open>The string before and from the first occurrence of \<open>%25\<close>.\<close>

fun cut_zone :: "string \<Rightarrow> (string \<times> string) option" where
  "cut_zone [] = None"
| "cut_zone (c # s) =
     (if HasPrefix (c # s) ''%25'' then Some ([], c # s)
      else map_option (\<lambda>(a, b). (c # a, b)) (cut_zone s))"

definition parseHost :: "string \<Rightarrow> url_error + string" where
  "parseHost host =
     (if HasPrefix host ''['' then
        (case cut_last CHR '']'' host of
           None \<Rightarrow> Inl (UrlError ''missing bracket in host'')
         | Some (front, from_bracket) \<Rightarrow>
             if \<not> validOptionalPort (tl from_bracket) then Inl (UrlError ''invalid port after host'')
             else (case cut_zone front of
                     None \<Rightarrow> unescape host encodeHost
                   | Some (h1, h2) \<Rightarrow>
                       (case unescape h1 encodeHost of
                          Inl e \<Rightarrow> Inl e
                        | Inr h1' \<Rightarrow>
                            (case unescape h2 encodeZone of
                               Inl e \<Rightarrow> Inl e
                             | Inr h2' \<Rightarrow>
                                 (case unescape from_bracket encodeHost of
                                    Inl e \<Rightarrow> Inl e
                                  | Inr h3' \<Rightarrow> Inr (h1' @ h2' @ h3'))))))
      else (case cut_last CHR '':'' host of
              None \<Rightarrow> unescape host encodeHost
            | Some (front, port) \<Rightarrow>
                if \<not> validOptionalPort port then Inl (UrlError ''invalid port after host'')
                else unescape host encodeHost))"

definition validUserinfo :: "string \<Rightarrow> bool" where
  "validUserinfo s = list_all (\<lambda>c. is_alnum c \<or> c \<in> set ''-._:~!$&()*+,;=%@'' \<or> c = single_quote) s"

definition parseAuthority :: "string \<Rightarrow> url_error + Userinfo option \<times> string" where
  "parseAuthority authority =
     (case cut_last CHR ''@'' authority of
        None \<Rightarrow> (case parseHost authority of Inl e \<Rightarrow> Inl e | Inr h \<Rightarrow> Inr (None, h))
      | Some (userinfo, at_host) \<Rightarrow>
          (case parseHost (tl at_host) of
             Inl e \<Rightarrow> Inl e
           | Inr h \<Rightarrow>
               if \<not> validUserinfo userinfo then Inl (UrlError ''invalid userinfo'')
               else (case Cut userinfo CHR '':'' of (name, pw, found) \<Rightarrow>
                       (case unescape name encodeUserPassword of
                          Inl e \<Rightarrow> Inl e
                        | Inr name' \<Rightarrow>
                            if \<not> found
                            then Inr (Some \<lparr>username = name', password = [], passwordSet = False\<rparr>, h)
                            else (case unescape pw encodeUserPassword of
                                    Inl e \<Rightarrow> Inl e
                                  | Inr pw' \<Rightarrow>
                                      Inr (Some \<lparr>username = name', password = pw', passwordSet = True\<rparr>, h))))))"

definition setPath :: "URL \<Rightarrow> string \<Rightarrow> url_error + URL" where
  "setPath u p =
     (case unescape p encodePath of
        Inl e \<Rightarrow> Inl e
      | Inr path \<Rightarrow> Inr (u\<lparr>Path := path, RawPath := if p = escape path encodePath then [] else p\<rparr>))"

definition setFragment :: "URL \<Rightarrow> string \<Rightarrow> url_error + URL" where
  "setFragment u f =
     (case unescape f encodeFragment of
        Inl e \<Rightarrow> Inl e
      | Inr frag \<Rightarrow>
          Inr (u\<lparr>Fragment := frag, RawFragment := if f = escape frag encodeFragment then [] else f\<rparr>))"

definition is_ctl :: "char \<Rightarrow> bool" where
  "is_ctl c \<longleftrightarrow> (of_char c :: nat) < 32 \<or> c = CHR 0x7F"

text \<open>The parsing of what follows the scheme and precedes the fragment.\<close>

definition parse_rest :: "URL \<Rightarrow> string \<Rightarrow> url_error + URL" where
  "parse_rest u rest =
     (if \<not> HasPrefix rest ''/'' \<and> Scheme u \<noteq> [] then Inr (u\<lparr>Opaque := rest\<rparr>)
      else if \<not> HasPrefix rest ''/'' \<and> CHR '':'' \<in> set (takeWhile (\<lambda>c. c \<noteq> CHR ''/'') rest)
        then Inl (UrlError ''first path segment in URL cannot contain colon'')
      else if (Scheme u \<noteq> [] \<or> \<not> HasPrefix rest ''///'') \<and> HasPrefix rest ''//'' then
        (case parseAuthority (takeWhile (\<lambda>c. c \<noteq> CHR ''/'') (drop 2 rest)) of
           Inl e \<Rightarrow> Inl e
         | Inr (user, host) \<Rightarrow>
             setPath (u\<lparr>User := user, Host := host\<rparr>) (dropWhile (\<lambda>c. c \<noteq> CHR ''/'') (drop 2 rest)))
      else setPath (u\<lparr>OmitHost := Scheme u \<noteq> [] \<and> HasPrefix rest ''/''\<rparr>) rest)"

definition parse_url :: "string \<Rightarrow> url_error + URL" where
  "parse_url raw =
     (if list_ex is_ctl raw then Inl (UrlError ''invalid control character in URL'')
      else if raw = ''*'' then Inr (url_zero\<lparr>Path := ''*''\<rparr>)
      else (case getScheme raw of
              Inl e \<Rightarrow> Inl e
            | Inr (scheme, rest) \<Rightarrow>
                if rest \<noteq> [] \<and> last rest = CHR ''?'' \<and> CHR ''?'' \<notin> set (butlast rest)
                then parse_rest (url_zero\<lparr>Scheme := map ascii_lower scheme, ForceQuery := True\<rparr>) (butlast rest)
                else (case Cut rest CHR ''?'' of (rest', query, _) \<Rightarrow>
                        parse_rest (url_zero\<lparr>Scheme := map ascii_lower scheme, RawQuery := query\<rparr>) rest')))"

definition Parse :: "string \<Rightarrow> url_error + URL" where
  "Parse raw =
     (case Cut raw CHR ''#'' of (u, frag, _) \<Rightarrow>
        (case parse_url u of
           Inl e \<Rightarrow> Inl e
         | Inr url \<Rightarrow> if frag = [] then Inr url else setFragment url frag))"

definition Hostname :: "URL \<Rightarrow> string" where
  "Hostname u =
     (let h = (case cut_last CHR '':'' (Host u) of
                 None \<Rightarrow> Host u
               | Some (front, port) \<Rightarrow> if validOptionalPort port then front else Host u)
      in if HasPrefix h ''['' \<and> h \<noteq> [] \<and> last h = CHR '']'' then butlast (tl h) else h)"

end
