(* ===== verification/Cache.thy ===== *)
theory Cache
  imports Eviction Database GoURL Headers
begin

text \<open>
  \<^verbatim>\<open>internal/httpclient/cache.go\<close> and \<^verbatim>\<open>types.go\<close>: the HTTP cache, a database of the responses
  stored per key together with the file cache of their bodies; its statistics and listings, the
  removal of a key, and the clean-up that the background goroutine runs.
\<close>

section \<open>Data\<close>

record CachedResponse =
  ContentHash :: string
  RespStatus :: int
  RespHeaders :: header
  VaryHeaders :: header
  TimeAtResponseCreation :: time

type_synonym CachedResponses = "CachedResponse list"

text \<open>
  What msgp does not keep: empty lists of header values come back as nil. Everything else of a
  stored response is read back as it was written.
\<close>

definition norm_header :: "header \<Rightarrow> header" where
  "norm_header h = map (\<lambda>(k, v). (k, if slice v = [] then None else v)) h"

definition norm_response :: "CachedResponse \<Rightarrow> CachedResponse" where
  "norm_response r = r\<lparr>RespHeaders := norm_header (RespHeaders r), VaryHeaders := norm_header (VaryHeaders r)\<rparr>"

definition norm_responses :: "CachedResponses \<Rightarrow> CachedResponses" where
  "norm_responses rs = map norm_response rs"

text \<open>The parameters of a cache: badger, the codec, the faults of the file system and the quotas.\<close>

record 's cache_env =
  kvs :: "'s badger"
  msgp :: "CachedResponses codec"
  osf :: faults
  blake3 :: "string \<Rightarrow> string"
  fcache :: FileCache

record 's cache =
  cdb :: 's
  cfs :: fs

datatype cache_error = ErrDb db_error | ErrFile os_error | ErrUrl url_error | ErrInit fc_error
  | ErrIter "kv_error"

text \<open>The callbacks of \<open>Iterate\<close> fail with an error or panic.\<close>

datatype callback_error = CbError cache_error | CbPanic string

definition iter_result :: "callback_error iter_error option \<times> 'a \<Rightarrow> (cache_error option \<times> 'a) go" where
  "iter_result r =
     (case r of
        (None, a) \<Rightarrow> Ret (None, a)
      | (Some (IterDb e), a) \<Rightarrow> Ret (Some (ErrDb e), a)
      | (Some (IterApply (CbError e)), a) \<Rightarrow> Ret (Some e, a)
      | (Some (IterApply (CbPanic m)), a) \<Rightarrow> Panic m)"

section \<open>Operations\<close>

definition NewCache :: "'s cache_env \<Rightarrow> int \<Rightarrow> int \<Rightarrow> fs \<Rightarrow> (cache_error + 's cache) \<times> fs" where
  "NewCache E low high t =
     (case NewFileCache (osf E) low high t of
        (Inl e, t') \<Rightarrow> (Inl (ErrInit e), t')
      | (Inr fc, t') \<Rightarrow>
          (case NewDatabase (kvs E) ''db'' of
             Inl e \<Rightarrow> (Inl (ErrDb e), t')
           | Inr s \<Rightarrow> (Inr \<lparr>cdb = s, cfs = t'\<rparr>, t')))"

definition cache_Get ::
    "'s cache_env \<Rightarrow> 's cache \<Rightarrow> string \<Rightarrow> CachedResponses Entry \<Rightarrow> db_error option \<times> CachedResponses Entry" where
  "cache_Get E c key entry = db_Get (kvs E) (msgp E) (cdb c) key entry"

definition cache_Save ::
    "'s cache_env \<Rightarrow> 's cache \<Rightarrow> string \<Rightarrow> CachedResponses Entry \<Rightarrow> db_error option \<times> 's cache" where
  "cache_Save E c key entry =
     (case db_Save (kvs E) (msgp E) (cdb c) key entry of
        Inl e \<Rightarrow> (Some e, c) | Inr s \<Rightarrow> (None, c\<lparr>cdb := s\<rparr>))"

definition cache_New ::
    "'s cache_env \<Rightarrow> 's cache \<Rightarrow> string \<Rightarrow> CachedResponses \<Rightarrow> db_error option \<times> 's cache" where
  "cache_New E c key v =
     (case db_New (kvs E) (msgp E) (cdb c) key v of
        Inl e \<Rightarrow> (Some e, c) | Inr s \<Rightarrow> (None, c\<lparr>cdb := s\<rparr>))"

definition cache_Open ::
    "'s cache_env \<Rightarrow> time \<Rightarrow> 's cache \<Rightarrow> string \<Rightarrow> ((fc_error + string) \<times> 's cache) go" where
  "cache_Open E now c hash =
     (case fc_Open (osf E) now (cfs c) hash of
        Panic m \<Rightarrow> Panic m | Ret (r, t) \<Rightarrow> Ret (r, c\<lparr>cfs := t\<rparr>))"

definition cache_SetupIngestion ::
    "'s cache_env \<Rightarrow> string \<Rightarrow> nat option \<Rightarrow> time \<Rightarrow> 's cache \<Rightarrow> reader \<Rightarrow> body_reader \<times> 's cache" where
  "cache_SetupIngestion E name cap now c s =
     (case SetupIngestion (osf E) name cap now (cfs c) s of (b, t) \<Rightarrow> (b, c\<lparr>cfs := t\<rparr>))"

subsection \<open>Statistics and listing\<close>

record CacheStatistics =
  DatabaseSize :: int
  DatabaseEntries :: int
  FileCacheSize :: int
  FileCacheEntries :: int
  UsagePerHostName :: "(string, int \<times> int) gomap"

fun sum_sizes :: "faults \<Rightarrow> fs \<Rightarrow> CachedResponses \<Rightarrow> int \<Rightarrow> callback_error + int" where
  "sum_sizes F t [] sz = Inr sz"
| "sum_sizes F t (r # rs) sz =
     (case fc_Stat F t (ContentHash r) of
        Panic m \<Rightarrow> Inl (CbPanic m)
      | Ret (Inr f) \<Rightarrow> sum_sizes F t rs (wrap64 (sz + file_size f))
      | Ret (Inl e) \<Rightarrow> if e \<noteq> ErrNotExist then Inl (CbError (ErrFile e)) else sum_sizes F t rs sz)"

definition usage_step ::
    "faults \<Rightarrow> fs \<Rightarrow> string \<Rightarrow> CachedResponses Entry \<Rightarrow> (string, int \<times> int) gomap
     \<Rightarrow> callback_error option \<times> (string, int \<times> int) gomap" where
  "usage_step F t key responses usage =
     (case Parse key of
        Inl e \<Rightarrow> (Some (CbError (ErrUrl e)), usage)
      | Inr uri \<Rightarrow>
          (case (case map_of usage (Hostname uri) of None \<Rightarrow> (0, 0) | Some e \<Rightarrow> e) of (entries, sz) \<Rightarrow>
             (case sum_sizes F t (Value responses) sz of
                Inl e \<Rightarrow> (Some e, usage)
              | Inr sz' \<Rightarrow>
                  (None, gm_set usage (Hostname uri)
                     (wrap64 (entries + int (length (Value responses))), sz')))))"

definition cache_GetStatistics :: "'s cache_env \<Rightarrow> 's cache \<Rightarrow> (cache_error + CacheStatistics) go" where
  "cache_GetStatistics E c =
     (case db_GetStatistics (kvs E) (cdb c) of
        Inl e \<Rightarrow> Ret (Inl (ErrDb e))
      | Inr (dbEntries, dbSize) \<Rightarrow>
          (case fc_GetStatistics (osf E) (cfs c) of
             Inl e \<Rightarrow> Ret (Inl (ErrFile e))
           | Inr (fcEntries, fcSize) \<Rightarrow>
               (case iter_result (db_Iterate (kvs E) (msgp E) [] (usage_step (osf E) (cfs c)) (cdb c) []) of
                  Panic m \<Rightarrow> Panic m
                | Ret (Some e, usage) \<Rightarrow> Ret (Inl e)
                | Ret (None, usage) \<Rightarrow>
                    Ret (Inr \<lparr>DatabaseSize = dbSize, DatabaseEntries = dbEntries, FileCacheSize = fcSize,
                              FileCacheEntries = fcEntries, UsagePerHostName = usage\<rparr>))))"

type_synonym CacheList = "(string, (string, CachedResponses) gomap) gomap"

definition list_step ::
    "string \<Rightarrow> string \<Rightarrow> CachedResponses Entry \<Rightarrow> CacheList \<Rightarrow> callback_error option \<times> CacheList" where
  "list_step hostname key responses l =
     (case Parse key of
        Inl e \<Rightarrow> (Some (CbError (ErrUrl e)), l)
      | Inr uri \<Rightarrow>
          if Hostname uri \<noteq> hostname then (None, l)
          else (case Cut key CHR ''+'' of (meth, path, _) \<Rightarrow>
                  (None, gm_set l path
                     (gm_set (case map_of l path of None \<Rightarrow> [] | Some ms \<Rightarrow> ms) meth (Value responses)))))"

definition cache_List :: "'s cache_env \<Rightarrow> 's cache \<Rightarrow> string \<Rightarrow> (cache_error option \<times> CacheList) go" where
  "cache_List E c hostname =
     iter_result (db_Iterate (kvs E) (msgp E) [] (list_step hostname) (cdb c) [])"

subsection \<open>Remove\<close>

fun delete_bodies :: "faults \<Rightarrow> CachedResponses \<Rightarrow> fs \<Rightarrow> cache_error option \<Rightarrow> (cache_error option \<times> fs) go" where
  "delete_bodies F [] t err = Ret (err, t)"
| "delete_bodies F (r # rs) t err =
     (case fc_Delete F t (ContentHash r) of
        Panic m \<Rightarrow> Panic m
      | Ret (Inr t') \<Rightarrow> delete_bodies F rs t' err
      | Ret (Inl e) \<Rightarrow>
          if e = ErrNotExist then delete_bodies F rs t err
          else delete_bodies F rs t (Some (ErrFile e)))"

definition cache_Remove :: "'s cache_env \<Rightarrow> 's cache \<Rightarrow> string \<Rightarrow> (cache_error option \<times> 's cache) go" where
  "cache_Remove E c key =
     (case cache_Get E c key \<lparr>Value = [], version = 0\<rparr> of
        (Some e, entry) \<Rightarrow> Ret (Some (ErrDb e), c)
      | (None, entry) \<Rightarrow>
          (case db_Delete (kvs E) (cdb c) key entry of
             Inl e \<Rightarrow> Ret (Some (ErrDb e), c)
           | Inr s \<Rightarrow>
               (case delete_bodies (osf E) (Value entry) (cfs c) None of
                  Panic m \<Rightarrow> Panic m
                | Ret (err, t) \<Rightarrow> Ret (err, c\<lparr>cdb := s, cfs := t\<rparr>))))"

subsection \<open>Clean-up\<close>

text \<open>The loop of \<open>pruneDatabaseEntry\<close>: the responses whose body exists.\<close>

fun valid_values :: "faults \<Rightarrow> fs \<Rightarrow> CachedResponses \<Rightarrow> callback_error + CachedResponses" where
  "valid_values F t [] = Inr []"
| "valid_values F t (r # rs) =
     (case fc_Stat F t (ContentHash r) of
        Panic m \<Rightarrow> Inl (CbPanic m)
      | Ret (Inl e) \<Rightarrow> if e \<noteq> ErrNotExist then Inl (CbError (ErrFile e)) else valid_values F t rs
      | Ret (Inr f) \<Rightarrow> (case valid_values F t rs of Inl e \<Rightarrow> Inl e | Inr vs \<Rightarrow> Inr (r # vs)))"

definition pruneDatabaseEntry ::
    "'s cache_env \<Rightarrow> fs \<Rightarrow> string \<Rightarrow> CachedResponses Entry \<Rightarrow> 's \<Rightarrow> callback_error option \<times> 's" where
  "pruneDatabaseEntry E t key entry s =
     (case valid_values (osf E) t (Value entry) of
        Inl e \<Rightarrow> (Some e, s)
      | Inr vs \<Rightarrow>
          if length vs = length (Value entry) then (None, s)
          else if vs = [] then
            (case db_Delete (kvs E) s key entry of
               Inl e \<Rightarrow> (Some (CbError (ErrDb e)), s) | Inr s' \<Rightarrow> (None, s'))
          else
            (case db_Save (kvs E) (msgp E) s key (entry\<lparr>Value := vs\<rparr>) of
               Inl e \<Rightarrow> (Some (CbError (ErrDb e)), s) | Inr s' \<Rightarrow> (None, s')))"

text \<open>The marking of the known hashes, and whether one was missing.\<close>

fun mark_known :: "CachedResponses \<Rightarrow> (string, bool) gomap \<Rightarrow> bool \<Rightarrow> (string, bool) gomap \<times> bool" where
  "mark_known [] known missing = (known, missing)"
| "mark_known (r # rs) known missing =
     (if map_of known (ContentHash r) \<noteq> None
      then mark_known rs (gm_set known (ContentHash r) True) missing
      else mark_known rs known True)"

definition unused_step ::
    "'s cache_env \<Rightarrow> fs \<Rightarrow> string \<Rightarrow> CachedResponses Entry \<Rightarrow> (string, bool) gomap \<times> 's
     \<Rightarrow> callback_error option \<times> (string, bool) gomap \<times> 's" where
  "unused_step E t key entry = (\<lambda>(known, s).
     (case mark_known (Value entry) known False of
        (known', missing) \<Rightarrow>
          if missing
          then (case pruneDatabaseEntry E t key entry s of (e, s') \<Rightarrow> (e, known', s'))
          else (None, known', s)))"

definition removeUnusedDatabaseEntries ::
    "'s cache_env \<Rightarrow> (string, bool) gomap \<Rightarrow> 's cache \<Rightarrow> (cache_error option \<times> 's cache) go" where
  "removeUnusedDatabaseEntries E known c =
     (case iter_result (db_Iterate (kvs E) (msgp E) [] (unused_step E (cfs c)) (cdb c) (known, cdb c)) of
        Panic m \<Rightarrow> Panic m
      | Ret (e, known', s) \<Rightarrow> Ret (e, c\<lparr>cdb := s\<rparr>))"

text \<open>
  The errors of listing the files, of the database pass and of badger's garbage collection are
  only logged; \<open>other\<close> is what other goroutines do to the files while the pruning runs.
\<close>

definition CleanupOldEntries ::
    "'s cache_env \<Rightarrow> (nat \<Rightarrow> fs \<Rightarrow> fs) \<Rightarrow> 's cache \<Rightarrow> 's cache go" where
  "CleanupOldEntries E other c =
     (case Prune (osf E) other (fcache E) (cfs c) of
        Panic m \<Rightarrow> Panic m
      | Ret (Inl e, t) \<Rightarrow> Ret (c\<lparr>cfs := t\<rparr>)
      | Ret (Inr n, t) \<Rightarrow>
          (let hashesList = (case GetAllHashes (osf E) t of Inl e \<Rightarrow> [] | Inr hs \<Rightarrow> hs);
               hashes = fold (\<lambda>h m. gm_set m h False) hashesList []
           in case removeUnusedDatabaseEntries E hashes (c\<lparr>cfs := t\<rparr>) of
                Panic m \<Rightarrow> Panic m
              | Ret (e, c') \<Rightarrow> Ret (c'\<lparr>cdb := snd (RunGarbageCollector (kvs E) (cdb c'))\<rparr>)))"

subsection \<open>The background goroutine\<close>

text \<open>
  \<open>ManageCache\<close> serves ticks until the stop signal is closed; \<open>Close\<close> closes the signal once,
  waits for the goroutine and closes the database. The states of the protocol:
\<close>

record 's managed =
  mcache :: "'s cache"
  stopSignal :: "bool option"  \<comment> \<open>\<open>None\<close> after Close; else whether the channel is closed\<close>
  managing :: bool  \<comment> \<open>the goroutine has not returned\<close>
  db_open :: bool

inductive manage_step :: "'s cache_env \<Rightarrow> 's managed \<Rightarrow> 's managed \<Rightarrow> bool" for E where
  tick: "managing m \<Longrightarrow> CleanupOldEntries E other (mcache m) = Ret c' \<Longrightarrow> manage_step E m (m\<lparr>mcache := c'\<rparr>)"
| stop: "managing m \<Longrightarrow> stopSignal m = Some True \<Longrightarrow> manage_step E m (m\<lparr>managing := False\<rparr>)"
| signal: "stopSignal m = Some False \<Longrightarrow> manage_step E m (m\<lparr>stopSignal := Some True\<rparr>)"
| closed: "stopSignal m = Some True \<Longrightarrow> \<not> managing m \<Longrightarrow>
    manage_step E m (m\<lparr>mcache := (mcache m)\<lparr>cdb := snd (db_Close (kvs E) (cdb (mcache m)))\<rparr>,
      stopSignal := None, db_open := False\<rparr>)"
| close_again: "stopSignal m = None \<Longrightarrow> manage_step E m m"

inductive_cases manage_stepE: "manage_step E m m'"

end
