(* ===== verification/CacheConsistency.thy ===== *)
theory CacheConsistency
  imports Cache
begin

text \<open>
  The consistency of the two stores of the HTTP cache: what the clean-up and the removal of a
  key do to the database and to the bodies, and the protocol of shutting the cache down.
\<close>


section \<open>What is stored\<close>

definition responses_of :: "'s cache_env \<Rightarrow> 's \<Rightarrow> string \<Rightarrow> CachedResponses option" where
  "responses_of E s k =
     (case db_Get (kvs E) (msgp E) s k \<lparr>Value = [], version = 0\<rparr> of
        (None, e) \<Rightarrow> Some (Value e) | (Some _, _) \<Rightarrow> None)"

definition has_body :: "fs \<Rightarrow> CachedResponse \<Rightarrow> bool" where
  "has_body t r \<longleftrightarrow> blob t (ContentHash r) \<noteq> None"

definition hash_ok :: "CachedResponse \<Rightarrow> bool" where
  "hash_ok r \<longleftrightarrow> 2 \<le> length (ContentHash r)"

text \<open>What is left of a key's responses when those without a body are dropped.\<close>

definition with_bodies :: "fs \<Rightarrow> CachedResponses \<Rightarrow> CachedResponses option" where
  "with_bodies t rs =
     (if list_all (has_body t) rs then Some rs
      else if filter (has_body t) rs = [] then None
      else Some (norm_responses (filter (has_body t) rs)))"

text \<open>A store whose writes succeed.\<close>

definition writable :: "'s cache_env \<Rightarrow> ('s \<Rightarrow> bool) \<Rightarrow> bool" where
  "writable E ok \<longleftrightarrow>
     (\<forall>s k v. ok s \<longrightarrow> (\<exists>s'. kv_set (kvs E) s k v = Inr s')) \<and>
     (\<forall>s k. ok s \<longrightarrow> (\<exists>s'. kv_delete (kvs E) s k = Inr s'))"

lemma responses_of_cong: "kv_get (kvs E) s k = kv_get (kvs E) s' k \<Longrightarrow> responses_of E s k = responses_of E s' k"
  by (simp add: responses_of_def db_Get_def)

lemma responses_of_item:
  assumes "kv_get (kvs E) s k = Inr \<lparr>item_value = Inr b, item_version = n\<rparr>"
    and "unmarshal (msgp E) b [] = (rs, None)"
  shows "responses_of E s k = Some rs"
  using assms by (simp add: responses_of_def db_Get_def)

lemma responses_of_item_iff:
  assumes "kv_get (kvs E) s k = Inr \<lparr>item_value = Inr b, item_version = n\<rparr>"
  shows "responses_of E s k = Some rs \<longleftrightarrow> unmarshal (msgp E) b [] = (rs, None)"
  using assms by (cases "unmarshal (msgp E) b []") (auto simp: responses_of_def db_Get_def split: option.splits)

text \<open>Every entry of the store can be decoded, and what is left of it can be encoded.\<close>

definition decodable :: "'s cache_env \<Rightarrow> fs \<Rightarrow> 's \<Rightarrow> bool" where
  "decodable E t s \<longleftrightarrow> snd (kv_stream (kvs E) s) = None \<and>
     (\<forall>k it. kv_get (kvs E) s k = Inr it \<longrightarrow>
        (\<exists>rs b. responses_of E s k = Some rs \<and> list_all hash_ok rs \<and>
           MarshalMsg (msgp E) (filter (has_body t) rs) = Inr b))"

section \<open>The clean-up pass over the database\<close>

lemma fc_Stat_healthy: "2 \<le> length h \<Longrightarrow> fc_Stat no_faults t h =
    Ret (case fs_file t (take 2 h) (drop 2 h) of None \<Rightarrow> Inl ErrNotExist | Some f \<Rightarrow> Inr f)"
  by (simp add: fc_Stat_def split_hash_def os_Stat_def lookup_call_def no_faults_def)

lemma has_body_file: "hash_ok r \<Longrightarrow>
    has_body t r \<longleftrightarrow> fs_file t (take 2 (ContentHash r)) (drop 2 (ContentHash r)) \<noteq> None"
  by (auto simp: has_body_def blob_def hash_ok_def)

lemma valid_values_healthy:
  "list_all hash_ok rs \<Longrightarrow> valid_values no_faults t rs = Inr (filter (has_body t) rs)"
  by (induction rs) (auto simp: fc_Stat_healthy has_body_file hash_ok_def split: option.splits)

lemma length_filter_all: "length (filter P xs) = length xs \<longleftrightarrow> list_all P xs"
proof -
  have "length (filter P xs) = length xs \<longleftrightarrow> filter (\<lambda>x. \<not> P x) xs = []"
    unfolding length_0_conv [symmetric] using sum_length_filter_compl [of P xs] by linarith
  then show ?thesis by (simp add: list_all_iff filter_empty_conv)
qed

lemma mark_known_result:
  "mark_known rs known m = (known', m') \<Longrightarrow>
   dom (map_of known') = dom (map_of known) \<and>
   m' = (m \<or> (\<exists>r \<in> set rs. map_of known (ContentHash r) = None))"
proof (induction rs known m rule: mark_known.induct)
  case (2 r rs known missing)
  show ?case
  proof (cases "map_of known (ContentHash r) = None")
    case True
    then show ?thesis using 2 by auto
  next
    case False
    then have d: "dom (map_of (gm_set known (ContentHash r) True)) = dom (map_of known)" by auto
    then have "map_of (gm_set known (ContentHash r) True) h = None \<longleftrightarrow> map_of known h = None" for h
      by (metis domIff)
    then show ?thesis using 2 False d by auto
  qed
qed simp



text \<open>
  What the pass relies on: badger's contract with writes that succeed, the codec's, and a file
  system that works.
\<close>

locale healthy_cache = badger "kvs E" ok clock
  for E :: "'s cache_env" and ok :: "'s \<Rightarrow> bool" and clock :: "'s \<Rightarrow> nat" +
  assumes codec: "codec_ok (msgp E) norm_responses"
    and no_fault: "osf E = no_faults"
    and writes: "writable E ok"
begin

lemma prune_entry:
  assumes ok: "ok s" and item: "kv_get (kvs E) s k = Inr \<lparr>item_value = Inr b, item_version = n\<rparr>"
    and rs: "unmarshal (msgp E) b [] = (rs, None)" "list_all hash_ok rs"
    and enc: "MarshalMsg (msgp E) (filter (has_body t) rs) = Inr b'"
  shows "\<exists>s'. pruneDatabaseEntry E t k \<lparr>Value = rs, version = n\<rparr> s = (None, s') \<and> ok s' \<and>
    (\<forall>k'. k' \<noteq> k \<longrightarrow> kv_get (kvs E) s' k' = kv_get (kvs E) s k') \<and> responses_of E s' k = with_bodies t rs"
proof -
  note v = valid_values_healthy [OF rs(2), of t]
  consider "list_all (has_body t) rs" | "\<not> list_all (has_body t) rs" "filter (has_body t) rs = []"
    | "\<not> list_all (has_body t) rs" "filter (has_body t) rs \<noteq> []" by blast
  then show ?thesis
  proof cases
    case 1
    then show ?thesis
      using ok responses_of_item [OF item rs(1)]
      by (simp add: pruneDatabaseEntry_def no_fault v length_filter_all with_bodies_def)
  next
    case 2
    obtain s' where d: "kv_delete (kvs E) s k = Inr s'" using writes ok unfolding writable_def by blast
    then have "db_Delete (kvs E) s k \<lparr>Value = rs, version = n\<rparr> = Inr s'"
      by (simp add: db_Delete_Inr item)
    moreover have "responses_of E s' k = None"
      using delete_get [OF ok d] by (simp add: responses_of_def db_Get_def)
    ultimately show ?thesis
      using 2 v delete_ok [OF ok d] delete_get_other [OF ok d] length_filter_all [of "has_body t" rs]
      by (simp add: pruneDatabaseEntry_def no_fault with_bodies_def)
  next
    case 3
    let ?e = "\<lparr>Value = filter (has_body t) rs, version = n\<rparr>"
    obtain s' where d: "kv_set (kvs E) s k b' = Inr s'" using writes ok unfolding writable_def by blast
    then have sv: "db_Save (kvs E) (msgp E) s k ?e = Inr s'"
      by (simp add: db_Save_Inr item enc)
    moreover have "responses_of E s' k = Some (norm_responses (filter (has_body t) rs))"
      using db_Save_Get [OF ok codec sv, of "\<lparr>Value = [], version = 0\<rparr>"] by (auto simp: responses_of_def)
    ultimately show ?thesis
      using 3 v set_ok [OF ok d] set_get_other [OF ok d] length_filter_all [of "has_body t" rs]
      by (simp add: pruneDatabaseEntry_def no_fault with_bodies_def)
  qed
qed

lemma unused_step_result:
  assumes ok: "ok s" and item: "kv_get (kvs E) s k = Inr \<lparr>item_value = Inr b, item_version = n\<rparr>"
    and rs: "unmarshal (msgp E) b [] = (rs, None)" "list_all hash_ok rs"
    and enc: "MarshalMsg (msgp E) (filter (has_body t) rs) = Inr b'"
    and known: "\<And>h. map_of known h \<noteq> None \<Longrightarrow> blob t h \<noteq> None"
  shows "\<exists>known' s'. unused_step E t k \<lparr>Value = rs, version = n\<rparr> (known, s) = (None, known', s') \<and>
    dom (map_of known') = dom (map_of known) \<and> ok s' \<and>
    (\<forall>k'. k' \<noteq> k \<longrightarrow> kv_get (kvs E) s' k' = kv_get (kvs E) s k') \<and> responses_of E s' k = with_bodies t rs"
proof -
  obtain known' missing where m: "mark_known rs known False = (known', missing)"
    by (cases "mark_known rs known False")
  note mk = mark_known_result [OF m]
  show ?thesis
  proof (cases missing)
    case True
    then show ?thesis
      using prune_entry [OF ok item rs enc] m mk by (auto simp: unused_step_def)
  next
    case False
    then have "list_all (has_body t) rs"
      using mk known by (auto simp: list_all_iff has_body_def)
    then show ?thesis
      using False m conjunct1 [OF mk] ok responses_of_item [OF item rs(1)] by (simp add: unused_step_def with_bodies_def)
  qed
qed

lemma send_unused:
  assumes "distinct (map kv_Key xs)" "ok s"
    and "\<And>x. x \<in> set xs \<Longrightarrow> kv_get (kvs E) s (kv_Key x) = Inr \<lparr>item_value = Inr (kv_Value x), item_version = kv_Version x\<rparr>"
    and dec: "\<And>x. x \<in> set xs \<Longrightarrow> unmarshal (msgp E) (kv_Value x) [] = (dcd x, None) \<and> list_all hash_ok (dcd x) \<and>
      (\<exists>b. MarshalMsg (msgp E) (filter (has_body t) (dcd x)) = Inr b)"
    and "\<And>h. map_of known h \<noteq> None \<Longrightarrow> blob t h \<noteq> None"
  shows "\<exists>known' s'. send (msgp E) [] (unused_step E t) xs (known, s) = (None, known', s') \<and> ok s' \<and>
    (\<forall>k. k \<notin> kv_Key ` set xs \<longrightarrow> kv_get (kvs E) s' k = kv_get (kvs E) s k) \<and>
    (\<forall>x \<in> set xs. responses_of E s' (kv_Key x) = with_bodies t (dcd x))"
  using assms
proof (induction xs arbitrary: known s)
  case (Cons x xs)
  obtain b where d: "unmarshal (msgp E) (kv_Value x) [] = (dcd x, None)" "list_all hash_ok (dcd x)"
    "MarshalMsg (msgp E) (filter (has_body t) (dcd x)) = Inr b"
    using Cons.prems(4) [of x] by auto
  obtain known1 s1 where s1: "unused_step E t (kv_Key x) \<lparr>Value = dcd x, version = kv_Version x\<rparr> (known, s) = (None, known1, s1)"
    "dom (map_of known1) = dom (map_of known)" "ok s1"
    "\<And>k. k \<noteq> kv_Key x \<Longrightarrow> kv_get (kvs E) s1 k = kv_get (kvs E) s k"
    "responses_of E s1 (kv_Key x) = with_bodies t (dcd x)"
    using unused_step_result [OF Cons.prems(2) Cons.prems(3) [of x] d, of known] Cons.prems(5) by auto
  have "\<exists>known' s'. send (msgp E) [] (unused_step E t) xs (known1, s1) = (None, known', s') \<and> ok s' \<and>
      (\<forall>k. k \<notin> kv_Key ` set xs \<longrightarrow> kv_get (kvs E) s' k = kv_get (kvs E) s1 k) \<and>
      (\<forall>x \<in> set xs. responses_of E s' (kv_Key x) = with_bodies t (dcd x))"
  proof (rule Cons.IH)
    show "distinct (map kv_Key xs)" "ok s1" using Cons.prems(1) s1(3) by simp_all
    show "kv_get (kvs E) s1 (kv_Key y) = Inr \<lparr>item_value = Inr (kv_Value y), item_version = kv_Version y\<rparr>"
      if "y \<in> set xs" for y
    proof -
      have "kv_Key y \<noteq> kv_Key x" using Cons.prems(1) that by (auto simp: image_iff)
      then show ?thesis using s1(4) Cons.prems(3) [of y] that by simp
    qed
    show "blob t h \<noteq> None" if "map_of known1 h \<noteq> None" for h
      using that s1(2) Cons.prems(5) [of h] by (metis domIff)
  qed (use Cons.prems(4) in simp)
  then obtain known' s' where s': "send (msgp E) [] (unused_step E t) xs (known1, s1) = (None, known', s')" "ok s'"
    "\<And>k. k \<notin> kv_Key ` set xs \<Longrightarrow> kv_get (kvs E) s' k = kv_get (kvs E) s1 k"
    "\<And>x. x \<in> set xs \<Longrightarrow> responses_of E s' (kv_Key x) = with_bodies t (dcd x)"
    by blast
  have "kv_Key x \<notin> kv_Key ` set xs" using Cons.prems(1) by auto
  then have "responses_of E s' (kv_Key x) = with_bodies t (dcd x)"
    using responses_of_cong [OF s'(3)] s1(5) by metis
  then show ?case
    using d(1) s1(1,4) s' by (auto simp: image_iff)
qed simp

lemma removeUnused_result:
  assumes ok: "ok (cdb c)" and dec: "decodable E (cfs c) (cdb c)"
    and known: "\<And>h. map_of known h \<noteq> None \<Longrightarrow> blob (cfs c) h \<noteq> None"
  shows "\<exists>c'. removeUnusedDatabaseEntries E known c = Ret (None, c') \<and> cfs c' = cfs c \<and> ok (cdb c') \<and>
    (\<forall>k. responses_of E (cdb c') k = Option.bind (responses_of E (cdb c) k) (with_bodies (cfs c)))"
proof -
  let ?xs = "fst (kv_stream (kvs E) (cdb c))" and ?dcd = "\<lambda>x. the (responses_of E (cdb c) (kv_Key x))"
  note get = stream_get [OF ok]
  have d: "unmarshal (msgp E) (kv_Value x) [] = (?dcd x, None) \<and> list_all hash_ok (?dcd x) \<and>
      (\<exists>b. MarshalMsg (msgp E) (filter (has_body (cfs c)) (?dcd x)) = Inr b)" and
    rs: "responses_of E (cdb c) (kv_Key x) = Some (?dcd x)" if x: "x \<in> set ?xs" for x
  proof -
    obtain rs b where r: "responses_of E (cdb c) (kv_Key x) = Some rs" "list_all hash_ok rs"
      "MarshalMsg (msgp E) (filter (has_body (cfs c)) rs) = Inr b"
      using dec get [OF x] unfolding decodable_def by blast
    have u: "unmarshal (msgp E) (kv_Value x) [] = (rs, None)"
      using responses_of_item_iff [OF get [OF x]] r(1) by blast
    have "?dcd x = rs" using r(1) by simp
    then show "responses_of E (cdb c) (kv_Key x) = Some (?dcd x)"
      "unmarshal (msgp E) (kv_Value x) [] = (?dcd x, None) \<and> list_all hash_ok (?dcd x) \<and>
        (\<exists>b. MarshalMsg (msgp E) (filter (has_body (cfs c)) (?dcd x)) = Inr b)"
      using r u by auto
  qed
  obtain known' s' where s: "send (msgp E) [] (unused_step E (cfs c)) ?xs (known, cdb c) = (None, known', s')" "ok s'"
    "\<And>k. k \<notin> kv_Key ` set ?xs \<Longrightarrow> kv_get (kvs E) s' k = kv_get (kvs E) (cdb c) k"
    "\<And>x. x \<in> set ?xs \<Longrightarrow> responses_of E s' (kv_Key x) = with_bodies (cfs c) (?dcd x)"
    using send_unused [OF stream_distinct [OF ok] ok get d known, of known] by blast
  have "responses_of E s' k = Option.bind (responses_of E (cdb c) k) (with_bodies (cfs c))" for k
  proof (cases "k \<in> kv_Key ` set ?xs")
    case True
    then obtain x where x: "x \<in> set ?xs" "k = kv_Key x" by blast
    then obtain rs0 where "responses_of E (cdb c) k = Some rs0" using rs by blast
    then show ?thesis using s(4) [OF x(1)] x(2) by simp
  next
    case False
    then have "kv_get (kvs E) (cdb c) k \<noteq> Inr it" for it
      using stream_complete [OF ok] dec unfolding decodable_def by blast
    then obtain e where "kv_get (kvs E) (cdb c) k = Inl e" by (cases "kv_get (kvs E) (cdb c) k") blast+
    then have "responses_of E (cdb c) k = None" by (simp add: responses_of_def db_Get_def)
    then show ?thesis using responses_of_cong [OF s(3) [OF False]] by simp
  qed
  moreover have "snd (kv_stream (kvs E) (cdb c)) = None" using dec by (simp add: decodable_def)
  ultimately show ?thesis
    using s(1,2)
    by (cases "kv_stream (kvs E) (cdb c)") (simp add: removeUnusedDatabaseEntries_def db_Iterate_def iter_result_def)
qed

end

section \<open>The whole clean-up\<close>

lemma map_of_fold_set: "map_of (fold (\<lambda>h m. gm_set m h v) hs m) h = (if h \<in> set hs then Some v else map_of m h)"
  by (induction hs arbitrary: m) simp_all

text \<open>The directories have names of two bytes, as those that \<open>NewFileCache\<close> makes.\<close>

definition dirs_named :: "fs \<Rightarrow> bool" where
  "dirs_named t \<longleftrightarrow> (\<forall>d. map_of t d = None \<or> d = tmpDirName \<or> length d = 2)"

lemma fc_dirs_named: "fc_dirs t \<Longrightarrow> dirs_named t"
  unfolding fc_dirs_def dirs_named_def by auto

lemma dirs_named_remove: "dirs_named (fs_remove t d n) \<longleftrightarrow> dirs_named t"
  unfolding dirs_named_def fs_remove_dirs ..

lemma dirs_named_remove_files: "dirs_named (remove_files ks t) \<longleftrightarrow> dirs_named t"
  by (induction ks arbitrary: t) (simp_all add: remove_files_def dirs_named_remove case_prod_beta)

lemma all_hashes_stored:
  assumes "dirs_named t" "GetAllHashes no_faults t = Inr hs" "h \<in> set hs"
  shows "blob t h \<noteq> None"
proof -
  obtain d n where h: "h = d @ n" "(d, n) \<in> set (walk_order t)"
    using assms(2,3) by (auto simp: GetAllHashes_healthy)
  then have d: "d \<noteq> tmpDirName" "fs_file t d n \<noteq> None" by (simp_all add: set_walk_order)
  then have "map_of t d \<noteq> None" by (auto dest: fs_file_dir)
  then have "length d = 2" using spec [OF assms(1) [unfolded dirs_named_def], of d] d(1) by auto
  then show ?thesis using h(1) d(2) by (simp add: blob_def)
qed

lemma with_bodies_all: "with_bodies t rs = Some rs' \<Longrightarrow> r \<in> set rs' \<Longrightarrow> has_body t r"
  by (auto simp: with_bodies_def list_all_iff norm_responses_def norm_response_def has_body_def split: if_splits)

text \<open>
  C9: Consistency of the clean-up. When the file cache is above its quota and the disk works, the
  clean-up evicts files and then brings the database in line with what is left: under every key
  exactly those responses remain whose body still exists, a key none of whose bodies exists is
  removed, and nothing else changes.
\<close>

theorem cleanup_consistent:
  assumes "healthy_cache E ok clock" and "ok (cdb c)" and "\<And>t. decodable E t (cdb c)"
    and "fs_wf (cfs c)" "dirs_named (cfs c)" and "quotaHigh (fcache E) \<le> fc_usage (cfs c)"
  shows "\<exists>n t c'. Prune no_faults (\<lambda>_ t. t) (fcache E) (cfs c) = Ret (Inr n, t) \<and>
    CleanupOldEntries E (\<lambda>_ t. t) c = Ret c' \<and> cfs c' = t \<and>
    (\<forall>k. responses_of E (cdb c') k = Option.bind (responses_of E (cdb c) k) (with_bodies t)) \<and>
    (\<forall>k rs r. responses_of E (cdb c') k = Some rs \<and> r \<in> set rs \<longrightarrow> has_body (cfs c') r)"
proof -
  have nf: "osf E = no_faults" and b: "badger (kvs E) ok clock"
    using assms(1) by (simp_all add: healthy_cache_def healthy_cache_axioms_def)
  obtain k where p: "Prune no_faults (\<lambda>_ t. t) (fcache E) (cfs c) = Ret (Inr (int k), remove_files (take k (lru_order (cfs c))) (cfs c))"
    using Prune_prefix [OF assms(4,6)] by blast
  let ?t = "remove_files (take k (lru_order (cfs c))) (cfs c)"
  have dirs: "dirs_named ?t" using assms(5) by (simp add: dirs_named_remove_files)
  obtain hs where hs: "GetAllHashes no_faults ?t = Inr hs" by (simp add: GetAllHashes_healthy)
  let ?known = "fold (\<lambda>h m. gm_set m h False) hs []"
  have "\<exists>c'. removeUnusedDatabaseEntries E ?known (c\<lparr>cfs := ?t\<rparr>) = Ret (None, c') \<and> cfs c' = cfs (c\<lparr>cfs := ?t\<rparr>) \<and>
      ok (cdb c') \<and> (\<forall>k. responses_of E (cdb c') k =
        Option.bind (responses_of E (cdb (c\<lparr>cfs := ?t\<rparr>)) k) (with_bodies (cfs (c\<lparr>cfs := ?t\<rparr>))))"
    by (rule healthy_cache.removeUnused_result [OF assms(1)])
      (use assms(2,3) all_hashes_stored [OF dirs hs] in \<open>auto simp: map_of_fold_set split: if_splits\<close>)
  then obtain c' where c': "removeUnusedDatabaseEntries E ?known (c\<lparr>cfs := ?t\<rparr>) = Ret (None, c')" "cfs c' = ?t" "ok (cdb c')"
    "\<And>k. responses_of E (cdb c') k = Option.bind (responses_of E (cdb c) k) (with_bodies ?t)"
    by auto
  let ?c = "c'\<lparr>cdb := snd (RunGarbageCollector (kvs E) (cdb c'))\<rparr>"
  have r: "responses_of E (cdb ?c) k = Option.bind (responses_of E (cdb c) k) (with_bodies ?t)" for k
    using c'(4) [of k] responses_of_cong [of E "snd (kv_gc (kvs E) (cdb c'))" k "cdb c'"] badger.gc_get [OF b c'(3)]
    by (simp add: RunGarbageCollector_def)
  have "CleanupOldEntries E (\<lambda>_ t. t) c = Ret ?c"
    using p hs c'(1) by (simp add: CleanupOldEntries_def nf)
  moreover have "has_body (cfs ?c) x" if st: "responses_of E (cdb ?c) k = Some rs" "x \<in> set rs" for k rs x
  proof -
    obtain rs0 where "with_bodies ?t rs0 = Some rs"
      using st(1) unfolding r by (auto simp: bind_eq_Some_conv)
    then show ?thesis using with_bodies_all st(2) c'(2) by simp
  qed
  moreover have "cfs ?c = ?t" using c'(2) by simp
  ultimately show ?thesis using p r by blast
qed

section \<open>Removing a key\<close>

lemma fc_Delete_healthy: "2 \<le> length h \<Longrightarrow>
    fc_Delete no_faults t h = Ret (if blob t h = None then Inl ErrNotExist else Inr (healthy_delete t h))"
  by (cases "fs_file t (take 2 h) (drop 2 h)")
    (simp_all add: fc_Delete_def healthy_delete_def split_hash_def os_Remove_def lookup_call_def no_faults_def blob_def)

lemma healthy_delete_absent: "2 \<le> length h \<Longrightarrow> blob t h = None \<Longrightarrow> healthy_delete t h = t"
  using fc_Delete_healthy [of h t] by (simp add: healthy_delete_def)

lemma delete_bodies_healthy:
  "list_all hash_ok rs \<Longrightarrow>
   delete_bodies no_faults rs t err = Ret (err, fold (\<lambda>h t. healthy_delete t h) (map ContentHash rs) t)"
  by (induction rs arbitrary: t) (simp_all add: hash_ok_def fc_Delete_healthy healthy_delete_absent)

text \<open>
  C16: Removing a key that is stored, on a disk that works: the key is gone and the other keys
  keep their responses; the bodies of the removed responses are deleted and the other bodies
  are kept. Bodies are shared by content, so another key with the same content loses its body.
\<close>

theorem remove_key:
  assumes "healthy_cache E ok clock" and "ok (cdb c)"
    and "responses_of E (cdb c) k = Some rs" and "list_all hash_ok rs"
  shows "\<exists>c'. cache_Remove E c k = Ret (None, c') \<and>
    responses_of E (cdb c') = (responses_of E (cdb c))(k := None) \<and>
    blob (cfs c') = (\<lambda>h. if h \<in> ContentHash ` set rs then None else blob (cfs c) h)"
proof -
  have nf: "osf E = no_faults" and b: "badger (kvs E) ok clock" and w: "writable E ok"
    using assms(1) by (simp_all add: healthy_cache_def healthy_cache_axioms_def)
  obtain e where e: "cache_Get E c k \<lparr>Value = [], version = 0\<rparr> = (None, e)" "Value e = rs"
    using assms(3) by (auto simp: responses_of_def cache_Get_def split: prod.splits option.splits)
  obtain it where it: "kv_get (kvs E) (cdb c) k = Inr it" "version e = item_version it"
    using e(1) by (auto simp: cache_Get_def db_Get_def split: sum.splits prod.splits)
  obtain s where s: "kv_delete (kvs E) (cdb c) k = Inr s" using w assms(2) unfolding writable_def by blast
  have d: "db_Delete (kvs E) (cdb c) k e = Inr s" using it s by (simp add: db_Delete_Inr)
  let ?t = "fold (\<lambda>h t. healthy_delete t h) (map ContentHash rs) (cfs c)"
  have "responses_of E s = (responses_of E (cdb c))(k := None)"
  proof
    fix k'
    show "responses_of E s k' = ((responses_of E (cdb c))(k := None)) k'"
      using badger.delete_get [OF b assms(2) s] badger.delete_get_other [OF b assms(2) s, of k']
        responses_of_cong [of E s k' "cdb c"]
      by (cases "k' = k") (simp_all add: responses_of_def db_Get_def)
  qed
  moreover have "blob ?t = (\<lambda>h. if h \<in> ContentHash ` set rs then None else blob (cfs c) h)"
    using disk.del_list [of "map ContentHash rs" "cfs c"] assms(4) by (auto simp: list_all_iff hash_ok_def)
  ultimately show ?thesis
    using e d nf delete_bodies_healthy [OF assms(4), of "cfs c" None] by (simp add: cache_Remove_def)
qed

section \<open>Shutting down\<close>


section \<open>An example\<close>

text \<open>
  Two responses, a codec that knows their lists, and a database in which one key has both
  responses and another key the one whose body is evicted first.
\<close>

definition resp_x :: CachedResponse where
  "resp_x = \<lparr>ContentHash = ''61x'', RespStatus = 200, RespHeaders = [], VaryHeaders = [], TimeAtResponseCreation = 0\<rparr>"

definition resp_y :: CachedResponse where
  "resp_y = \<lparr>ContentHash = ''61y'', RespStatus = 200, RespHeaders = [], VaryHeaders = [], TimeAtResponseCreation = 0\<rparr>"

definition table :: "(string \<times> CachedResponses) list" where
  "table = [(''0'', []), (''1'', [resp_x]), (''2'', [resp_y]), (''3'', [resp_x, resp_y])]"

definition table_codec :: "CachedResponses codec" where
  "table_codec =
     \<lparr>MarshalMsg = \<lambda>rs. (case find (\<lambda>(b, v). v = rs) table of None \<Rightarrow> Inl ''unknown'' | Some (b, v) \<Rightarrow> Inr b),
      UnmarshalMsg = \<lambda>b old. (case map_of table b of None \<Rightarrow> (old, Some ''unknown'') | Some v \<Rightarrow> (v, None))\<rparr>"

definition mem_env :: "mem cache_env" where
  "mem_env = \<lparr>kvs = mem_badger, msgp = table_codec, osf = no_faults, blake3 = pad_digest, fcache = small_cache\<rparr>"

definition mem_cache :: "mem cache" where
  "mem_cache = \<lparr>cdb = \<lparr>mem_items = [(''GET+a'', ''3'', 1), (''GET+b'', ''1'', 2)], mem_ts = 2, mem_full = False\<rparr>,
     cfs = two_files\<rparr>"

definition mem_live :: "mem \<Rightarrow> bool" where
  "mem_live s \<longleftrightarrow> mem_ok s \<and> \<not> mem_full s"

lemma mem_env_simps: "kvs mem_env = mem_badger" "msgp mem_env = table_codec" "osf mem_env = no_faults"
  "fcache mem_env = small_cache"
  by (simp_all add: mem_env_def)

lemma mem_live_badger: "badger mem_badger mem_live mem_ts"
proof
  fix s k v and s' :: mem
  assume a: "mem_live s"
  show "mem_live s' \<and> mem_ts s \<le> mem_ts s'" if "kv_set mem_badger s k v = Inr s'"
    using a mem.set_ok [OF _ that] that by (simp add: mem_live_def mem_badger_def mem_commit_Inr)
  show "mem_live s' \<and> mem_ts s \<le> mem_ts s'" if "kv_delete mem_badger s k = Inr s'"
    using a mem.delete_ok [OF _ that] that by (simp add: mem_live_def mem_badger_def mem_commit_Inr)
  show "mem_live (snd (kv_gc mem_badger s))" using a by (simp add: mem_badger_def)
qed (auto simp: mem_live_def dest: mem.get_version intro: mem.set_get mem.set_get_other mem.delete_get
    mem.delete_get_other mem.gc_get mem.stream_get mem.stream_distinct mem.stream_complete)

interpretation example: healthy_cache mem_env mem_live mem_ts
proof -
  have "codec_ok table_codec norm_responses"
    by (auto simp: codec_ok_def table_codec_def table_def norm_responses_def norm_response_def norm_header_def
        resp_x_def resp_y_def split: if_splits)
  moreover have "writable mem_env mem_live"
    by (auto simp: writable_def mem_env_simps mem_badger_def mem_commit_def mem_live_def)
  ultimately show "healthy_cache mem_env mem_live mem_ts"
    using mem_live_badger by (simp add: healthy_cache_def healthy_cache_axioms_def mem_env_simps)
qed

lemma mem_cache_live: "mem_live (cdb mem_cache)"
  by (simp add: mem_live_def mem_ok_def mem_cache_def gm_wf_def)

lemma table_encodes: "set rs \<subseteq> {resp_x, resp_y} \<Longrightarrow> rs = [] \<or> rs = [resp_x] \<or> rs = [resp_y] \<or> rs = [resp_x, resp_y] \<Longrightarrow>
    \<exists>b. MarshalMsg table_codec rs = Inr b"
  by (auto simp: table_codec_def table_def resp_x_def resp_y_def)

lemma mem_cache_responses:
  "responses_of mem_env (cdb mem_cache) k =
     (if k = ''GET+a'' then Some [resp_x, resp_y] else if k = ''GET+b'' then Some [resp_x] else None)"
  by (simp add: responses_of_def db_Get_def mem_env_simps mem_badger_def mem_get_def mem_cache_def
      unmarshal_def table_codec_def table_def)

lemma mem_cache_decodable: "decodable mem_env t (cdb mem_cache)"
proof -
  have "\<exists>rs b. responses_of mem_env (cdb mem_cache) k = Some rs \<and> list_all hash_ok rs \<and>
      MarshalMsg (msgp mem_env) (filter (has_body t) rs) = Inr b"
    if "kv_get (kvs mem_env) (cdb mem_cache) k = Inr it" for k it
  proof -
    have "k = ''GET+a'' \<or> k = ''GET+b''"
      using that by (auto simp: mem_env_simps mem_badger_def mem_get_def mem_cache_def split: if_splits)
    moreover have "hash_ok resp_x" "hash_ok resp_y" by (simp_all add: hash_ok_def resp_x_def resp_y_def)
    moreover have "\<exists>b. MarshalMsg table_codec (filter (has_body t) [resp_x, resp_y]) = Inr b"
      "\<exists>b. MarshalMsg table_codec (filter (has_body t) [resp_x]) = Inr b"
      by (rule table_encodes; auto)+
    ultimately show ?thesis unfolding mem_cache_responses mem_env_simps by auto
  qed
  then show ?thesis by (simp add: decodable_def mem_env_simps mem_badger_def)
qed

lemma mem_cache_pruned:
  "case Prune no_faults (\<lambda>_ t. t) (fcache mem_env) (cfs mem_cache) of
     Ret (Inr n, t) \<Rightarrow> \<not> has_body t resp_x \<and> has_body t resp_y | _ \<Rightarrow> False"
  by code_simp

theorem cleanup_consistent_witness:
  "\<exists>c'. CleanupOldEntries mem_env (\<lambda>_ t. t) mem_cache = Ret c' \<and>
     responses_of mem_env (cdb c') ''GET+a'' = Some [resp_y] \<and> responses_of mem_env (cdb c') ''GET+b'' = None"
proof -
  have "fs_wf (cfs mem_cache)" "dirs_named (cfs mem_cache)"
    using two_files_wf by (auto simp: mem_cache_def dirs_named_def two_files_def)
  moreover have "quotaHigh (fcache mem_env) \<le> fc_usage (cfs mem_cache)" by code_simp
  ultimately obtain n t c' where c: "Prune no_faults (\<lambda>_ t. t) (fcache mem_env) (cfs mem_cache) = Ret (Inr n, t)"
    "CleanupOldEntries mem_env (\<lambda>_ t. t) mem_cache = Ret c'"
    "\<And>k. responses_of mem_env (cdb c') k = Option.bind (responses_of mem_env (cdb mem_cache) k) (with_bodies t)"
    using cleanup_consistent [OF example.healthy_cache_axioms mem_cache_live mem_cache_decodable] by blast
  have "\<not> has_body t resp_x" "has_body t resp_y" using mem_cache_pruned c(1) by simp_all
  moreover have "norm_responses [resp_y] = [resp_y]"
    by (simp add: norm_responses_def norm_response_def norm_header_def resp_y_def)
  ultimately show ?thesis
    using c(2,3) by (simp add: mem_cache_responses with_bodies_def)
qed

theorem remove_key_witness:
  "\<exists>c'. cache_Remove mem_env mem_cache ''GET+b'' = Ret (None, c') \<and>
     responses_of mem_env (cdb c') ''GET+a'' = Some [resp_x, resp_y] \<and> \<not> has_body (cfs c') resp_x"
proof -
  have r: "responses_of mem_env (cdb mem_cache) ''GET+b'' = Some [resp_x]" by (simp add: mem_cache_responses)
  have h: "list_all hash_ok [resp_x]" by (simp add: hash_ok_def resp_x_def)
  obtain c' where "cache_Remove mem_env mem_cache ''GET+b'' = Ret (None, c')"
    "responses_of mem_env (cdb c') = (responses_of mem_env (cdb mem_cache))(''GET+b'' := None)"
    "blob (cfs c') = (\<lambda>h. if h \<in> ContentHash ` set [resp_x] then None else blob (cfs mem_cache) h)"
    using remove_key [OF example.healthy_cache_axioms mem_cache_live r h] by blast
  then show ?thesis by (simp add: mem_cache_responses has_body_def)
qed


end
