(* ===== verification/Client.thy ===== *)
theory Client
  imports Cache Vary Freshness Caching
begin

text \<open>
  \<^verbatim>\<open>internal/httpclient/client.go\<close>: the caching HTTP client. The world it acts on is explicit: the
  cache, the number of readings of the clock, the requests sent so far, the statuses reported
  and the upstream bodies handed to the draining goroutine. The network is an argument, a
  function of the requests sent before and of the request; so is the clock, which gives the
  instant of every reading. A method that mutates its request returns the changed request.
\<close>

section \<open>Data\<close>

record request =
  Method :: string
  ReqURL :: URL
  ReqHost :: string
  ReqHeader :: header
  ReqProxy :: "URL option"  \<comment> \<open>the value of the context under \<open>proxyCtx\<close>\<close>

record UpstreamCache =
  Uris :: "URL list"
  Proxy :: bool

text \<open>The errors of \<open>http.Client.Do\<close>: a \<open>url.Error\<close>, by a timeout or not, or another error.\<close>

datatype net_error = NetError string | NetTimeout string | OtherError string

text \<open>What the callback of an ingestion has captured.\<close>

record ingest_ctx =
  ctx_req :: request
  ctx_status :: int
  ctx_header :: header
  ctx_created :: time
  ctx_received :: time
  ctx_key :: string
  ctx_entry :: "CachedResponses Entry"

datatype body = NetBody reader | FileBody string | TeeBody ingestion ingest_ctx

record 's world =
  wcache :: "'s cache"
  ticks :: nat
  sent :: "request list"
  statuses :: "string list"
  drained :: "reader list"

record 's client =
  cenv :: "'s cache_env"
  isPrivate :: bool
  clk :: "nat \<Rightarrow> time"
  transport :: "request list \<Rightarrow> request \<Rightarrow> net_error + reader http_response"
  tmp_names :: "nat \<Rightarrow> string"  \<comment> \<open>the name that \<open>os.CreateTemp\<close> picks at a reading of the clock\<close>
  disk_space :: "nat option"

definition now :: "'s client \<Rightarrow> 's world \<Rightarrow> time \<times> 's world" where
  "now c w = (clk c (ticks w), w\<lparr>ticks := Suc (ticks w)\<rparr>)"

definition notify :: "string \<Rightarrow> 's world \<Rightarrow> 's world" where
  "notify status w = w\<lparr>statuses := statuses w @ [status]\<rparr>"

text \<open>
  The function that \<open>New\<close> installs as the transport's proxy selection: the proxy of the request's
  context, else the original selection, if there is one.
\<close>

definition client_proxy ::
    "(request \<Rightarrow> net_error + URL option) option \<Rightarrow> request \<Rightarrow> net_error + URL option" where
  "client_proxy originalProxy r =
     (case ReqProxy r of
        Some p \<Rightarrow> Inr (Some p)
      | None \<Rightarrow> (case originalProxy of None \<Rightarrow> Inr None | Some f \<Rightarrow> f r))"

definition buildKey :: "request \<Rightarrow> string" where
  "buildKey req = Method req @ ''+'' @ url_String (ReqURL req)"

section \<open>Serving from the cache\<close>

definition selectResponseCandidates :: "request \<Rightarrow> CachedResponses Entry \<Rightarrow> CachedResponses" where
  "selectResponseCandidates req dbEntry =
     filter (\<lambda>resp. MatchVaryHeaders (ReqHeader req) (VaryHeaders resp)) (Value dbEntry)"

text \<open>The date of a candidate, the zero time where it is invalid.\<close>

definition candidate_date :: "CachedResponse \<Rightarrow> time" where
  "candidate_date r = (case ParseTime (hdr_Get (RespHeaders r) ''Date'') of None \<Rightarrow> 0 | Some d \<Rightarrow> d)"

fun most_recent_loop :: "CachedResponses \<Rightarrow> CachedResponses \<Rightarrow> time \<Rightarrow> CachedResponses" where
  "most_recent_loop [] acc maxDate = acc"
| "most_recent_loop (r # rs) acc maxDate =
     (if maxDate < candidate_date r then most_recent_loop rs [r] (candidate_date r)
      else if candidate_date r = maxDate then most_recent_loop rs (acc @ [r]) maxDate
      else most_recent_loop rs acc maxDate)"

definition selectMostRecentCandidates :: "CachedResponses \<Rightarrow> CachedResponses" where
  "selectMostRecentCandidates candidates = most_recent_loop candidates [] 0"

text \<open>\<open>strconv.FormatFloat(age.Seconds(), 'f', 0, 64)\<close> of an age in whole seconds.\<close>

definition age_string :: "duration \<Rightarrow> string" where
  "age_string age = Itoa (go_quot age Second)"

definition stored_cc :: "CachedResponse \<Rightarrow> directives" where
  "stored_cc r = fst (ParseCacheControlDirective (slice (hdr_index (RespHeaders r) ''Cache-Control'')))"

fun serve_loop ::
    "'s client \<Rightarrow> bool \<Rightarrow> CachedResponses \<Rightarrow> 's world \<Rightarrow> (body http_response option \<times> 's world) go" where
  "serve_loop c forceStale [] w = Ret (None, w)"
| "serve_loop c forceStale (r # rs) w =
     (if \<not> forceStale \<and> (NoCache (stored_cc r) \<or> MustRevalidate (stored_cc r))
      then serve_loop c forceStale rs w
      else
        (case now c w of (t, w1) \<Rightarrow>
         (case IsFresh (RespHeaders r) (stored_cc r) (TimeAtResponseCreation r) t of (age, isFresh) \<Rightarrow>
            if isFresh \<or> forceStale then
              (case now c w1 of (t', w2) \<Rightarrow>
               (case cache_Open (cenv c) t' (wcache w2) (ContentHash r) of
                  Panic m \<Rightarrow> Panic m
                | Ret (Inl e, k) \<Rightarrow> serve_loop c forceStale rs (w2\<lparr>wcache := k\<rparr>)
                | Ret (Inr bytes, k) \<Rightarrow>
                    Ret (Some \<lparr>StatusCode = RespStatus r,
                               Header = hdr_Set (RespHeaders r) ''Age'' (age_string age),
                               Body = FileBody bytes\<rparr>,
                         w2\<lparr>wcache := k\<rparr>)))
            else serve_loop c forceStale rs w1)))"

definition serveFromCachedCandidates ::
    "'s client \<Rightarrow> CachedResponses \<Rightarrow> bool \<Rightarrow> 's world \<Rightarrow> (body http_response option \<times> 's world) go" where
  "serveFromCachedCandidates c candidates forceStale w =
     serve_loop c forceStale (selectMostRecentCandidates candidates) w"

definition serveFromCache ::
    "'s client \<Rightarrow> request \<Rightarrow> CachedResponses Entry \<Rightarrow> bool \<Rightarrow> 's world
     \<Rightarrow> (body http_response option \<times> 's world) go" where
  "serveFromCache c req dbEntry forceStale w =
     (case selectResponseCandidates req dbEntry of
        [] \<Rightarrow> Ret (None, w)
      | rs \<Rightarrow> serveFromCachedCandidates c rs forceStale w)"

section \<open>Forwarding\<close>

record forwarded =
  fw_resp :: "reader http_response"
  fw_created :: time
  fw_received :: time

text \<open>The result, the request with its hop-by-hop fields removed, and the world.\<close>

definition forwardRequest ::
    "'s client \<Rightarrow> request \<Rightarrow> 's world \<Rightarrow> (net_error + forwarded) \<times> request \<times> 's world" where
  "forwardRequest c req w =
     (let req' = req\<lparr>ReqHeader := removeHopByHopHeaders (ReqHeader req)\<rparr>
      in case now c w of (created, w1) \<Rightarrow>
         case now c (w1\<lparr>sent := sent w1 @ [req']\<rparr>) of (received, w2) \<Rightarrow>
         (case transport c (sent w1) req' of
            Inl e \<Rightarrow> (Inl e, req', w2)
          | Inr resp \<Rightarrow>
              let h = removeHopByHopHeaders (Header resp)
              in if ParseTime (hdr_Get h ''Date'') = None
                 then (case now c w2 of (t, w3) \<Rightarrow>
                         (Inr \<lparr>fw_resp = resp\<lparr>Header := gm_set h ''Date'' (Some [FormatHTTP t])\<rparr>,
                               fw_created = created, fw_received = received\<rparr>, req', w3))
                 else (Inr \<lparr>fw_resp = resp\<lparr>Header := h\<rparr>, fw_created = created, fw_received = received\<rparr>,
                       req', w2)))"

text \<open>The request for an upstream cache; cloning leaves the original request as it is.\<close>

definition buildUpstreamRequest :: "bool \<Rightarrow> request \<Rightarrow> URL \<Rightarrow> request" where
  "buildUpstreamRequest proxy r upstream =
     (if proxy then r\<lparr>ReqProxy := Some upstream\<rparr>
      else r\<lparr>ReqHost := Host upstream,
             ReqURL := (ReqURL r)\<lparr>Scheme := Scheme upstream, Host := Host upstream,
                                 Path := Path upstream @ Path (ReqURL r)\<rparr>\<rparr>)"

fun try_upstreams ::
    "'s client \<Rightarrow> bool \<Rightarrow> request \<Rightarrow> URL list \<Rightarrow> 's world \<Rightarrow> forwarded option \<times> 's world" where
  "try_upstreams c proxy req [] w = (None, w)"
| "try_upstreams c proxy req (u # us) w =
     (case forwardRequest c (buildUpstreamRequest proxy req u) w of
        (Inl e, _, w') \<Rightarrow> try_upstreams c proxy req us w'
      | (Inr f, _, w') \<Rightarrow> (Some f, w'))"

definition forwardRequestWithUpstream ::
    "'s client \<Rightarrow> request \<Rightarrow> UpstreamCache \<Rightarrow> 's world \<Rightarrow> (net_error + forwarded) \<times> request \<times> 's world" where
  "forwardRequestWithUpstream c req upstreamCache w =
     (case try_upstreams c (Proxy upstreamCache) req (Uris upstreamCache) w of
        (Some f, w') \<Rightarrow> (Inr f, req, w')
      | (None, w') \<Rightarrow> forwardRequest c req w')"

section \<open>Conditional requests\<close>

text \<open>The most recent of several dates: the loop over the valid ones.\<close>

fun latest_date :: "string list \<Rightarrow> time \<Rightarrow> string \<Rightarrow> time \<times> string" where
  "latest_date [] t s = (t, s)"
| "latest_date (d # ds) t s =
     (case ParseTime d of
        None \<Rightarrow> latest_date ds t s
      | Some t' \<Rightarrow> if t < t' then latest_date ds t' d else latest_date ds t s)"

definition entry_values :: "CachedResponses Entry \<Rightarrow> string \<Rightarrow> string list" where
  "entry_values dbEntry name = concat (map (\<lambda>r. slice (hdr_index (RespHeaders r) name)) (Value dbEntry))"

definition addConditionalRequestInformation ::
    "request \<Rightarrow> CachedResponses Entry \<Rightarrow> request \<times> bool \<times> bool" where
  "addConditionalRequestInformation req dbEntry =
     (let originalIfNoneMatch = hdr_index (ReqHeader req) ''If-None-Match'';
          originalIfModifiedSince = hdr_index (ReqHeader req) ''If-Modified-Since'';
          cached = entry_values dbEntry ''Etag'';
          modified = entry_values dbEntry ''Last-Modified'';
          etags = (if cached \<noteq> [] then cached @ slice originalIfNoneMatch else []);
          h1 = (if cached \<noteq> [] then gm_set (ReqHeader req) ''If-None-Match'' (Some [Join etags '', ''])
                else ReqHeader req);
          h2 = (if modified = [] \<or> originalIfModifiedSince \<noteq> None then h1
                else if length modified = 1 then gm_set h1 ''If-Modified-Since'' (Some [hd modified])
                else (case latest_date modified 0 [] of (t, s) \<Rightarrow>
                        if t \<noteq> 0 then gm_set h1 ''If-Modified-Since'' (Some [s]) else h1));
          lastModified = (if modified \<noteq> [] \<and> originalIfModifiedSince \<noteq> None then [] else modified)
      in (req\<lparr>ReqHeader := h2\<rparr>, etags \<noteq> [] \<or> lastModified \<noteq> [],
          slice originalIfNoneMatch \<noteq> [] \<or> slice originalIfModifiedSince \<noteq> []))"

text \<open>The fields of the 304 answer update those of the stored response.\<close>

definition updated_headers :: "header \<Rightarrow> header \<Rightarrow> header" where
  "updated_headers stored fresh = gm_copy stored (filter (\<lambda>(k, v). k \<noteq> ''Content-Length'') fresh)"

definition refreshResponseAndServe ::
    "'s client \<Rightarrow> string \<Rightarrow> CachedResponses Entry \<Rightarrow> nat \<Rightarrow> forwarded \<Rightarrow> 's world
     \<Rightarrow> (body http_response \<times> 's world) go" where
  "refreshResponseAndServe c cacheKey dbEntry idx fw w =
     (let cachedResp = Value dbEntry ! idx;
          headers = updated_headers (RespHeaders cachedResp) (Header (fw_resp fw))
      in case now c w of (t, w1) \<Rightarrow>
         let creation = GetEstimatedResponseCreation (Header (fw_resp fw)) (fw_created fw) (fw_received fw) t;
             cachedResp' = cachedResp\<lparr>RespHeaders := headers, TimeAtResponseCreation := creation\<rparr>;
             dbEntry' = dbEntry\<lparr>Value := (Value dbEntry)[idx := cachedResp']\<rparr>
         in case cache_Save (cenv c) (wcache w1) cacheKey dbEntry' of (_, k) \<Rightarrow>
            case now c (w1\<lparr>wcache := k\<rparr>) of (t', w2) \<Rightarrow>
            (case cache_Open (cenv c) t' (wcache w2) (ContentHash cachedResp) of
               Panic m \<Rightarrow> Panic m
             | Ret (Inl e, k') \<Rightarrow> Panic ''Unable to serve cached entry''
             | Ret (Inr bytes, k') \<Rightarrow>
                 (case now c (w2\<lparr>wcache := k'\<rparr>) of (t'', w3) \<Rightarrow>
                    Ret (\<lparr>StatusCode = StatusOK,
                          Header = hdr_Set headers ''Age'' (age_string (GetCurrentAge creation t'')),
                          Body = FileBody bytes\<rparr>, w3))))"

text \<open>The index of the first stored response whose entity tag matches.\<close>

fun find_etag :: "string \<Rightarrow> CachedResponses \<Rightarrow> nat \<Rightarrow> nat option go" where
  "find_etag etag [] i = Ret None"
| "find_etag etag (r # rs) i =
     (case EtagsMatch etag (hdr_Get (RespHeaders r) ''Etag'') of
        Panic m \<Rightarrow> Panic m
      | Ret True \<Rightarrow> Ret (Some i)
      | Ret False \<Rightarrow> find_etag etag rs (Suc i))"

fun find_modified :: "string \<Rightarrow> CachedResponses \<Rightarrow> nat \<Rightarrow> nat option" where
  "find_modified date [] i = None"
| "find_modified date (r # rs) i =
     (if date = hdr_Get (RespHeaders r) ''Last-Modified'' then Some i else find_modified date rs (Suc i))"

definition serve_refreshed ::
    "'s client \<Rightarrow> string \<Rightarrow> CachedResponses Entry \<Rightarrow> nat \<Rightarrow> forwarded \<Rightarrow> 's world
     \<Rightarrow> (body http_response option \<times> 's world) go" where
  "serve_refreshed c key dbEntry i fw w =
     (case refreshResponseAndServe c key dbEntry i fw w of
        Panic m \<Rightarrow> Panic m | Ret (r, w') \<Rightarrow> Ret (Some r, w'))"

text \<open>\<open>None\<close> stands for the error that no entry matches.\<close>

definition updateCache ::
    "'s client \<Rightarrow> string \<Rightarrow> CachedResponses Entry \<Rightarrow> forwarded \<Rightarrow> 's world
     \<Rightarrow> (body http_response option \<times> 's world) go" where
  "updateCache c cacheKey dbEntry fw w =
     (let etag = hdr_Get (Header (fw_resp fw)) ''Etag'';
          lastModified = hdr_Get (Header (fw_resp fw)) ''Last-Modified''
      in case (if etag \<noteq> [] then find_etag etag (Value dbEntry) 0 else Ret None) of
           Panic m \<Rightarrow> Panic m
         | Ret (Some i) \<Rightarrow> serve_refreshed c cacheKey dbEntry i fw w
         | Ret None \<Rightarrow>
             (case (if lastModified \<noteq> [] then find_modified lastModified (Value dbEntry) 0 else None) of
                Some i \<Rightarrow> serve_refreshed c cacheKey dbEntry i fw w
              | None \<Rightarrow> Ret (None, w)))"

section \<open>Ingestion\<close>

definition setupIngestion ::
    "'s client \<Rightarrow> request \<Rightarrow> forwarded \<Rightarrow> string \<Rightarrow> CachedResponses Entry \<Rightarrow> 's world \<Rightarrow> body \<times> 's world" where
  "setupIngestion c req fw cacheKey dbEntry w =
     (case cache_SetupIngestion (cenv c) (tmp_names c (ticks w)) (disk_space c) (clk c (ticks w)) (wcache w)
             (Body (fw_resp fw)) of
        (PlainBody r, k) \<Rightarrow> (NetBody r, w\<lparr>wcache := k\<rparr>)
      | (IngestBody g, k) \<Rightarrow>
          (TeeBody g \<lparr>ctx_req = req, ctx_status = StatusCode (fw_resp fw), ctx_header = Header (fw_resp fw),
                      ctx_created = fw_created fw, ctx_received = fw_received fw, ctx_key = cacheKey,
                      ctx_entry = dbEntry\<rparr>, w\<lparr>wcache := k\<rparr>))"

text \<open>Replacing the first stored variant that the request matches, or appending a new one.\<close>

fun replace_variant :: "header \<Rightarrow> CachedResponse \<Rightarrow> CachedResponses \<Rightarrow> CachedResponses" where
  "replace_variant h new [] = [new]"
| "replace_variant h new (r # rs) =
     (if MatchVaryHeaders h (VaryHeaders r) then new # rs else r # replace_variant h new rs)"

definition ingested_response :: "ingest_ctx \<Rightarrow> string \<Rightarrow> time \<Rightarrow> CachedResponse" where
  "ingested_response x hash t =
     \<lparr>ContentHash = hash, RespStatus = ctx_status x, RespHeaders = ctx_header x,
      VaryHeaders = ExtractVaryHeaders (ReqHeader (ctx_req x)) (ctx_header x),
      TimeAtResponseCreation = GetEstimatedResponseCreation (ctx_header x) (ctx_created x) (ctx_received x) t\<rparr>"

definition onIngest :: "'s client \<Rightarrow> ingest_ctx \<Rightarrow> string \<Rightarrow> 's world \<Rightarrow> 's world" where
  "onIngest c x hash w =
     (case now c w of (t, w1) \<Rightarrow>
        let cacheResp = ingested_response x hash t
        in if version (ctx_entry x) \<noteq> 0
           then w1\<lparr>wcache := snd (cache_Save (cenv c) (wcache w1) (ctx_key x)
                  ((ctx_entry x)\<lparr>Value := replace_variant (ReqHeader (ctx_req x)) cacheResp (Value (ctx_entry x))\<rparr>))\<rparr>
           else w1\<lparr>wcache := snd (cache_New (cenv c) (wcache w1) (ctx_key x) [cacheResp])\<rparr>)"

text \<open>Closing a body that is being ingested.\<close>

definition close_ingested ::
    "'s client \<Rightarrow> ingestion \<Rightarrow> ingest_ctx \<Rightarrow> 's world \<Rightarrow> (close_result \<times> ingestion \<times> 's world) go" where
  "close_ingested c g x w =
     (case ingest_Close (osf (cenv c)) (blake3 (cenv c)) (fcache (cenv c)) (clk c (ticks w)) g (cfs (wcache w)) of
        Panic m \<Rightarrow> Panic m
      | Ret (r, g', t) \<Rightarrow>
          let w1 = w\<lparr>wcache := (wcache w)\<lparr>cfs := t\<rparr>\<rparr>
          in Ret (r, g', case cl_hash r of None \<Rightarrow> w1 | Some h \<Rightarrow> onIngest c x h w1))"

section \<open>Do\<close>

definition net_response :: "reader http_response \<Rightarrow> body http_response" where
  "net_response r = \<lparr>StatusCode = StatusCode r, Header = Header r, Body = NetBody (Body r)\<rparr>"

type_synonym do_result = "net_error + body http_response"

text \<open>The last part of \<open>Do\<close>: the response is passed on, and ingested on the way if it may be stored.\<close>

definition do_store ::
    "'s client \<Rightarrow> request \<Rightarrow> string \<Rightarrow> CachedResponses Entry \<Rightarrow> forwarded \<Rightarrow> 's world \<Rightarrow> (do_result \<times> 's world) go" where
  "do_store c req cacheKey dbEntry fw w =
     (case IsCacheable (fw_resp fw) (isPrivate c) of (isCacheable, explicitlyConfigured) \<Rightarrow>
        if \<not> isCacheable \<and> explicitlyConfigured
        then Ret (Inr (net_response (fw_resp fw)), notify ''miss'' w)
        else (case setupIngestion c req fw cacheKey dbEntry (notify ''miss'' w) of (b, w') \<Rightarrow>
                Ret (Inr \<lparr>StatusCode = StatusCode (fw_resp fw), Header = Header (fw_resp fw), Body = b\<rparr>, w')))"

text \<open>Serving a stale response instead of a failure; \<open>None\<close> when there is none.\<close>

definition serve_stale ::
    "'s client \<Rightarrow> request \<Rightarrow> CachedResponses Entry \<Rightarrow> 's world \<Rightarrow> (body http_response option \<times> 's world) go" where
  "serve_stale c req dbEntry w =
     (if version dbEntry = 0 then Ret (None, w) else serveFromCache c req dbEntry True w)"

definition is_failure :: "net_error + forwarded \<Rightarrow> bool" where
  "is_failure r = (case r of Inl e \<Rightarrow> True | Inr f \<Rightarrow> 500 \<le> StatusCode (fw_resp f))"

definition upstream_result :: "net_error + forwarded \<Rightarrow> do_result" where
  "upstream_result r = (case r of Inl e \<Rightarrow> Inl e | Inr f \<Rightarrow> Inr (net_response (fw_resp f)))"

definition drain :: "net_error + forwarded \<Rightarrow> 's world \<Rightarrow> 's world" where
  "drain r w = (case r of Inl e \<Rightarrow> w | Inr f \<Rightarrow> w\<lparr>drained := drained w @ [Body (fw_resp f)]\<rparr>)"

text \<open>
  The retry with the original request, after a 304 answer that matched no stored response. A
  stale response replaces a failure; the body of a failed answer is not drained there.
\<close>

definition do_retry ::
    "'s client \<Rightarrow> request \<Rightarrow> request \<Rightarrow> UpstreamCache \<Rightarrow> string \<Rightarrow> CachedResponses Entry \<Rightarrow> 's world
     \<Rightarrow> (do_result \<times> 's world) go" where
  "do_retry c req originalRequest upstreamCache cacheKey dbEntry w =
     (case forwardRequestWithUpstream c originalRequest upstreamCache w of (res, _, w1) \<Rightarrow>
        if is_failure res then
          (case serve_stale c req dbEntry w1 of
             Panic m \<Rightarrow> Panic m
           | Ret (Some r, w2) \<Rightarrow> Ret (Inr r, notify ''hit'' w2)
           | Ret (None, w2) \<Rightarrow> Ret (upstream_result res, w2))
        else (case res of
                Inl e \<Rightarrow> Ret (Inl e, w1)
              | Inr fw \<Rightarrow> do_store c req cacheKey dbEntry fw w1))"

text \<open>After an answer that is no failure: revalidation, or passing the response on.\<close>

definition do_answered ::
    "'s client \<Rightarrow> request \<Rightarrow> request \<Rightarrow> UpstreamCache \<Rightarrow> string \<Rightarrow> CachedResponses Entry \<Rightarrow> bool \<Rightarrow> bool
     \<Rightarrow> forwarded \<Rightarrow> 's world \<Rightarrow> (do_result \<times> 's world) go" where
  "do_answered c req originalRequest upstreamCache cacheKey dbEntry hasCond wasCond fw w =
     (if hasCond \<and> StatusCode (fw_resp fw) = 304 then
        (case updateCache c cacheKey dbEntry fw w of
           Panic m \<Rightarrow> Panic m
         | Ret (Some r, w1) \<Rightarrow> Ret (Inr r, notify ''revalidated'' w1)
         | Ret (None, w1) \<Rightarrow>
             if wasCond then Ret (Inr (net_response (fw_resp fw)), notify ''miss'' w1)
             else do_retry c req originalRequest upstreamCache cacheKey dbEntry w1)
      else do_store c req cacheKey dbEntry fw w)"

text \<open>The part of \<open>Do\<close> after the cache could not answer.\<close>

definition do_upstream ::
    "'s client \<Rightarrow> request \<Rightarrow> UpstreamCache \<Rightarrow> string \<Rightarrow> CachedResponses Entry \<Rightarrow> 's world
     \<Rightarrow> (do_result \<times> 's world) go" where
  "do_upstream c originalRequest upstreamCache cacheKey dbEntry w =
     (case (if version dbEntry \<noteq> 0 then addConditionalRequestInformation originalRequest dbEntry
            else (originalRequest, False, False)) of (req, hasCond, wasCond) \<Rightarrow>
      case forwardRequestWithUpstream c req upstreamCache w of (res, req', w1) \<Rightarrow>
        if is_failure res then
          (case serve_stale c req' dbEntry w1 of
             Panic m \<Rightarrow> Panic m
           | Ret (Some r, w2) \<Rightarrow> Ret (Inr r, notify ''hit'' (drain res w2))
           | Ret (None, w2) \<Rightarrow> Ret (upstream_result res, w2))
        else
          (case res of
             Inl e \<Rightarrow> Ret (Inl e, w1)
           | Inr fw \<Rightarrow>
               if StatusCode (fw_resp fw) = 429 then
                 (case serve_stale c req' dbEntry w1 of
                    Panic m \<Rightarrow> Panic m
                  | Ret (Some r, w2) \<Rightarrow> Ret (Inr r, notify ''hit'' (drain res w2))
                  | Ret (None, w2) \<Rightarrow>
                      do_answered c req' originalRequest upstreamCache cacheKey dbEntry hasCond wasCond fw w2)
               else do_answered c req' originalRequest upstreamCache cacheKey dbEntry hasCond wasCond fw w1))"

text \<open>\<open>pooled\<close> is the entry taken from the pool, which holds what its last user left in it.\<close>

definition Do ::
    "'s client \<Rightarrow> CachedResponses Entry \<Rightarrow> request \<Rightarrow> UpstreamCache \<Rightarrow> 's world \<Rightarrow> (do_result \<times> 's world) go" where
  "Do c pooled req upstreamCache w =
     (if Method req \<noteq> ''GET'' \<and> Method req \<noteq> ''HEAD'' then
        (case forwardRequest c req w of (res, _, w1) \<Rightarrow> Ret (upstream_result res, notify ''miss'' w1))
      else
        (case cache_Get (cenv c) (wcache w) (buildKey req) pooled of
           (None, dbEntry) \<Rightarrow>
             (case serveFromCache c req dbEntry False w of
                Panic m \<Rightarrow> Panic m
              | Ret (Some r, w1) \<Rightarrow> Ret (Inr r, notify ''hit'' w1)
              | Ret (None, w1) \<Rightarrow> do_upstream c req upstreamCache (buildKey req) dbEntry w1)
         | (Some e, dbEntry) \<Rightarrow> do_upstream c req upstreamCache (buildKey req) dbEntry w))"

end
