(* ===== verification/Serving.thy ===== *)
theory Serving
  imports Client CacheConsistency
begin

text \<open>
  What the client does with a request: when it answers from the cache, that it asks the upstream
  otherwise, that it falls back on stale responses, and what it passes on.
\<close>


section \<open>Serving\<close>

text \<open>What serving leaves as it was; only file times and the clock move.\<close>

definition same_store :: "'s world \<Rightarrow> 's world \<Rightarrow> bool" where
  "same_store w w' \<longleftrightarrow> cdb (wcache w') = cdb (wcache w) \<and> blob (cfs (wcache w')) = blob (cfs (wcache w)) \<and>
     sent w' = sent w \<and> statuses w' = statuses w \<and> drained w' = drained w \<and> ticks w \<le> ticks w'"

lemma same_store_refl [simp]: "same_store w w"
  by (simp add: same_store_def)

lemma same_store_trans: "same_store w w' \<Longrightarrow> same_store w' w'' \<Longrightarrow> same_store w w''"
  by (auto simp: same_store_def)

lemma now_same: "now c w = (t, w') \<Longrightarrow> same_store w w' \<and> t = clk c (ticks w) \<and> ticks w' = Suc (ticks w) \<and> wcache w' = wcache w"
  by (auto simp: now_def same_store_def)

lemma cache_Open_result:
  "cache_Open E t k h = Ret (r, k') \<Longrightarrow>
   cdb k' = cdb k \<and> blob (cfs k') = blob (cfs k) \<and> (\<forall>bytes. r = Inr bytes \<longrightarrow> blob (cfs k) h = Some bytes)"
  by (auto simp: cache_Open_def split: go.splits prod.splits dest: blob_Open fc_Open_content)

lemma same_store_cache: "cdb k = cdb (wcache w) \<Longrightarrow> blob (cfs k) = blob (cfs (wcache w)) \<Longrightarrow> same_store w (w\<lparr>wcache := k\<rparr>)"
  by (simp add: same_store_def)

text \<open>
  A response is an answer from the stored response \<open>x\<close>: its status and fields, the stored body,
  and the age at some reading \<open>i\<close> of the clock.
\<close>

definition answers :: "'s client \<Rightarrow> 's world \<Rightarrow> CachedResponse \<Rightarrow> nat \<Rightarrow> body http_response \<Rightarrow> bool" where
  "answers c w x i r \<longleftrightarrow>
     (\<exists>bytes. blob (cfs (wcache w)) (ContentHash x) = Some bytes \<and>
        r = \<lparr>StatusCode = RespStatus x,
             Header = hdr_Set (RespHeaders x) ''Age'' (age_string (GetCurrentAge (TimeAtResponseCreation x) (clk c i))),
             Body = FileBody bytes\<rparr>)"

text \<open>A stored response may be served without asking upstream at the reading \<open>i\<close> of the clock.\<close>

definition reusable :: "'s client \<Rightarrow> CachedResponse \<Rightarrow> nat \<Rightarrow> bool" where
  "reusable c x i \<longleftrightarrow> \<not> NoCache (stored_cc x) \<and> \<not> MustRevalidate (stored_cc x) \<and>
     snd (IsFresh (RespHeaders x) (stored_cc x) (TimeAtResponseCreation x) (clk c i))"

lemma answers_same: "same_store w w' \<Longrightarrow> answers c w' x i r \<longleftrightarrow> answers c w x i r"
  by (simp add: answers_def same_store_def)

lemma serve_loop_Cons:
  assumes "serve_loop c force (x # rs) w = Ret (ro, w')"
  obtains (skip) w1 where "same_store w w1" "serve_loop c force rs w1 = Ret (ro, w')"
  | (serve) r i where "ro = Some r" "same_store w w'" "ticks w \<le> i" "i < ticks w'"
      "answers c w x i r" "force \<or> reusable c x i"
proof -
  let ?skip = "\<not> force \<and> (NoCache (stored_cc x) \<or> MustRevalidate (stored_cc x))"
  obtain t w1 where n1: "now c w = (t, w1)" by (cases "now c w")
  obtain age fresh where f: "IsFresh (RespHeaders x) (stored_cc x) (TimeAtResponseCreation x) t = (age, fresh)"
    by (cases "IsFresh (RespHeaders x) (stored_cc x) (TimeAtResponseCreation x) t")
  obtain t2 w2 where n2: "now c w1 = (t2, w2)" by (cases "now c w1")
  note s1 = now_same [OF n1] and s2 = now_same [OF n2]
  consider ?skip | "\<not> ?skip" "\<not> (fresh \<or> force)" | "\<not> ?skip" "fresh \<or> force" by blast
  then show thesis
  proof cases
    case 1
    then show thesis using assms by (intro skip [of w]) simp_all
  next
    case 2
    then show thesis using assms n1 f s1 by (intro skip [of w1]) simp_all
  next
    case 3
    then obtain res k where o: "cache_Open (cenv c) t2 (wcache w2) (ContentHash x) = Ret (res, k)"
      using assms n1 f n2 by (cases "cache_Open (cenv c) t2 (wcache w2) (ContentHash x)") auto
    note ro = cache_Open_result [OF o]
    have s: "same_store w (w2\<lparr>wcache := k\<rparr>)"
      using s1 s2 ro by (auto simp: same_store_def)
    show thesis
    proof (cases res)
      case (Inl e)
      then show thesis using assms 3 n1 f n2 o s by (intro skip [of "w2\<lparr>wcache := k\<rparr>"]) simp_all
    next
      case (Inr bytes)
      have age: "age = GetCurrentAge (TimeAtResponseCreation x) (clk c (ticks w))"
        using f s1 by (auto simp: IsFresh_def Let_def)
      have "\<not> force \<Longrightarrow> reusable c x (ticks w)" using 3 f s1 by (simp add: reusable_def)
      moreover have r: "ro = Some \<lparr>StatusCode = RespStatus x, Header = hdr_Set (RespHeaders x) ''Age'' (age_string age),
          Body = FileBody bytes\<rparr>" "w' = w2\<lparr>wcache := k\<rparr>"
        using assms 3 n1 f n2 o Inr by auto
      moreover have "blob (cfs (wcache w)) (ContentHash x) = Some bytes"
        using ro Inr s1 s2 by simp
      ultimately show thesis
        using s s1 s2 age by (intro serve [of _ "ticks w"]) (auto simp: answers_def)
    qed
  qed
qed

lemma serve_loop_result:
  assumes "serve_loop c force rs w = Ret (ro, w')"
  shows "same_store w w' \<and> (\<forall>r. ro = Some r \<longrightarrow>
    (\<exists>x \<in> set rs. \<exists>i. ticks w \<le> i \<and> i < ticks w' \<and> answers c w x i r \<and> (force \<or> reusable c x i)))"
  using assms
proof (induction rs arbitrary: w)
  case (Cons x rs)
  from Cons.prems show ?case
  proof (cases rule: serve_loop_Cons)
    case (skip w1)
    have "ticks w \<le> ticks w1" using skip(1) by (simp add: same_store_def)
    with Cons.IH [OF skip(2)] skip(1) show ?thesis
      by (fastforce simp: answers_same intro: same_store_trans)
  next
    case serve
    then show ?thesis by auto
  qed
qed simp

subsection \<open>The most recent candidates\<close>

lemma fold_max_ge: "m \<le> fold max ds (m :: int)" and fold_max_all: "d \<in> set ds \<Longrightarrow> d \<le> fold max ds m"
  and fold_max_in: "fold max ds m = m \<or> fold max ds m \<in> set ds"
proof -
  have "m \<le> fold max ds m \<and> (\<forall>d \<in> set ds. d \<le> fold max ds m) \<and> (fold max ds m = m \<or> fold max ds m \<in> set ds)"
  proof (induction ds arbitrary: m)
    case (Cons a ds)
    from Cons.IH [of "max a m"] show ?case by (auto simp: max_def split: if_splits)
  qed simp
  then show "m \<le> fold max ds m" "d \<in> set ds \<Longrightarrow> d \<le> fold max ds m" "fold max ds m = m \<or> fold max ds m \<in> set ds"
    by blast+
qed

lemma most_recent_loop_filter:
  "most_recent_loop rs acc m =
     (if fold max (map candidate_date rs) m = m then acc else []) @
     filter (\<lambda>r. candidate_date r = fold max (map candidate_date rs) m) rs"
proof (induction rs arbitrary: acc m)
  case (Cons r rs)
  let ?M = "\<lambda>m. fold max (map candidate_date rs) m"
  consider "m < candidate_date r" | "candidate_date r = m" | "candidate_date r < m" by linarith
  then show ?case
  proof cases
    case 1
    then have "max (candidate_date r) m = candidate_date r" "?M (candidate_date r) \<noteq> m"
      using fold_max_ge [of "candidate_date r" "map candidate_date rs"] by auto
    with 1 Cons.IH [of "[r]" "candidate_date r"] show ?thesis by auto
  next
    case 2
    then show ?thesis using Cons.IH [of "acc @ [r]" m] by auto
  next
    case 3
    then have "max (candidate_date r) m = m" "?M m \<noteq> candidate_date r"
      using fold_max_ge [of m "map candidate_date rs"] by auto
    with 3 Cons.IH [of acc m] show ?thesis by auto
  qed
qed simp

lemma most_recent_filter:
  "selectMostRecentCandidates rs =
     filter (\<lambda>r. 0 \<le> candidate_date r \<and> (\<forall>q \<in> set rs. candidate_date q \<le> candidate_date r)) rs"
proof -
  let ?M = "fold max (map candidate_date rs) 0"
  have "candidate_date r = ?M \<longleftrightarrow> 0 \<le> candidate_date r \<and> (\<forall>q \<in> set rs. candidate_date q \<le> candidate_date r)"
    if "r \<in> set rs" for r
    using that fold_max_ge [of 0 "map candidate_date rs"] fold_max_all [of _ "map candidate_date rs" 0]
      fold_max_in [of "map candidate_date rs" 0]
    by (auto intro: order.antisym)
  then show ?thesis
    unfolding selectMostRecentCandidates_def most_recent_loop_filter by (simp cong: filter_cong)
qed

section \<open>Forwarding\<close>

lemma forwardRequest_result:
  assumes "forwardRequest c req w = (res, req', w')"
  shows "req' = req\<lparr>ReqHeader := removeHopByHopHeaders (ReqHeader req)\<rparr> \<and> sent w' = sent w @ [req'] \<and>
    wcache w' = wcache w \<and> statuses w' = statuses w \<and> drained w' = drained w \<and> ticks w < ticks w'"
  using assms
  by (auto simp: forwardRequest_def now_def Let_def split: sum.splits if_splits)

lemma forwardRequest_response:
  assumes "forwardRequest c req w = (Inr f, req', w')"
  shows "\<exists>resp i. transport c (sent w) req' = Inr resp \<and> StatusCode (fw_resp f) = StatusCode resp \<and>
    Body (fw_resp f) = Body resp \<and> fw_created f = clk c (ticks w) \<and> fw_received f = clk c (Suc (ticks w)) \<and>
    Header (fw_resp f) =
      (if ParseTime (hdr_Get (removeHopByHopHeaders (Header resp)) ''Date'') = None
       then gm_set (removeHopByHopHeaders (Header resp)) ''Date'' (Some [FormatHTTP (clk c i)])
       else removeHopByHopHeaders (Header resp))"
  using assms
  by (auto simp: forwardRequest_def now_def Let_def split: sum.splits if_splits)

lemma try_upstreams_frame:
  assumes "try_upstreams c proxy req us w = (fo, w')"
  shows "length (sent w) \<le> length (sent w') \<and> wcache w' = wcache w \<and> statuses w' = statuses w \<and>
    drained w' = drained w \<and> ticks w \<le> ticks w' \<and> (fo \<noteq> None \<longrightarrow> length (sent w) < length (sent w'))"
  using assms
proof (induction us arbitrary: w)
  case (Cons u us)
  obtain res req' w1 where f: "forwardRequest c (buildUpstreamRequest proxy req u) w = (res, req', w1)"
    by (cases "forwardRequest c (buildUpstreamRequest proxy req u) w")
  show ?case
    using Cons.IH [of w1] Cons.prems f forwardRequest_result [OF f] by (cases res) auto
qed simp

lemma forwardRequestWithUpstream_frame:
  assumes "forwardRequestWithUpstream c req up w = (res, req', w')"
  shows "length (sent w) < length (sent w') \<and> wcache w' = wcache w \<and> statuses w' = statuses w \<and>
    drained w' = drained w \<and> ticks w \<le> ticks w' \<and>
    (req' = req \<or> req' = req\<lparr>ReqHeader := removeHopByHopHeaders (ReqHeader req)\<rparr>)"
proof -
  obtain fo w1 where t: "try_upstreams c (Proxy up) req (Uris up) w = (fo, w1)"
    by (cases "try_upstreams c (Proxy up) req (Uris up) w")
  show ?thesis
    using assms t try_upstreams_frame [OF t] forwardRequest_result [of c req w1 res req' w']
    by (cases fo) (auto simp: forwardRequestWithUpstream_def)
qed

text \<open>The header of a forwarded response: a valid date, no hop-by-hop field.\<close>

definition clean_header :: "header \<Rightarrow> bool" where
  "clean_header h \<longleftrightarrow> ParseTime (hdr_Get h ''Date'') \<noteq> None \<and> (\<forall>k \<in> set hop_by_hop_names. \<not> hdr_has h k)"

text \<open>An instant of the years 1 to 9999.\<close>

definition four_digit_year :: "time \<Rightarrow> bool" where
  "four_digit_year t \<longleftrightarrow> 0 \<le> t \<and> t div Second div 86400 < days_before_year 10000"

lemma hdr_Get_set: "CanonicalHeaderKey k = k \<Longrightarrow> hdr_Get (gm_set h k (Some [v])) k = v"
  by (simp add: hdr_Get_def hdr_Values_def)

lemma forwardRequest_clean:
  assumes "forwardRequest c req w = (Inr f, req', w')" and "\<And>i. four_digit_year (clk c i)"
  shows "clean_header (Header (fw_resp f))"
proof -
  have p: "ParseTime (FormatHTTP (clk c i)) \<noteq> None" for i
    using ParseTime_FormatHTTP [of "clk c i"] assms(2) [of i] by (simp add: four_digit_year_def)
  have d: "''Date'' \<notin> set hop_by_hop_names" by (simp add: hop_by_hop_names_def)
  obtain resp :: "reader http_response" and i where h: "Header (fw_resp f) =
      (if ParseTime (hdr_Get (removeHopByHopHeaders (Header resp)) ''Date'') = None
       then gm_set (removeHopByHopHeaders (Header resp)) ''Date'' (Some [FormatHTTP (clk c i)])
       else removeHopByHopHeaders (Header resp))"
    using forwardRequest_response [OF assms(1)] by blast
  show ?thesis
    unfolding h using p d
    by (cases "ParseTime (hdr_Get (removeHopByHopHeaders (Header resp)) ''Date'')")
      (auto simp: clean_header_def hdr_Get_set hdr_has_removeHopByHop)
qed

lemma try_upstreams_clean:
  assumes "try_upstreams c proxy req us w = (Some f, w')" and "\<And>i. four_digit_year (clk c i)"
  shows "clean_header (Header (fw_resp f))"
  using assms(1)
proof (induction us arbitrary: w)
  case (Cons u us)
  obtain res req' w1 where r: "forwardRequest c (buildUpstreamRequest proxy req u) w = (res, req', w1)"
    by (cases "forwardRequest c (buildUpstreamRequest proxy req u) w")
  show ?case
    using Cons r forwardRequest_clean [OF _ assms(2)] by (cases res) auto
qed simp

section \<open>Do contacts the upstream or serves a fresh response\<close>

definition sends :: "'s world \<Rightarrow> 's world \<Rightarrow> bool" where
  "sends w w' \<longleftrightarrow> length (sent w) \<le> length (sent w')"

lemma same_store_sends: "same_store w w' \<Longrightarrow> sends w w'"
  by (simp add: same_store_def sends_def)

lemma sends_simps [simp]: "sends w w" "sends w (notify s w') \<longleftrightarrow> sends w w'"
  "sends w (drain res w') \<longleftrightarrow> sends w w'" "sends w (w'\<lparr>wcache := k\<rparr>) \<longleftrightarrow> sends w w'"
  by (simp_all add: sends_def notify_def drain_def split: sum.splits)

lemma sends_trans: "sends w w' \<Longrightarrow> sends w' w'' \<Longrightarrow> sends w w''"
  by (simp add: sends_def)

lemma serveFromCache_result:
  assumes "serveFromCache c req e force w = Ret (ro, w')"
  shows "same_store w w' \<and> (\<forall>r. ro = Some r \<longrightarrow>
    (\<exists>x \<in> set (selectMostRecentCandidates (selectResponseCandidates req e)). \<exists>i.
       ticks w \<le> i \<and> i < ticks w' \<and> answers c w x i r \<and> (force \<or> reusable c x i)))"
  using assms serve_loop_result [of c force "selectMostRecentCandidates (selectResponseCandidates req e)" w ro w']
  by (auto simp: serveFromCache_def serveFromCachedCandidates_def split: list.splits)

lemma serve_stale_result:
  assumes "serve_stale c req e w = Ret (ro, w')"
  shows "same_store w w' \<and> (\<forall>r. ro = Some r \<longrightarrow> version e \<noteq> 0 \<and>
    (\<exists>x \<in> set (selectMostRecentCandidates (selectResponseCandidates req e)). \<exists>i. answers c w x i r))"
proof (cases "version e = 0")
  case True
  then show ?thesis using assms by (simp add: serve_stale_def)
next
  case False
  then have "serveFromCache c req e True w = Ret (ro, w')" using assms by (simp add: serve_stale_def)
  from serveFromCache_result [OF this] False show ?thesis by blast
qed

lemma serve_stale_sends: "serve_stale c req e w = Ret (ro, w') \<Longrightarrow> sends w w'"
  using serve_stale_result same_store_sends by blast

lemma refresh_sends:
  "refreshResponseAndServe c key e i fw w = Ret (r, w') \<Longrightarrow> sends w w'"
  by (auto simp: refreshResponseAndServe_def now_def sends_def Let_def split: prod.splits go.splits sum.splits)

lemma updateCache_sends: "updateCache c key e fw w = Ret (ro, w') \<Longrightarrow> sends w w'"
  by (auto simp: updateCache_def serve_refreshed_def Let_def split: go.splits option.splits prod.splits if_splits
      dest: refresh_sends)

lemma do_store_sends: "do_store c req key e fw w = Ret (res, w') \<Longrightarrow> sends w w'"
  by (auto simp: do_store_def setupIngestion_def split: prod.splits if_splits body_reader.splits)

lemma do_retry_sends:
  assumes "do_retry c req orig up key e w = Ret (res, w')" shows "sends w w'"
proof -
  obtain r q w1 where f: "forwardRequestWithUpstream c orig up w = (r, q, w1)"
    by (cases "forwardRequestWithUpstream c orig up w")
  have "sends w w1" using forwardRequestWithUpstream_frame [OF f] by (simp add: sends_def)
  moreover have "sends w1 w'"
    using assms f
    by (auto simp: do_retry_def split: if_splits go.splits option.splits sum.splits prod.splits
        dest: do_store_sends serve_stale_sends)
  ultimately show ?thesis by (rule sends_trans)
qed

lemma do_answered_sends:
  "do_answered c req orig up key e hc wc fw w = Ret (res, w') \<Longrightarrow> sends w w'"
  by (auto simp: do_answered_def split: if_splits go.splits option.splits prod.splits
      dest: do_store_sends updateCache_sends do_retry_sends intro: sends_trans)

lemma do_upstream_sends:
  assumes "do_upstream c req up key e w = Ret (res, w')"
  shows "length (sent w) < length (sent w')"
proof -
  obtain rq hc wc where a: "(if version e \<noteq> 0 then addConditionalRequestInformation req e else (req, False, False)) = (rq, hc, wc)"
    by (metis prod_cases3)
  obtain r q w1 where f: "forwardRequestWithUpstream c rq up w = (r, q, w1)"
    by (cases "forwardRequestWithUpstream c rq up w")
  have "sends w1 w'"
    using assms f unfolding do_upstream_def a
    by (auto split: if_splits go.splits option.splits sum.splits prod.splits
        dest: do_answered_sends serve_stale_sends intro: sends_trans)
  then show ?thesis using forwardRequestWithUpstream_frame [OF f] by (simp add: sends_def)
qed

section \<open>Serving succeeds\<close>

lemma cache_Open_healthy:
  assumes "osf E = no_faults" "blob (cfs k) h = Some bytes"
  shows "\<exists>k'. cache_Open E t k h = Ret (Inr bytes, k')"
proof -
  have "2 \<le> length h" using assms(2) by (auto simp: blob_def split: if_splits)
  then show ?thesis
    using fc_Open_healthy [of h no_faults t "cfs k"] assms by (auto simp: cache_Open_def no_faults_def)
qed

lemma serve_loop_first:
  assumes "osf (cenv c) = no_faults" "blob (cfs (wcache w)) (ContentHash x) = Some bytes"
    and "force \<or> reusable c x (ticks w)"
  shows "\<exists>r w'. serve_loop c force (x # rs) w = Ret (Some r, w') \<and> answers c w x (ticks w) r"
proof -
  obtain t w1 where n1: "now c w = (t, w1)" by (cases "now c w")
  obtain t2 w2 where n2: "now c w1 = (t2, w2)" by (cases "now c w1")
  note s = now_same [OF n1] now_same [OF n2]
  obtain k where o: "cache_Open (cenv c) t2 (wcache w2) (ContentHash x) = Ret (Inr bytes, k)"
    using cache_Open_healthy [OF assms(1), of "wcache w2" "ContentHash x" bytes t2] assms(2) s by auto
  show ?thesis
    using assms(2,3) n1 n2 s o
    by (auto simp: answers_def reusable_def IsFresh_def Let_def)
qed

text \<open>Matching by Vary depends on the named fields of the request only.\<close>

lemma match_loop_cong:
  "(\<And>n v. (n, v) \<in> set vs \<Longrightarrow> hdr_index h n = hdr_index h' n) \<Longrightarrow> match_loop h vs = match_loop h' vs"
proof (induction vs)
  case (Cons a vs)
  obtain n v where a: "a = (n, v)" by (cases a)
  have "hdr_index h n = hdr_index h' n" using Cons.prems [of n v] a by simp
  moreover have "match_loop h vs = match_loop h' vs" using Cons by (meson list.set_intros(2))
  ultimately show ?case by (simp add: a Let_def)
qed simp

lemma MatchVary_cong:
  "(\<And>n v. (n, v) \<in> set vs \<Longrightarrow> hdr_index h n = hdr_index h' n) \<Longrightarrow> MatchVaryHeaders h vs = MatchVaryHeaders h' vs"
  using match_loop_cong [of vs h h'] by (simp add: MatchVaryHeaders_def)

text \<open>The fields of the request that the client itself changes.\<close>

definition client_fields :: "string set" where
  "client_fields = set hop_by_hop_names \<union> {''If-None-Match'', ''If-Modified-Since''}"

lemma addConditional_index:
  assumes "addConditionalRequestInformation req e = (req', b)" and "k \<notin> client_fields"
  shows "hdr_index (ReqHeader req') k = hdr_index (ReqHeader req) k"
  using assms
  by (auto simp: addConditionalRequestInformation_def Let_def client_fields_def split: prod.splits if_splits)

lemma forwarded_index:
  assumes "forwardRequestWithUpstream c req up w = (res, req', w')" and "k \<notin> client_fields"
  shows "hdr_index (ReqHeader req') k = hdr_index (ReqHeader req) k"
  using forwardRequestWithUpstream_frame [OF assms(1)] assms(2)
  by (auto simp: client_fields_def hdr_index_removeHopByHop)

text \<open>No stored response varies by one of them.\<close>

definition vary_foreign :: "CachedResponses \<Rightarrow> bool" where
  "vary_foreign rs \<longleftrightarrow> (\<forall>r \<in> set rs. \<forall>n \<in> fst ` set (VaryHeaders r). n \<notin> client_fields)"

lemma candidates_cong:
  assumes "\<And>k. k \<notin> client_fields \<Longrightarrow> hdr_index (ReqHeader req') k = hdr_index (ReqHeader req) k"
    and "vary_foreign (Value e)"
  shows "selectResponseCandidates req' e = selectResponseCandidates req e"
  unfolding selectResponseCandidates_def
  by (intro filter_cong refl MatchVary_cong) (use assms in \<open>force simp: vary_foreign_def\<close>)

text \<open>When the upstreams are down, every forwarding fails.\<close>

definition upstream_down :: "'s client \<Rightarrow> bool" where
  "upstream_down c \<longleftrightarrow> (\<forall>hist rq. case transport c hist rq of Inl e \<Rightarrow> True | Inr r \<Rightarrow> 500 \<le> StatusCode r)"

lemma forwardRequest_down:
  assumes "upstream_down c" "forwardRequest c req w = (res, req', w')"
  shows "is_failure res"
proof (cases res)
  case (Inr f)
  then obtain resp where "transport c (sent w) req' = Inr resp" "StatusCode (fw_resp f) = StatusCode resp"
    using forwardRequest_response [of c req w f req' w'] assms(2) by blast
  moreover have "case transport c (sent w) req' of Inl e \<Rightarrow> True | Inr r \<Rightarrow> 500 \<le> StatusCode r"
    using assms(1) unfolding upstream_down_def by blast
  ultimately show ?thesis using Inr by (simp add: is_failure_def)
qed (simp add: is_failure_def)

lemma try_upstreams_down:
  assumes "upstream_down c" "try_upstreams c proxy req us w = (Some f, w')"
  shows "500 \<le> StatusCode (fw_resp f)"
  using assms(2)
proof (induction us arbitrary: w)
  case (Cons u us)
  obtain res req' w1 where r: "forwardRequest c (buildUpstreamRequest proxy req u) w = (res, req', w1)"
    by (cases "forwardRequest c (buildUpstreamRequest proxy req u) w")
  show ?case
    using Cons r forwardRequest_down [OF assms(1) r] by (cases res) (auto simp: is_failure_def)
qed simp

lemma forward_down:
  assumes "upstream_down c" "forwardRequestWithUpstream c req up w = (res, req', w')"
  shows "is_failure res"
proof -
  obtain fo w1 where t: "try_upstreams c (Proxy up) req (Uris up) w = (fo, w1)"
    by (cases "try_upstreams c (Proxy up) req (Uris up) w")
  show ?thesis
    using assms t try_upstreams_down [OF assms(1), of "Proxy up" req "Uris up" w _ w1]
      forwardRequest_down [OF assms(1), of req w1 res req' w']
    by (cases fo) (auto simp: forwardRequestWithUpstream_def is_failure_def)
qed

lemma cache_Open_no_panic: "2 \<le> length h \<Longrightarrow> \<exists>r k'. cache_Open E t k h = Ret (r, k')"
  by (auto simp: cache_Open_def fc_Open_def split_hash_def split: sum.splits)

lemma serve_loop_no_panic: "list_all hash_ok rs \<Longrightarrow> \<exists>ro w'. serve_loop c force rs w = Ret (ro, w')"
proof (induction rs arbitrary: w)
  case (Cons x rs)
  obtain t w1 where n1: "now c w = (t, w1)" by (cases "now c w")
  obtain t2 w2 where n2: "now c w1 = (t2, w2)" by (cases "now c w1")
  obtain res k where o: "cache_Open (cenv c) t2 (wcache w2) (ContentHash x) = Ret (res, k)"
    using cache_Open_no_panic [of "ContentHash x" "cenv c" t2 "wcache w2"] Cons.prems by (auto simp: hash_ok_def)
  have IH: "\<exists>ro w'. serve_loop c force rs w = Ret (ro, w')" for w using Cons by simp
  show ?case
    using n1 n2 o IH by (cases res) (auto split: prod.splits)
qed simp

lemma serveFromCache_no_panic:
  assumes "list_all hash_ok (Value e)"
  shows "\<exists>ro w'. serveFromCache c req e force w = Ret (ro, w')"
proof -
  have "list_all hash_ok (selectMostRecentCandidates (selectResponseCandidates req e))"
    using assms by (auto simp: most_recent_filter selectResponseCandidates_def list_all_iff)
  then show ?thesis
    using serve_loop_no_panic [of "selectMostRecentCandidates (selectResponseCandidates req e)" c force w]
    by (auto simp: serveFromCache_def serveFromCachedCandidates_def split: list.splits)
qed

lemma serveFromCache_first:
  assumes "osf (cenv c) = no_faults" "selectMostRecentCandidates (selectResponseCandidates req e) = x # rs"
    and "blob (cfs (wcache w)) (ContentHash x) = Some bytes" and "force \<or> reusable c x (ticks w)"
  shows "\<exists>r w'. serveFromCache c req e force w = Ret (Some r, w') \<and> answers c w x (ticks w) r"
proof -
  have "selectResponseCandidates req e \<noteq> []" using assms(2) by (auto simp: selectMostRecentCandidates_def)
  then show ?thesis
    using serve_loop_first [OF assms(1,3,4), of rs] assms(2)
    by (auto simp: serveFromCache_def serveFromCachedCandidates_def split: list.splits)
qed

lemma do_upstream_down:
  assumes "osf (cenv c) = no_faults" "upstream_down c" "version e \<noteq> 0"
    and vary: "vary_foreign (Value e)"
    and cand: "selectMostRecentCandidates (selectResponseCandidates req e) = x # rs"
    and body: "blob (cfs (wcache w)) (ContentHash x) = Some bytes"
  shows "\<exists>r w' i. do_upstream c req up key e w = Ret (Inr r, w') \<and> answers c w x i r \<and>
    statuses w' = statuses w @ [''hit'']"
proof -
  obtain rq hc wc where a: "addConditionalRequestInformation req e = (rq, hc, wc)" by (metis prod_cases3)
  obtain res q w1 where f: "forwardRequestWithUpstream c rq up w = (res, q, w1)"
    by (cases "forwardRequestWithUpstream c rq up w")
  have down: "is_failure res" by (rule forward_down [OF assms(2) f])
  have same: "wcache w1 = wcache w" "statuses w1 = statuses w" using forwardRequestWithUpstream_frame [OF f] by auto
  have "selectResponseCandidates q e = selectResponseCandidates req e"
    using candidates_cong [of q req e] addConditional_index [OF a] forwarded_index [OF f] vary by metis
  then obtain r w2 where s: "serveFromCache c q e True w1 = Ret (Some r, w2)" "answers c w1 x (ticks w1) r"
    using serveFromCache_first [OF assms(1), of q e x rs w1 bytes True] cand body same by auto
  have "statuses w2 = statuses w" using serveFromCache_result [OF s(1)] same by (simp add: same_store_def)
  moreover have "answers c w x (ticks w1) r" using s(2) same by (simp add: answers_def)
  moreover have "serve_stale c q e w1 = Ret (Some r, w2)" using s(1) assms(3) by (simp add: serve_stale_def)
  ultimately show ?thesis
    using assms(3) a f down
    by (auto simp: do_upstream_def notify_def drain_def split: sum.splits)
qed

lemma Do_GET:
  assumes "Method req = ''GET'' \<or> Method req = ''HEAD''"
  shows "Do c pooled req up w =
    (case cache_Get (cenv c) (wcache w) (buildKey req) pooled of
       (None, dbEntry) \<Rightarrow>
         (case serveFromCache c req dbEntry False w of
            Panic m \<Rightarrow> Panic m
          | Ret (Some r, w1) \<Rightarrow> Ret (Inr r, notify ''hit'' w1)
          | Ret (None, w1) \<Rightarrow> do_upstream c req up (buildKey req) dbEntry w1)
     | (Some e, dbEntry) \<Rightarrow> do_upstream c req up (buildKey req) dbEntry w)"
  using assms by (auto simp: Do_def)

lemma Do_serves_first:
  assumes "Method req = ''GET'' \<or> Method req = ''HEAD''" and "osf (cenv c) = no_faults"
    and "cache_Get (cenv c) (wcache w) (buildKey req) pooled = (None, e)"
    and "selectMostRecentCandidates (selectResponseCandidates req e) = x # rs"
    and "blob (cfs (wcache w)) (ContentHash x) = Some bytes" and "reusable c x (ticks w)"
  shows "\<exists>r w'. Do c pooled req up w = Ret (Inr r, w') \<and> answers c w x (ticks w) r \<and> sent w' = sent w"
proof -
  obtain r w1 where s: "serveFromCache c req e False w = Ret (Some r, w1)" "answers c w x (ticks w) r"
    using serveFromCache_first [OF assms(2,4,5), of False] assms(6) by blast
  then show ?thesis
    using assms(3) serveFromCache_result [OF s(1)] by (simp add: Do_GET [OF assms(1)] notify_def same_store_def)
qed

section \<open>Properties\<close>

text \<open>
  C1: A request that is answered without asking the upstream is answered from the cache, rightly:
  the answer is a response stored under the request's key, which the request selects by Vary,
  with neither no-cache nor must-revalidate, fresh at the reading of the clock from which the
  Age is computed; the body is the stored one, and a hit is reported.
\<close>

theorem fresh_hit:
  assumes "Do c pooled req up w = Ret (Inr r, w')" and "sent w' = sent w"
  shows "\<exists>e x i. cache_Get (cenv c) (wcache w) (buildKey req) pooled = (None, e) \<and> x \<in> set (Value e) \<and>
    MatchVaryHeaders (ReqHeader req) (VaryHeaders x) \<and> ticks w \<le> i \<and> i < ticks w' \<and> reusable c x i \<and>
    answers c w x i r \<and> statuses w' = statuses w @ [''hit'']"
proof -
  have meth: "Method req = ''GET'' \<or> Method req = ''HEAD''"
  proof (rule ccontr)
    assume m: "\<not> ?thesis"
    obtain res q w1 where f: "forwardRequest c req w = (res, q, w1)" by (cases "forwardRequest c req w")
    have "w' = notify ''miss'' w1" using assms(1) m f by (simp add: Do_def)
    then show False using forwardRequest_result [OF f] assms(2) by (simp add: notify_def)
  qed
  obtain err e where g: "cache_Get (cenv c) (wcache w) (buildKey req) pooled = (err, e)"
    by (cases "cache_Get (cenv c) (wcache w) (buildKey req) pooled")
  have up: False if "do_upstream c req up (buildKey req) e w1 = Ret (Inr r, w')" "sends w w1" for w1
    using do_upstream_sends [OF that(1)] that(2) assms(2) by (simp add: sends_def)
  note D = assms(1) [unfolded Do_GET [OF meth] g prod.case]
  have none: "err = None" using D up [of w] by (cases err) auto
  note D = D [unfolded none option.case]
  obtain ro w1 where s: "serveFromCache c req e False w = Ret (ro, w1)"
    using D by (cases "serveFromCache c req e False w") auto
  note sr = serveFromCache_result [OF s]
  obtain r' where ro: "ro = Some r'"
    using D s up [of w1] sr same_store_sends [of w w1] by (cases ro) auto
  then have "r' = r" "w' = notify ''hit'' w1" using D s by auto
  moreover obtain x i where "x \<in> set (selectMostRecentCandidates (selectResponseCandidates req e))"
      "ticks w \<le> i" "i < ticks w1" "answers c w x i r'" "reusable c x i"
    using sr ro by auto
  moreover have "statuses w1 = statuses w" using sr by (simp add: same_store_def)
  moreover have "x \<in> set (Value e)" "MatchVaryHeaders (ReqHeader req) (VaryHeaders x)"
    using calculation(3) by (simp_all add: most_recent_filter selectResponseCandidates_def)
  ultimately show ?thesis
    using g none by (intro exI [of _ e] exI [of _ x] exI [of _ i]) (simp add: notify_def)
qed


text \<open>
  C5: When every upstream fails, by an error of the network or a status of 500 or more, a request
  for which the cache has a response, fresh or not, is answered from the cache and never with
  the failure.
\<close>

theorem stale_if_error:
  assumes "Method req = ''GET'' \<or> Method req = ''HEAD''" and "osf (cenv c) = no_faults" and "upstream_down c"
    and "cache_Get (cenv c) (wcache w) (buildKey req) pooled = (None, e)" and "version e \<noteq> 0"
    and "list_all hash_ok (Value e)"
    and "vary_foreign (Value e)"
    and "selectMostRecentCandidates (selectResponseCandidates req e) = x # rs"
    and "blob (cfs (wcache w)) (ContentHash x) = Some bytes"
  shows "\<exists>r w' y i. Do c pooled req up w = Ret (Inr r, w') \<and> y \<in> set (Value e) \<and> answers c w y i r \<and>
    statuses w' = statuses w @ [''hit'']"
proof -
  have sel: "y \<in> set (selectMostRecentCandidates (selectResponseCandidates req e)) \<Longrightarrow> y \<in> set (Value e)" for y
    by (auto simp: most_recent_filter selectResponseCandidates_def)
  obtain ro w1 where s: "serveFromCache c req e False w = Ret (ro, w1)"
    using serveFromCache_no_panic [OF assms(6)] by blast
  note sr = serveFromCache_result [OF s]
  show ?thesis
  proof (cases ro)
    case (Some r)
    then have "Do c pooled req up w = Ret (Inr r, notify ''hit'' w1)" using assms(4) s by (simp add: Do_GET [OF assms(1)])
    moreover obtain y i where "y \<in> set (Value e)" "answers c w y i r" using sr Some sel by blast
    moreover have "statuses w1 = statuses w" using sr by (simp add: same_store_def)
    ultimately show ?thesis by (auto simp: notify_def)
  next
    case None
    have b: "blob (cfs (wcache w1)) (ContentHash x) = Some bytes" using sr assms(9) by (simp add: same_store_def)
    obtain r w' i where u: "do_upstream c req up (buildKey req) e w1 = Ret (Inr r, w')" "answers c w1 x i r"
        "statuses w' = statuses w1 @ [''hit'']"
      using do_upstream_down [OF assms(2,3,5,7,8) b] by blast
    moreover have "x \<in> set (Value e)" using sel assms(8) by simp
    ultimately show ?thesis
      using None assms(4) s sr answers_same [of w w1 c x i r]
      by (intro exI [of _ r] exI [of _ w'] exI [of _ x] exI [of _ i]) (simp add: Do_GET [OF assms(1)] same_store_def)
  qed
qed

text \<open>
  Of the candidates the cache considers exactly those with the latest valid Date, in the order
  in which they are stored.
\<close>

lemma most_recent_candidates:
  "selectMostRecentCandidates rs =
     filter (\<lambda>r. 0 \<le> candidate_date r \<and> list_all (\<lambda>q. candidate_date q \<le> candidate_date r) rs) rs"
  unfolding most_recent_filter by (simp add: list_all_iff)


section \<open>Examples\<close>

text \<open>A client whose cache has one response, fresh for a minute; its upstream is down.\<close>

definition page_header :: header where
  "page_header = [(''Cache-Control'', Some [''max-age=60'']), (''Date'', Some [''Sun, 06 Nov 1994 08:49:37 GMT''])]"

definition page :: CachedResponse where
  "page = \<lparr>ContentHash = ''61y'', RespStatus = 200, RespHeaders = page_header, VaryHeaders = [],
     TimeAtResponseCreation = 0\<rparr>"

definition page_codec :: "CachedResponses codec" where
  "page_codec = \<lparr>MarshalMsg = \<lambda>rs. if rs = [page] then Inr ''p'' else Inl ''unknown'',
     UnmarshalMsg = \<lambda>b old. ([page], None)\<rparr>"

definition page_url :: URL where
  "page_url = url_zero\<lparr>Scheme := ''http'', Host := ''h'', Path := ''/''\<rparr>"

definition page_req :: request where
  "page_req = \<lparr>Method = ''GET'', ReqURL = page_url, ReqHost = ''h'', ReqHeader = [(''Te'', Some [''trailers''])],
     ReqProxy = None\<rparr>"

definition page_client :: "mem client" where
  "page_client = \<lparr>cenv = mem_env\<lparr>msgp := page_codec\<rparr>, isPrivate = False, clk = \<lambda>i. int i * Second,
     transport = \<lambda>hist rq. Inl (NetError ''connection refused''), tmp_names = \<lambda>i. ''tmp'', disk_space = None\<rparr>"

text \<open>The clock has been read \<open>n\<close> times, so it shows \<open>n\<close> seconds.\<close>

definition page_world :: "nat \<Rightarrow> mem world" where
  "page_world n = \<lparr>wcache = \<lparr>cdb = \<lparr>mem_items = [(''GET+http://h/'', ''p'', 1)], mem_ts = 1, mem_full = False\<rparr>,
     cfs = two_files\<rparr>, ticks = n, sent = [], statuses = [], drained = []\<rparr>"

definition no_upstream :: UpstreamCache where
  "no_upstream = \<lparr>Uris = [], Proxy = False\<rparr>"

definition pooled0 :: "CachedResponses Entry" where
  "pooled0 = \<lparr>Value = [], version = 0\<rparr>"

definition page_entry :: "CachedResponses Entry" where
  "page_entry = \<lparr>Value = [page], version = 1\<rparr>"

lemma page_key: "buildKey page_req = ''GET+http://h/''"
  by code_simp

lemma page_get: "cache_Get (cenv page_client) (wcache (page_world n)) (buildKey page_req) pooled0 = (None, page_entry)"
  by (simp add: page_key cache_Get_def db_Get_def page_client_def mem_env_simps page_world_def mem_badger_def
      mem_get_def unmarshal_def page_codec_def pooled0_def page_entry_def)

lemma page_selected: "selectMostRecentCandidates (selectResponseCandidates page_req page_entry) = [page]"
  by code_simp

lemma page_body: "blob (cfs (wcache (page_world n))) (ContentHash page) = Some ''new''"
  by (simp add: blob_def page_world_def two_files_def page_def fs_file_def tmpDirName_def)

lemma page_healthy: "osf (cenv page_client) = no_faults"
  by (simp add: page_client_def mem_env_simps)

lemma page_fresh: "reusable page_client page 10"
  by code_simp

lemma page_down: "upstream_down page_client"
  by (simp add: upstream_down_def page_client_def)


lemma page_serves:
  "\<exists>r w'. serveFromCache page_client page_req page_entry False (page_world 10) = Ret (Some r, w')"
  using serveFromCache_first [OF page_healthy page_selected page_body, of False 10] page_fresh
  by (auto simp: page_world_def)

theorem fresh_hit_witness:
  "\<exists>r w' e x i. Do page_client pooled0 page_req no_upstream (page_world 10) = Ret (Inr r, w') \<and>
     cache_Get (cenv page_client) (wcache (page_world 10)) (buildKey page_req) pooled0 = (None, e) \<and> x \<in> set (Value e) \<and>
     reusable page_client x i \<and> answers page_client (page_world 10) x i r"
proof -
  obtain r w1 where s: "serveFromCache page_client page_req page_entry False (page_world 10) = Ret (Some r, w1)"
    using page_serves by blast
  have m: "Method page_req = ''GET'' \<or> Method page_req = ''HEAD''" by (simp add: page_req_def)
  have d: "Do page_client pooled0 page_req no_upstream (page_world 10) = Ret (Inr r, notify ''hit'' w1)"
    using s page_get by (simp add: Do_GET [OF m])
  have "sent (notify ''hit'' w1) = sent (page_world 10)"
    using serveFromCache_result [OF s] by (simp add: same_store_def notify_def)
  from fresh_hit [OF d this] d show ?thesis by blast
qed

theorem stale_if_error_witness:
  "\<exists>r w' y i. Do page_client pooled0 page_req no_upstream (page_world 1000) = Ret (Inr r, w') \<and> y \<in> set [page] \<and>
     answers page_client (page_world 1000) y i r"
proof -
  have m: "Method page_req = ''GET'' \<or> Method page_req = ''HEAD''" by (simp add: page_req_def)
  have "list_all hash_ok (Value page_entry)" "vary_foreign (Value page_entry)" "version page_entry \<noteq> 0"
    by (simp_all add: page_entry_def hash_ok_def page_def vary_foreign_def)
  then show ?thesis
    using stale_if_error [OF m page_healthy page_down page_get [of 1000] _ _ _ page_selected page_body, of no_upstream]
    by (simp add: page_entry_def) blast
qed

text \<open>An upstream that answers without a date.\<close>

definition dateless_client :: "mem client" where
  "dateless_client = page_client\<lparr>clk := \<lambda>i. 62919190177 * Second,
     transport := \<lambda>hist rq. Inr \<lparr>StatusCode = 200, Header = [(''Connection'', Some [''close''])], Body = hello\<rparr>\<rparr>"


end
