(* ===== verification/Storing.thy ===== *)
theory Storing
  imports Serving
begin

text \<open>
  What the client stores: which responses are ingested, that a stored response is what later
  requests get, and what survives the encoding of the database.
\<close>

section \<open>What the codec does not change\<close>

lemma norm_header_slice: "slice (hdr_index (norm_header h) k) = slice (hdr_index h k)"
proof -
  have "map_of (norm_header h) k = map_option (\<lambda>v. if slice v = [] then None else v) (map_of h k)"
    unfolding norm_header_def by (induction h) auto
  then show ?thesis by (auto simp: hdr_index_def split: option.splits)
qed

lemma norm_header_Get: "hdr_Get (norm_header h) k = hdr_Get h k"
  by (simp add: hdr_Get_def hdr_Values_def norm_header_slice)

lemma norm_header_has: "hdr_has (norm_header h) k = hdr_has h k"
  unfolding hdr_has_def norm_header_def by (induction h) auto

lemma norm_header_match: "MatchVaryHeaders req (norm_header vs) = MatchVaryHeaders req vs"
proof -
  have "match_loop req (norm_header vs) = match_loop req vs"
    by (rule match_loop_slice) (auto simp: norm_header_def)
  then show ?thesis unfolding MatchVaryHeaders_def norm_header_has by (simp add: norm_header_def)
qed

lemma stored_cc_norm: "stored_cc (norm_response r) = stored_cc r"
  by (simp add: stored_cc_def norm_response_def norm_header_slice)

lemma lifetime_norm: "getFreshnessLifetime (norm_header h) cc = getFreshnessLifetime h cc"
  unfolding getFreshnessLifetime_def expires_lifetime_def heuristic_lifetime_def norm_header_Get ..

lemma reusable_norm: "reusable c (norm_response r) i = reusable c r i"
  by (simp add: reusable_def stored_cc_norm)
    (simp add: norm_response_def IsFresh_def Let_def lifetime_norm)

lemma candidate_date_norm: "candidate_date (norm_response r) = candidate_date r"
  by (simp add: candidate_date_def norm_response_def norm_header_Get)

section \<open>What is ingested\<close>

definition ingests :: "'s client \<Rightarrow> string \<Rightarrow> do_result \<Rightarrow> bool" where
  "ingests c key res \<longleftrightarrow> (\<forall>r g x. res = Inr r \<and> Body r = TeeBody g x \<longrightarrow>
     may_store r (isPrivate c) \<and> ctx_key x = key \<and> ctx_status x = StatusCode r \<and> ctx_header x = Header r \<and>
     \<not> wasCalled g)"

lemma ingests_Inr:
  "ingests c key (Inr r) \<longleftrightarrow> (\<forall>g x. Body r = TeeBody g x \<longrightarrow>
     may_store r (isPrivate c) \<and> ctx_key x = key \<and> ctx_status x = StatusCode r \<and> ctx_header x = Header r \<and>
     \<not> wasCalled g)"
  by (simp add: ingests_def)

lemma ingests_simps [simp]: "ingests c key (Inl e)" "ingests c key (upstream_result res)"
  "ingests c key (Inr (net_response r))"
  by (auto simp: ingests_def upstream_result_def net_response_def split: sum.splits)

lemma answers_ingests: "answers c w x i r \<Longrightarrow> ingests c key (Inr r)"
  by (auto simp: answers_def ingests_def)

lemma SetupIngestion_fresh:
  "SetupIngestion F name cap t files s = (IngestBody g, files') \<Longrightarrow> \<not> wasCalled g"
  by (auto simp: SetupIngestion_def split: if_splits)

lemma setupIngestion_TeeBody:
  assumes "setupIngestion c req fw key e w = (TeeBody g x, w')"
  shows "ctx_key x = key \<and> ctx_status x = StatusCode (fw_resp fw) \<and> ctx_header x = Header (fw_resp fw) \<and> \<not> wasCalled g"
proof -
  obtain br t where s: "SetupIngestion (osf (cenv c)) (tmp_names c (ticks w)) (disk_space c) (clk c (ticks w))
      (cfs (wcache w)) (Body (fw_resp fw)) = (br, t)"
    by (cases "SetupIngestion (osf (cenv c)) (tmp_names c (ticks w)) (disk_space c) (clk c (ticks w))
      (cfs (wcache w)) (Body (fw_resp fw))")
  then show ?thesis
    using assms SetupIngestion_fresh [of _ _ _ _ _ _ _ t]
    by (cases br) (auto simp: setupIngestion_def cache_SetupIngestion_def)
qed

lemma do_store_ingests:
  assumes "do_store c req key e fw w = Ret (res, w')"
  shows "ingests c key res"
proof -
  obtain ic ex where i: "IsCacheable (fw_resp fw) (isPrivate c) = (ic, ex)"
    by (cases "IsCacheable (fw_resp fw) (isPrivate c)")
  show ?thesis
  proof (cases "\<not> ic \<and> ex")
    case True
    then show ?thesis using assms i by (auto simp: do_store_def)
  next
    case False
    have ms: "may_store (fw_resp fw) (isPrivate c)" using i False by (auto simp: may_store_def)
    obtain b w1 where b: "setupIngestion c req fw key e (notify ''miss'' w) = (b, w1)"
      by (cases "setupIngestion c req fw key e (notify ''miss'' w)")
    have res: "res = Inr \<lparr>StatusCode = StatusCode (fw_resp fw), Header = Header (fw_resp fw), Body = b\<rparr>"
      using assms i False b by (auto simp: do_store_def)
    have "may_store \<lparr>StatusCode = StatusCode (fw_resp fw), Header = Header (fw_resp fw), Body = b\<rparr> (isPrivate c)"
      using ms by (simp add: may_store_iff)
    moreover have "ctx_key x = key \<and> ctx_status x = StatusCode (fw_resp fw) \<and> ctx_header x = Header (fw_resp fw) \<and> \<not> wasCalled g"
      if "b = TeeBody g x" for g x
      by (rule setupIngestion_TeeBody) (rule b [unfolded that])
    ultimately show ?thesis unfolding res ingests_Inr http_response.select_convs by blast
  qed
qed

lemma serveFromCache_ingests:
  "serveFromCache c req e force w = Ret (Some r, w') \<Longrightarrow> ingests c key (Inr r)"
  using serveFromCache_result answers_ingests by blast

lemma serve_stale_ingests: "serve_stale c req e w = Ret (Some r, w') \<Longrightarrow> ingests c key (Inr r)"
  using serve_stale_result answers_ingests by blast

lemma refresh_ingests: "refreshResponseAndServe c key e i fw w = Ret (r, w') \<Longrightarrow> ingests c key' (Inr r)"
  by (auto simp: refreshResponseAndServe_def Let_def ingests_def split: prod.splits go.splits sum.splits)

lemma updateCache_ingests: "updateCache c key e fw w = Ret (Some r, w') \<Longrightarrow> ingests c key' (Inr r)"
  by (auto simp: updateCache_def serve_refreshed_def Let_def split: go.splits option.splits prod.splits if_splits
      dest: refresh_ingests)

lemma do_retry_ingests: "do_retry c req orig up key e w = Ret (res, w') \<Longrightarrow> ingests c key res"
  by (auto simp: do_retry_def split: if_splits go.splits option.splits sum.splits prod.splits
      dest: do_store_ingests serve_stale_ingests)

lemma do_answered_ingests: "do_answered c req orig up key e hc wc fw w = Ret (res, w') \<Longrightarrow> ingests c key res"
  by (auto simp: do_answered_def split: if_splits go.splits option.splits prod.splits
      dest: do_store_ingests updateCache_ingests do_retry_ingests)

lemma do_upstream_ingests:
  assumes "do_upstream c req up key e w = Ret (res, w')"
  shows "ingests c key res"
proof -
  obtain rq hc wc where a: "(if version e \<noteq> 0 then addConditionalRequestInformation req e else (req, False, False)) = (rq, hc, wc)"
    by (metis prod_cases3)
  show ?thesis
    using assms unfolding do_upstream_def a
    by (auto split: if_splits go.splits option.splits sum.splits prod.splits
        dest: do_answered_ingests serve_stale_ingests)
qed

section \<open>Closing an ingested body\<close>

lemma close_ingested_stored:
  assumes "ingesting s g" "eof_last s" "\<not> wasCalled g"
    and close: "close_ingested c g x w = Ret (res, g', w')" and hash: "cl_hash res = Some h"
  obtains t where "w' = onIngest c x h (w\<lparr>wcache := (wcache w)\<lparr>cfs := t\<rparr>\<rparr>)"
    "h = body_hash (blake3 (cenv c)) (remaining s)" "blob t = (blob (cfs (wcache w)))(h \<mapsto> remaining s)"
proof -
  obtain t where t: "ingest_Close (osf (cenv c)) (blake3 (cenv c)) (fcache (cenv c)) (clk c (ticks w)) g (cfs (wcache w)) = Ret (res, g', t)"
    "w' = onIngest c x h (w\<lparr>wcache := (wcache w)\<lparr>cfs := t\<rparr>\<rparr>)"
    using close hash by (auto simp: close_ingested_def Let_def split: go.splits prod.splits)
  from ingest_Close_stored [OF assms(1-3) t(1) hash] t(2) that show thesis by blast
qed

text \<open>A first response for a key that is not stored.\<close>

lemma onIngest_new:
  assumes "healthy_cache (cenv c) ok clock" "ok (cdb (wcache w))" "version (ctx_entry x) = 0"
    and "kv_get (kvs (cenv c)) (cdb (wcache w)) (ctx_key x) = Inl KvKeyNotFound"
    and "MarshalMsg (msgp (cenv c)) [ingested_response x h (clk c (ticks w))] = Inr b"
  shows "\<exists>m. 0 < m \<and> (\<forall>old. cache_Get (cenv c) (wcache (onIngest c x h w)) (ctx_key x) old =
      (None, \<lparr>Value = [norm_response (ingested_response x h (clk c (ticks w)))], version = m\<rparr>)) \<and>
    cfs (wcache (onIngest c x h w)) = cfs (wcache w) \<and> sent (onIngest c x h w) = sent w"
proof -
  let ?E = "cenv c" and ?r = "ingested_response x h (clk c (ticks w))"
  have b: "badger (kvs ?E) ok clock" and cd: "codec_ok (msgp ?E) norm_responses" and wr: "writable ?E ok"
    using assms(1) by (simp_all add: healthy_cache_def healthy_cache_axioms_def)
  obtain s where s: "kv_set (kvs ?E) (cdb (wcache w)) (ctx_key x) b = Inr s"
    using wr assms(2) unfolding writable_def by blast
  then have sv: "db_Save (kvs ?E) (msgp ?E) (cdb (wcache w)) (ctx_key x) \<lparr>Value = [?r], version = 0\<rparr> = Inr s"
    using assms(4,5) by (simp add: db_Save_Inr)
  obtain m where m: "kv_get (kvs ?E) s (ctx_key x) = Inr \<lparr>item_value = Inr b, item_version = m\<rparr>" "clock (cdb (wcache w)) < m"
    using badger.set_get [OF b assms(2) s] by blast
  have "db_Get (kvs ?E) (msgp ?E) s (ctx_key x) old = (None, \<lparr>Value = norm_responses [?r], version = m\<rparr>)" for old
    using m(1) unmarshal_marshal [OF cd assms(5)] by (simp add: db_Get_def)
  then show ?thesis
    using assms(3) sv m(2)
    by (intro exI [of _ m]) (simp add: onIngest_def now_def Let_def cache_New_def db_New_def cache_Get_def norm_responses_def)
qed

section \<open>Properties\<close>

text \<open>
  C17: Only what may be stored is stored: a response whose body is ingested while it is passed on
  satisfies the storing policy, and what will be recorded for it is the key of the request, and
  the status and the header fields that the client was given.
\<close>

theorem only_storable_ingested:
  assumes "Do c pooled req up w = Ret (Inr r, w')" and "Body r = TeeBody g x"
  shows "may_store r (isPrivate c) \<and> ctx_key x = buildKey req \<and> ctx_status x = StatusCode r \<and>
    ctx_header x = Header r \<and> (Method req = ''GET'' \<or> Method req = ''HEAD'')"
proof -
  have meth: "Method req = ''GET'' \<or> Method req = ''HEAD''"
    using assms by (auto simp: Do_def upstream_result_def net_response_def split: prod.splits if_splits sum.splits)
  have "ingests c (buildKey req) (Inr r)"
    using assms(1) unfolding Do_GET [OF meth]
    by (auto split: prod.splits option.splits go.splits dest: serveFromCache_ingests do_upstream_ingests)
  then show ?thesis using assms(2) meth unfolding ingests_def by blast
qed

text \<open>
  C2: Store and serve. The first response for a key, read to its end and closed, is what later
  requests for the key get that agree with the first one on the fields named by Vary, without
  the upstream being asked, as long as the response may be reused: the status and the body are
  those that were received.
\<close>

theorem store_then_serve:
  assumes "healthy_cache (cenv c) ok clock" "ok (cdb (wcache w))" "version (ctx_entry x) = 0"
    and "kv_get (kvs (cenv c)) (cdb (wcache w)) (ctx_key x) = Inl KvKeyNotFound"
    and "MarshalMsg (msgp (cenv c)) [ingested_response x h (clk c (ticks w))] = Inr b"
    and "ingesting s g" "eof_last s" "\<not> wasCalled g"
    and "close_ingested c g x w = Ret (res, g', w1)" and "cl_hash res = Some h"
    and "Method req = ''GET'' \<or> Method req = ''HEAD''" and "buildKey req = ctx_key x"
    and "''*'' \<notin> set (getVaryHeaderNames (ctx_header x))"
    and "\<And>n. n \<in> set (getVaryHeaderNames (ctx_header x)) \<Longrightarrow>
      vary_value (ReqHeader req) n = vary_value (ReqHeader (ctx_req x)) n"
    and "0 \<le> candidate_date (ingested_response x h (clk c (ticks w)))"
    and "reusable c (ingested_response x h (clk c (ticks w))) n"
  shows "\<exists>r w2. Do c pooled req up (w1\<lparr>ticks := n\<rparr>) = Ret (Inr r, w2) \<and> StatusCode r = ctx_status x \<and>
    Body r = FileBody (remaining s) \<and> sent w2 = sent w"
proof -
  let ?r = "ingested_response x h (clk c (ticks w))"
  obtain t where t: "w1 = onIngest c x h (w\<lparr>wcache := (wcache w)\<lparr>cfs := t\<rparr>\<rparr>)" "blob t = (blob (cfs (wcache w)))(h \<mapsto> remaining s)"
    using close_ingested_stored [OF assms(6-10)] by metis
  let ?w = "w\<lparr>wcache := (wcache w)\<lparr>cfs := t\<rparr>\<rparr>"
  obtain m where m: "\<And>old. cache_Get (cenv c) (wcache w1) (ctx_key x) old = (None, \<lparr>Value = [norm_response ?r], version = m\<rparr>)"
    "cfs (wcache w1) = t" "sent w1 = sent w"
    using onIngest_new [OF assms(1), of ?w x h b] assms(2-5) t(1) by auto
  let ?e = "\<lparr>Value = [norm_response ?r], version = m\<rparr>" and ?w1 = "w1\<lparr>ticks := n\<rparr>"
  have "MatchVaryHeaders (ReqHeader req) (VaryHeaders (norm_response ?r))"
    using assms(13,14) MatchVary_Extract [of "ReqHeader req" "ReqHeader (ctx_req x)" "ctx_header x"]
    by (simp add: norm_response_def norm_header_match ingested_response_def)
  then have sel: "selectMostRecentCandidates (selectResponseCandidates req ?e) = [norm_response ?r]"
    using assms(15) candidate_date_norm [of ?r] by (simp add: selectResponseCandidates_def most_recent_filter)
  have g: "cache_Get (cenv c) (wcache ?w1) (buildKey req) pooled = (None, ?e)" using m(1) assms(12) by simp
  have bl: "blob (cfs (wcache ?w1)) (ContentHash (norm_response ?r)) = Some (remaining s)"
    using m(2) t(2) by (simp add: norm_response_def ingested_response_def)
  have nf: "osf (cenv c) = no_faults" using assms(1) by (simp add: healthy_cache_def healthy_cache_axioms_def)
  have ru: "reusable c (norm_response ?r) (ticks ?w1)" using assms(16) by (simp add: reusable_norm)
  obtain r w2 where "Do c pooled req up ?w1 = Ret (Inr r, w2)" "answers c ?w1 (norm_response ?r) (ticks ?w1) r" "sent w2 = sent ?w1"
    using Do_serves_first [OF assms(11) nf g sel bl ru] by blast
  moreover have "StatusCode r = ctx_status x" "Body r = FileBody (remaining s)"
    using calculation(2) bl by (auto simp: answers_def norm_response_def ingested_response_def)
  ultimately show ?thesis using m(3) by auto
qed

section \<open>Examples\<close>

text \<open>A codec that knows one list of responses, and a cache with it that works.\<close>

definition single_codec :: "CachedResponses \<Rightarrow> CachedResponses codec" where
  "single_codec rs = \<lparr>MarshalMsg = \<lambda>v. if v = rs then Inr ''r'' else Inl ''unknown'',
     UnmarshalMsg = \<lambda>b old. (norm_responses rs, None)\<rparr>"

lemma single_codec_healthy: "healthy_cache (mem_env\<lparr>msgp := single_codec rs, fcache := fc\<rparr>) mem_live mem_ts"
proof -
  have "codec_ok (single_codec rs) norm_responses" by (simp add: codec_ok_def single_codec_def)
  moreover have "writable (mem_env\<lparr>msgp := single_codec rs, fcache := fc\<rparr>) mem_live"
    using example.writes by (simp add: writable_def)
  ultimately show ?thesis
    using mem_live_badger by (simp add: healthy_cache_def healthy_cache_axioms_def mem_env_simps)
qed

text \<open>A page that is stored for the first time.\<close>

definition hello_ctx :: ingest_ctx where
  "hello_ctx = \<lparr>ctx_req = page_req, ctx_status = 200, ctx_header = page_header, ctx_created = 5 * Second,
     ctx_received = 6 * Second, ctx_key = ''GET+http://h/'', ctx_entry = pooled0\<rparr>"

definition hello_hash :: string where
  "hello_hash = body_hash pad_digest ''hello w''"

definition hello_resp :: CachedResponse where
  "hello_resp = ingested_response hello_ctx hello_hash (7 * Second)"

definition hello_client :: "mem client" where
  "hello_client = page_client\<lparr>cenv := mem_env\<lparr>msgp := single_codec [hello_resp], fcache := \<lparr>quotaLow = 10, quotaHigh = 20\<rparr>\<rparr>,
     transport := \<lambda>hist rq. Inr \<lparr>StatusCode = 200, Header = page_header, Body = hello\<rparr>\<rparr>"

definition hello_world :: "mem world" where
  "hello_world = \<lparr>wcache = \<lparr>cdb = \<lparr>mem_items = [], mem_ts = 1, mem_full = False\<rparr>, cfs = hello_tree\<rparr>,
     ticks = 7, sent = [], statuses = [], drained = []\<rparr>"

lemma hello_remaining: "remaining hello = ''hello w''"
  by code_simp

lemma hello_client_close:
  "\<exists>res g' w1. close_ingested hello_client hello_read hello_ctx hello_world = Ret (res, g', w1) \<and> cl_hash res = Some hello_hash"
proof -
  let ?fc = "\<lparr>quotaLow = 10, quotaHigh = 20\<rparr>"
  have "\<exists>r g' t'. ingest_Close no_faults pad_digest ?fc (7 * Second) hello_read hello_tree = Ret (r, g', t')
      \<and> cl_hash r = Some (body_hash pad_digest (remaining hello))"
  proof (rule ingest_Close_success [OF hello_ingesting(1,3)])
    show "lastReadErr (tee hello_read) = None" by code_simp
    show "lastWriteErr (tee hello_read) = None" by code_simp
    show "pieces (src (tee hello_read)) = []" by code_simp
    show "int (length (remaining hello)) \<le> go_quot (quotaHigh ?fc) 2" by code_simp
    show "2 \<le> length (body_hash pad_digest (remaining hello))" by code_simp
    show "map_of hello_tree (take 2 (body_hash pad_digest (remaining hello))) \<noteq> None" by code_simp
    show "fs_file hello_tree tmpDirName (tmp_name (dest (tee hello_read))) \<noteq> None" by code_simp
  qed (simp add: no_faults_def)
  then show ?thesis
    by (auto simp: close_ingested_def hello_client_def page_client_def mem_env_def hello_world_def hello_hash_def
        hello_remaining Let_def)
qed

theorem store_then_serve_witness:
  "\<exists>res g' w1 r w2. close_ingested hello_client hello_read hello_ctx hello_world = Ret (res, g', w1) \<and>
     Do hello_client pooled0 page_req no_upstream (w1\<lparr>ticks := 40\<rparr>) = Ret (Inr r, w2) \<and> StatusCode r = 200 \<and>
     Body r = FileBody ''hello w'' \<and> sent w2 = []"
proof -
  obtain res g' w1 where c: "close_ingested hello_client hello_read hello_ctx hello_world = Ret (res, g', w1)"
    "cl_hash res = Some hello_hash"
    using hello_client_close by blast
  have h: "healthy_cache (cenv hello_client) mem_live mem_ts"
    by (simp add: hello_client_def page_client_def single_codec_healthy)
  have r: "ingested_response hello_ctx hello_hash (clk hello_client (ticks hello_world)) = hello_resp"
    by (simp add: hello_client_def page_client_def hello_world_def hello_resp_def)
  have reuse: "reusable hello_client hello_resp 40" "0 \<le> candidate_date hello_resp" by code_simp+
  have vary: "getVaryHeaderNames (ctx_header hello_ctx) = []" by code_simp
  have "\<exists>r w2. Do hello_client pooled0 page_req no_upstream (w1\<lparr>ticks := 40\<rparr>) = Ret (Inr r, w2) \<and>
      StatusCode r = ctx_status hello_ctx \<and> Body r = FileBody (remaining hello) \<and> sent w2 = sent hello_world"
  proof (rule store_then_serve [OF h _ _ _ _ hello_ingesting c])
    show "MarshalMsg (msgp (cenv hello_client)) [ingested_response hello_ctx hello_hash (clk hello_client (ticks hello_world))] = Inr ''r''"
      unfolding r by (simp add: hello_client_def single_codec_def)
    show "mem_live (cdb (wcache hello_world))" by (simp add: mem_live_def mem_ok_def hello_world_def)
    show "kv_get (kvs (cenv hello_client)) (cdb (wcache hello_world)) (ctx_key hello_ctx) = Inl KvKeyNotFound"
      by (simp add: hello_client_def page_client_def mem_env_simps hello_world_def mem_badger_def mem_get_def)
    show "version (ctx_entry hello_ctx) = 0" by (simp add: hello_ctx_def pooled0_def)
    show "buildKey page_req = ctx_key hello_ctx" by (simp add: page_key hello_ctx_def)
  qed (use reuse in \<open>simp_all add: vary r page_req_def\<close>)
  then show ?thesis using c(1) by (auto simp: hello_ctx_def hello_remaining hello_world_def)
qed

lemma hello_first:
  "case Do hello_client pooled0 page_req no_upstream hello_world of
     Ret (Inr r, w) \<Rightarrow> (case Body r of TeeBody g x \<Rightarrow> True | _ \<Rightarrow> False) | _ \<Rightarrow> False"
  by code_simp

theorem only_storable_ingested_witness:
  "\<exists>r w' g x. Do hello_client pooled0 page_req no_upstream hello_world = Ret (Inr r, w') \<and> Body r = TeeBody g x \<and>
     may_store r False \<and> ctx_key x = ''GET+http://h/''"
proof -
  obtain r w' g x where d: "Do hello_client pooled0 page_req no_upstream hello_world = Ret (Inr r, w')" "Body r = TeeBody g x"
    using hello_first by (auto split: go.splits prod.splits sum.splits body.splits)
  from only_storable_ingested [OF d] d show ?thesis
    by (auto simp: page_key hello_client_def page_client_def)
qed

end
