(* ===== verification/Revalidation.thy ===== *)
theory Revalidation
  imports Storing
begin

text \<open>
  Revalidation and forwarding: what a 304 answer does to the cache and to the request that asked,
  in which order upstreams are asked, and what they are asked for.
\<close>

section \<open>Refreshing a stored response\<close>

definition etag_of :: "CachedResponse \<Rightarrow> string" where
  "etag_of r = hdr_Get (RespHeaders r) ''Etag''"

text \<open>The response at \<open>i\<close> is the first with a matching tag.\<close>

definition first_match :: "string \<Rightarrow> CachedResponses \<Rightarrow> nat \<Rightarrow> bool" where
  "first_match etag rs i \<longleftrightarrow> i < length rs \<and> EtagsMatch etag (etag_of (rs ! i)) = Ret True \<and>
     list_all (\<lambda>r. EtagsMatch etag (etag_of r) = Ret False) (take i rs)"

lemma find_etag_first: "first_match etag rs i \<Longrightarrow> find_etag etag rs k = Ret (Some (k + i))"
proof (induction rs arbitrary: i k)
  case (Cons r rs)
  show ?case
  proof (cases i)
    case (Suc j)
    then have "first_match etag rs j" "EtagsMatch etag (etag_of r) = Ret False"
      using Cons.prems by (auto simp: first_match_def)
    with Cons.IH [of j "Suc k"] Suc show ?thesis by (simp add: etag_of_def)
  qed (use Cons.prems in \<open>auto simp: first_match_def etag_of_def\<close>)
qed (simp add: first_match_def)

lemma updated_headers_index:
  assumes "gm_wf fresh"
  shows "hdr_index (updated_headers stored fresh) k =
    (if k \<noteq> ''Content-Length'' \<and> hdr_has fresh k then hdr_index fresh k else hdr_index stored k)"
proof -
  have m: "map_of (filter (\<lambda>(k, v). k \<noteq> ''Content-Length'') fresh) k =
      (if k = ''Content-Length'' then None else map_of fresh k)"
    by (induction fresh) auto
  have "gm_wf (filter (\<lambda>(k, v). k \<noteq> ''Content-Length'') fresh)"
    using assms by (simp add: gm_wf_def distinct_map_filter)
  then show ?thesis
    using m by (auto simp: updated_headers_def hdr_index_def hdr_has_def map_of_gm_copy map_add_def split: option.splits)
qed

text \<open>The stored response after the 304 answer \<open>fw\<close>, and the entry that has it.\<close>

definition refreshed :: "CachedResponse \<Rightarrow> forwarded \<Rightarrow> time \<Rightarrow> CachedResponse" where
  "refreshed r fw t = r\<lparr>RespHeaders := updated_headers (RespHeaders r) (Header (fw_resp fw)),
     TimeAtResponseCreation := GetEstimatedResponseCreation (Header (fw_resp fw)) (fw_created fw) (fw_received fw) t\<rparr>"

definition refreshed_entry :: "CachedResponses Entry \<Rightarrow> nat \<Rightarrow> forwarded \<Rightarrow> time \<Rightarrow> CachedResponses Entry" where
  "refreshed_entry e i fw t = e\<lparr>Value := (Value e)[i := refreshed (Value e ! i) fw t]\<rparr>"

lemma cache_Save_files: "cfs (snd (cache_Save E k key e)) = cfs k"
  by (simp add: cache_Save_def split: sum.splits)

lemma refresh_result:
  assumes "osf (cenv c) = no_faults" "hash_ok (Value e ! i)"
    and k_def: "k = snd (cache_Save (cenv c) (wcache w) key (refreshed_entry e i fw (clk c (ticks w))))"
  shows "(case blob (cfs (wcache w)) (ContentHash (Value e ! i)) of
      None \<Rightarrow> refreshResponseAndServe c key e i fw w = Panic ''Unable to serve cached entry''
    | Some bytes \<Rightarrow> \<exists>t. refreshResponseAndServe c key e i fw w =
        Ret (\<lparr>StatusCode = StatusOK,
              Header = hdr_Set (updated_headers (RespHeaders (Value e ! i)) (Header (fw_resp fw))) ''Age''
                (age_string (GetCurrentAge (GetEstimatedResponseCreation (Header (fw_resp fw)) (fw_created fw)
                   (fw_received fw) (clk c (ticks w))) (clk c (ticks w + 2)))),
              Body = FileBody bytes\<rparr>,
             w\<lparr>wcache := k\<lparr>cfs := t\<rparr>, ticks := ticks w + 3\<rparr>))"
proof -
  let ?h = "ContentHash (Value e ! i)"
  have f: "cfs k = cfs (wcache w)" by (simp add: k_def cache_Save_files)
  have o: "cache_Open (cenv c) t k ?h = (case fc_Open no_faults t (cfs (wcache w)) ?h of
      Panic m \<Rightarrow> Panic m | Ret (r, t') \<Rightarrow> Ret (r, k\<lparr>cfs := t'\<rparr>))" for t
    by (simp add: cache_Open_def assms(1) f)
  have d: "refreshResponseAndServe c key e i fw w =
      (case cache_Open (cenv c) (clk c (Suc (ticks w))) k ?h of
         Panic m \<Rightarrow> Panic m
       | Ret (Inl e, k') \<Rightarrow> Panic ''Unable to serve cached entry''
       | Ret (Inr bytes, k') \<Rightarrow>
           Ret (\<lparr>StatusCode = StatusOK,
              Header = hdr_Set (updated_headers (RespHeaders (Value e ! i)) (Header (fw_resp fw))) ''Age''
                (age_string (GetCurrentAge (GetEstimatedResponseCreation (Header (fw_resp fw)) (fw_created fw)
                   (fw_received fw) (clk c (ticks w))) (clk c (ticks w + 2)))),
              Body = FileBody bytes\<rparr>,
             w\<lparr>wcache := k', ticks := ticks w + 3\<rparr>))"
    unfolding refreshResponseAndServe_def now_def Let_def k_def refreshed_entry_def refreshed_def
    by (simp split: prod.splits go.splits sum.splits add: numeral_3_eq_3)
  show ?thesis
  proof (cases "blob (cfs (wcache w)) ?h")
    case None
    then have "fs_file (cfs (wcache w)) (take 2 ?h) (drop 2 ?h) = None"
      using assms(2) has_body_file [OF assms(2), of "cfs (wcache w)"] by (simp add: has_body_def)
    then show ?thesis
      using assms(2) None d o by (simp add: hash_ok_def fc_Open_def split_hash_def lookup_call_def no_faults_def)
  next
    case (Some bytes)
    obtain t where "fc_Open no_faults (clk c (Suc (ticks w))) (cfs (wcache w)) ?h = Ret (Inr bytes, t)"
      using fc_Open_healthy [of ?h no_faults "clk c (Suc (ticks w))" "cfs (wcache w)"] Some assms(2)
      by (auto simp: hash_ok_def no_faults_def)
    then show ?thesis using Some d o by auto
  qed
qed

section \<open>A conditional request\<close>

text \<open>
  The request finds the entry \<open>e\<close>, none of whose responses may be served, goes upstream with the
  validators of the entry, and is answered by \<open>fw\<close>; the world is \<open>w'\<close> then.
\<close>

definition revalidates ::
    "'s client \<Rightarrow> CachedResponses Entry \<Rightarrow> request \<Rightarrow> UpstreamCache \<Rightarrow> 's world \<Rightarrow> CachedResponses Entry
     \<Rightarrow> forwarded \<Rightarrow> 's world \<Rightarrow> bool" where
  "revalidates c pooled req up w e fw w' \<longleftrightarrow>
     (Method req = ''GET'' \<or> Method req = ''HEAD'') \<and>
     cache_Get (cenv c) (wcache w) (buildKey req) pooled = (None, e) \<and> version e \<noteq> 0 \<and>
     (\<exists>w1 rq wc q. serveFromCache c req e False w = Ret (None, w1) \<and>
        addConditionalRequestInformation req e = (rq, True, wc) \<and>
        forwardRequestWithUpstream c rq up w1 = (Inr fw, q, w')) \<and>
     StatusCode (fw_resp fw) = 304"

lemma revalidates_Do:
  assumes "revalidates c pooled req up w e fw w'" and "updateCache c (buildKey req) e fw w' = u"
    and "\<And>w2. u \<noteq> Ret (None, w2)"
  shows "Do c pooled req up w =
    (case u of Panic m \<Rightarrow> Panic m | Ret (Some r, w2) \<Rightarrow> Ret (Inr r, notify ''revalidated'' w2)
     | Ret (None, w2) \<Rightarrow> Ret (Inl (NetError []), w2))"
proof -
  obtain w1 rq wc q where a: "serveFromCache c req e False w = Ret (None, w1)"
    "addConditionalRequestInformation req e = (rq, True, wc)"
    "forwardRequestWithUpstream c rq up w1 = (Inr fw, q, w')"
    and m: "Method req = ''GET'' \<or> Method req = ''HEAD''"
    using assms(1) unfolding revalidates_def by blast
  have g: "cache_Get (cenv c) (wcache w) (buildKey req) pooled = (None, e)" "version e \<noteq> 0" "StatusCode (fw_resp fw) = 304"
    using assms(1) by (simp_all add: revalidates_def)
  have "do_upstream c req up (buildKey req) e w1 = do_answered c q req up (buildKey req) e True wc fw w'"
    using a(2,3) g(2,3) by (simp add: do_upstream_def is_failure_def)
  then show ?thesis
    using a(1) g assms(2,3)
    by (auto simp: Do_GET [OF m] do_answered_def split: go.splits option.splits)
qed

lemma revalidates_blob:
  assumes "revalidates c pooled req up w e fw w'"
  shows "blob (cfs (wcache w')) = blob (cfs (wcache w)) \<and> cdb (wcache w') = cdb (wcache w) \<and> statuses w' = statuses w"
proof -
  obtain w1 rq wc q where a: "serveFromCache c req e False w = Ret (None, w1)"
    "forwardRequestWithUpstream c rq up w1 = (Inr fw, q, w')"
    using assms unfolding revalidates_def by blast
  show ?thesis
    using serveFromCache_result [OF a(1)] forwardRequestWithUpstream_frame [OF a(2)] by (simp add: same_store_def)
qed

lemma updateCache_first:
  assumes "first_match (hdr_Get (Header (fw_resp fw)) ''Etag'') (Value e) i" "hdr_Get (Header (fw_resp fw)) ''Etag'' \<noteq> []"
  shows "updateCache c key e fw w = serve_refreshed c key e i fw w"
  using find_etag_first [OF assms(1), of 0] assms(2) by (simp add: updateCache_def)

section \<open>Properties\<close>

text \<open>
  C7: Revalidation. When none of the stored responses may be served as it is and the upstream
  answers 304 with an entity tag, the client gets 200 with the stored body of the first stored
  response whose tag matches; its header fields are the stored ones, replaced by those of the
  304 answer, Content-Length excepted.
\<close>

theorem revalidation_serves_stored:
  assumes "revalidates c pooled req up w e fw w1" and "osf (cenv c) = no_faults"
    and "first_match (hdr_Get (Header (fw_resp fw)) ''Etag'') (Value e) i"
    and "hdr_Get (Header (fw_resp fw)) ''Etag'' \<noteq> []" and "gm_wf (Header (fw_resp fw))"
    and "blob (cfs (wcache w)) (ContentHash (Value e ! i)) = Some bytes"
  shows "\<exists>r w'. Do c pooled req up w = Ret (Inr r, w') \<and> StatusCode r = 200 \<and> Body r = FileBody bytes \<and>
    (\<forall>k. k \<noteq> ''Age'' \<longrightarrow> hdr_index (Header r) k =
       (if k \<noteq> ''Content-Length'' \<and> hdr_has (Header (fw_resp fw)) k then hdr_index (Header (fw_resp fw)) k
        else hdr_index (RespHeaders (Value e ! i)) k)) \<and>
    statuses w' = statuses w @ [''revalidated'']"
proof -
  note b = revalidates_blob [OF assms(1)]
  have h: "hash_ok (Value e ! i)" using assms(6) by (auto simp: hash_ok_def blob_def split: if_splits)
  obtain t r where t: "refreshResponseAndServe c (buildKey req) e i fw w1 = Ret (r, t)"
    and r: "StatusCode r = 200" "Body r = FileBody bytes" "statuses t = statuses w1"
      "\<exists>a. Header r = hdr_Set (updated_headers (RespHeaders (Value e ! i)) (Header (fw_resp fw))) ''Age'' a"
    using refresh_result [OF assms(2) h refl, where w = w1 and key = "buildKey req" and fw = fw] b assms(6) by fastforce
  have u: "updateCache c (buildKey req) e fw w1 = Ret (Some r, t)"
    using t by (simp add: updateCache_first [OF assms(3,4)] serve_refreshed_def)
  have "Do c pooled req up w = Ret (Inr r, notify ''revalidated'' t)" using revalidates_Do [OF assms(1) u] by simp
  then show ?thesis
    using r b by (auto simp: notify_def hdr_Set_def updated_headers_index [OF assms(5)])
qed

text \<open>
  C19: A revalidation that is answered is recorded: what is stored for the key afterwards are the
  responses of the entry, the revalidated one with the refreshed fields and creation time, under
  a version of its own.
\<close>

theorem revalidation_is_recorded:
  assumes "healthy_cache (cenv c) ok clock" and "ok (cdb (wcache w))" and "i < length (Value e)"
    and "kv_get (kvs (cenv c)) (cdb (wcache w)) key = Inr it" and "item_version it = version e"
    and "MarshalMsg (msgp (cenv c)) (Value (refreshed_entry e i fw (clk c (ticks w)))) = Inr b"
    and "refreshResponseAndServe c key e i fw w = Ret (r, w')" and "hash_ok (Value e ! i)"
  shows "\<exists>m. version e < m \<and> cache_Get (cenv c) (wcache w') key old =
      (None, \<lparr>Value = norm_responses ((Value e)[i := refreshed (Value e ! i) fw (clk c (ticks w))]), version = m\<rparr>)"
proof -
  let ?E = "cenv c" and ?e = "refreshed_entry e i fw (clk c (ticks w))"
  have bg: "badger (kvs ?E) ok clock" and cd: "codec_ok (msgp ?E) norm_responses" and wr: "writable ?E ok"
    and nf: "osf ?E = no_faults"
    using assms(1) by (simp_all add: healthy_cache_def healthy_cache_axioms_def)
  obtain s where "kv_set (kvs ?E) (cdb (wcache w)) key b = Inr s" using wr assms(2) unfolding writable_def by blast
  then have sv: "db_Save (kvs ?E) (msgp ?E) (cdb (wcache w)) key ?e = Inr s"
    using assms(4-6) by (auto simp: db_Save_Inr refreshed_entry_def)
  obtain m where m: "db_Get (kvs ?E) (msgp ?E) s key old = (None, \<lparr>Value = norm_responses (Value ?e), version = m\<rparr>)"
    "clock (cdb (wcache w)) < m"
    using badger.db_Save_Get [OF bg assms(2) cd sv] by blast
  have "version e < m" using badger.get_version [OF bg assms(2,4)] assms(5) m(2) by simp
  moreover have "cdb (wcache w') = s"
    using refresh_result [OF nf assms(8) refl, where w = w and key = key and fw = fw] assms(7) sv by (auto simp: cache_Save_def split: option.splits)
  ultimately show ?thesis using m(1) by (auto simp: cache_Get_def refreshed_entry_def)
qed

text \<open>
  A revalidation can panic: when the stored body has been evicted by the time the upstream
  answers 304, or when the first stored response has no Etag and the answer has a strong one.
\<close>

lemma revalidation_panics:
  assumes "revalidates c pooled req up w e fw w1" and "osf (cenv c) = no_faults"
    and "2 \<le> length (hdr_Get (Header (fw_resp fw)) ''Etag'')"
    and "(\<exists>i. first_match (hdr_Get (Header (fw_resp fw)) ''Etag'') (Value e) i \<and> hash_ok (Value e ! i) \<and>
            blob (cfs (wcache w)) (ContentHash (Value e ! i)) = None) \<or>
         (\<exists>r rs. Value e = r # rs \<and> etag_of r = [] \<and> \<not> HasPrefix (hdr_Get (Header (fw_resp fw)) ''Etag'') ''W/'')"
  shows "\<exists>m. Do c pooled req up w = Panic m"
proof -
  let ?etag = "hdr_Get (Header (fw_resp fw)) ''Etag''"
  have ne: "?etag \<noteq> []" using assms(3) by auto
  have "\<exists>m. updateCache c (buildKey req) e fw w1 = Panic m"
    using assms(4)
  proof (elim disjE exE conjE)
    fix i assume i: "first_match ?etag (Value e) i" "hash_ok (Value e ! i)" "blob (cfs (wcache w)) (ContentHash (Value e ! i)) = None"
    then show ?thesis
      using refresh_result [OF assms(2) i(2) refl, where w = w1 and key = "buildKey req" and fw = fw] revalidates_blob [OF assms(1)]
      by (simp add: updateCache_first [OF i(1) ne] serve_refreshed_def)
  next
    fix r rs assume "Value e = r # rs" "etag_of r = []" "\<not> HasPrefix ?etag ''W/''"
    then show ?thesis
      using ne EtagsMatch_empty_panics [OF assms(3)] by (simp add: updateCache_def etag_of_def)
  qed
  then obtain m where "updateCache c (buildKey req) e fw w1 = Panic m" by blast
  from revalidates_Do [OF assms(1) this] show ?thesis by simp
qed

section \<open>The order of the upstreams\<close>

text \<open>The requests that may be sent for one request, in order: one per upstream, then the request itself.\<close>

definition stripped :: "request \<Rightarrow> request" where
  "stripped req = req\<lparr>ReqHeader := removeHopByHopHeaders (ReqHeader req)\<rparr>"

definition attempts :: "UpstreamCache \<Rightarrow> request \<Rightarrow> request list" where
  "attempts up req = map (\<lambda>u. stripped (buildUpstreamRequest (Proxy up) req u)) (Uris up) @ [stripped req]"

text \<open>The attempts are made in turn after \<open>hist\<close> until one is answered; \<open>n\<close> is the number of the last.\<close>

definition first_answer ::
    "'s client \<Rightarrow> request list \<Rightarrow> request list \<Rightarrow> nat \<Rightarrow> net_error + reader http_response \<Rightarrow> bool" where
  "first_answer c hist reqs n res \<longleftrightarrow> n < length reqs \<and> res = transport c (hist @ take n reqs) (reqs ! n) \<and>
     (\<forall>j < n. \<exists>e. transport c (hist @ take j reqs) (reqs ! j) = Inl e) \<and>
     (Suc n < length reqs \<longrightarrow> (\<exists>r. res = Inr r))"

lemma first_answer_Cons:
  assumes "transport c hist r = Inl e" "first_answer c (hist @ [r]) reqs n res"
  shows "first_answer c hist (r # reqs) (Suc n) res"
  using assms by (auto simp: first_answer_def less_Suc_eq_0_disj)

text \<open>A forwarded answer carries the status and the body that the network gave.\<close>

definition carries :: "net_error + forwarded \<Rightarrow> net_error + reader http_response \<Rightarrow> bool" where
  "carries res out = (case out of Inl e \<Rightarrow> res = Inl e
     | Inr r \<Rightarrow> \<exists>f. res = Inr f \<and> StatusCode (fw_resp f) = StatusCode r \<and> Body (fw_resp f) = Body r)"

lemma forwardRequest_carries:
  assumes "forwardRequest c req w = (res, q, w')"
  shows "carries res (transport c (sent w) (stripped req)) \<and> sent w' = sent w @ [stripped req]"
  using assms
  by (auto simp: forwardRequest_def now_def Let_def carries_def stripped_def split: sum.splits if_splits)

lemma forward_upstreams:
  assumes "(case try_upstreams c proxy req us w of (Some f, w1) \<Rightarrow> (Inr f, req, w1) | (None, w1) \<Rightarrow> forwardRequest c req w1) = (res, q, w')"
  shows "\<exists>n out. first_answer c (sent w) (map (\<lambda>u. stripped (buildUpstreamRequest proxy req u)) us @ [stripped req]) n out \<and>
    carries res out \<and> sent w' = sent w @ take (Suc n) (map (\<lambda>u. stripped (buildUpstreamRequest proxy req u)) us @ [stripped req])"
  using assms
proof (induction us arbitrary: w)
  case Nil
  then show ?case
    using forwardRequest_carries [of c req w res q w']
    by (intro exI [of _ 0] exI [of _ "transport c (sent w) (stripped req)"]) (simp add: first_answer_def)
next
  case (Cons u us)
  let ?r = "stripped (buildUpstreamRequest proxy req u)"
  obtain a q1 w1 where f: "forwardRequest c (buildUpstreamRequest proxy req u) w = (a, q1, w1)"
    by (cases "forwardRequest c (buildUpstreamRequest proxy req u) w")
  note fc = forwardRequest_carries [OF f]
  show ?case
  proof (cases a)
    case (Inr g)
    then obtain r where r: "transport c (sent w) ?r = Inr r" using fc by (auto simp: carries_def split: sum.splits)
    then show ?thesis
      using Cons.prems f fc Inr
      by (intro exI [of _ 0] exI [of _ "Inr r"]) (auto simp: first_answer_def)
  next
    case (Inl e)
    then have e: "transport c (sent w) ?r = Inl e" using fc by (auto simp: carries_def split: sum.splits)
    have "(case try_upstreams c proxy req us w1 of (Some f, w1) \<Rightarrow> (Inr f, req, w1) | (None, w1) \<Rightarrow> forwardRequest c req w1) = (res, q, w')"
      using Cons.prems f Inl by simp
    from Cons.IH [OF this] obtain n out where
      n: "first_answer c (sent w @ [?r]) (map (\<lambda>u. stripped (buildUpstreamRequest proxy req u)) us @ [stripped req]) n out"
        "carries res out" "sent w' = sent w @ ?r # take (Suc n) (map (\<lambda>u. stripped (buildUpstreamRequest proxy req u)) us @ [stripped req])"
      using fc by auto
    from first_answer_Cons [OF e n(1)] n(2,3) show ?thesis by (intro exI [of _ "Suc n"] exI [of _ out]) simp
  qed
qed

text \<open>
  C20: The upstreams are asked one after the other, in the order of the configuration, then the
  origin itself, and nothing is sent after the first answer: exactly the attempts up to that one
  have been sent, all earlier ones failed with an error of the network, and the answer has the
  status and the body of the first that did not fail (or the error of the origin).
\<close>

theorem upstreams_in_order:
  assumes "forwardRequestWithUpstream c req up w = (res, q, w')"
  shows "\<exists>n out. first_answer c (sent w) (attempts up req) n out \<and> carries res out \<and>
    sent w' = sent w @ take (Suc n) (attempts up req)"
  unfolding attempts_def
  by (rule forward_upstreams) (use assms in \<open>simp add: forwardRequestWithUpstream_def\<close>)

text \<open>
  The entry that a request takes from the pool is not cleared. If reading the database fails
  with an unexpected error and the upstreams are down, the request is answered with a response
  that the pooled entry still held, which may be another key's.
\<close>

lemma pooled_entry_leaks:
  assumes "Method req = ''GET'' \<or> Method req = ''HEAD''" and "osf (cenv c) = no_faults" and "upstream_down c"
    and "kv_get (kvs (cenv c)) (cdb (wcache w)) (buildKey req) = Inl (KvFailure msg)"
    and "version pooled \<noteq> 0" and "vary_foreign (Value pooled)"
    and "selectMostRecentCandidates (selectResponseCandidates req pooled) = x # rs"
    and "blob (cfs (wcache w)) (ContentHash x) = Some bytes"
  shows "\<exists>r w' i. Do c pooled req up w = Ret (Inr r, w') \<and> answers c w x i r \<and> statuses w' = statuses w @ [''hit'']"
proof -
  have "cache_Get (cenv c) (wcache w) (buildKey req) pooled = (Some (ErrStore (KvFailure msg)), pooled)"
    using assms(4) by (simp add: cache_Get_def db_Get_def load_error_def)
  then show ?thesis
    using do_upstream_down [OF assms(2,3,5-8), of up "buildKey req"] by (simp add: Do_GET [OF assms(1)])
qed

text \<open>
  For an upstream cache that has a path of its own, the escaping of the request's path is lost:
  the path that is sent is the plain encoding of the joined paths, also where the request had
  another encoding, which is kept when the upstream has no path.
\<close>

lemma upstream_path_escaping:
  assumes "validEncoded (RawPath (ReqURL req)) encodePath" and "RawPath (ReqURL req) \<noteq> []"
    and "unescape (RawPath (ReqURL req)) encodePath = Inr (Path (ReqURL req))"
  shows "EscapedPath (ReqURL (buildUpstreamRequest False req u)) =
    (if Path u = [] then RawPath (ReqURL req)
     else if Path u @ Path (ReqURL req) = ''*'' then ''*''
     else escape (Path u @ Path (ReqURL req)) encodePath)"
  using assms by (auto simp: buildUpstreamRequest_def EscapedPath_def)

section \<open>Examples\<close>

text \<open>A stored page with a tag, stale at the instants considered, and an upstream that confirms it.\<close>

definition tag :: string where
  "tag = [dquote, CHR ''a'', dquote]"

definition tag_page :: CachedResponse where
  "tag_page = page\<lparr>RespHeaders := page_header @ [(''Etag'', Some [tag])]\<rparr>"

definition tag_entry :: "CachedResponses Entry" where
  "tag_entry = \<lparr>Value = [tag_page], version = 1\<rparr>"

definition not_modified :: header where
  "not_modified = [(''Etag'', Some [tag]), (''Date'', Some [''Sun, 06 Nov 1994 08:49:37 GMT''])]"

definition tag_client :: "CachedResponses \<Rightarrow> mem client" where
  "tag_client rs = page_client\<lparr>cenv := mem_env\<lparr>msgp := single_codec rs\<rparr>,
     transport := \<lambda>hist rq. Inr \<lparr>StatusCode = 304, Header = not_modified, Body = hello\<rparr>\<rparr>"

definition tag_world :: "fs \<Rightarrow> mem world" where
  "tag_world t = (page_world 1000)\<lparr>wcache := (wcache (page_world 1000))\<lparr>cfs := t\<rparr>\<rparr>"

text \<open>An executable form of \<open>revalidates\<close>, with a condition on the answer.\<close>

definition revalidation_check ::
    "'s client \<Rightarrow> request \<Rightarrow> UpstreamCache \<Rightarrow> 's world \<Rightarrow> CachedResponses Entry \<Rightarrow> (forwarded \<Rightarrow> bool) \<Rightarrow> bool" where
  "revalidation_check c req up w e P =
     (case serveFromCache c req e False w of
        Ret (None, w1) \<Rightarrow>
          (case addConditionalRequestInformation req e of (rq, hc, wc) \<Rightarrow>
             hc \<and> (case forwardRequestWithUpstream c rq up w1 of
                     (Inr fw, q, w') \<Rightarrow> StatusCode (fw_resp fw) = 304 \<and> P fw | _ \<Rightarrow> False))
      | _ \<Rightarrow> False)"

lemma revalidation_check:
  assumes "revalidation_check c req up w e P" "Method req = ''GET'' \<or> Method req = ''HEAD''"
    and "cache_Get (cenv c) (wcache w) (buildKey req) pooled = (None, e)" "version e \<noteq> 0"
  shows "\<exists>fw w'. revalidates c pooled req up w e fw w' \<and> P fw"
  using assms unfolding revalidation_check_def revalidates_def
  by (auto split: go.splits prod.splits option.splits sum.splits)

lemma tag_get: "cache_Get (cenv (tag_client [tag_page])) (wcache (tag_world t)) (buildKey page_req) pooled0 = (None, tag_entry)"
proof -
  have "norm_responses [tag_page] = [tag_page]" by code_simp
  then show ?thesis
    by (simp add: page_key cache_Get_def db_Get_def tag_client_def mem_env_simps tag_world_def page_world_def mem_badger_def
        mem_get_def unmarshal_def single_codec_def pooled0_def tag_entry_def)
qed

lemma tag_basics: "Method page_req = ''GET'' \<or> Method page_req = ''HEAD''" "version tag_entry \<noteq> 0"
  "osf (cenv (tag_client rs)) = no_faults" "Value tag_entry ! 0 = tag_page" "hash_ok tag_page"
  by (simp_all add: page_req_def tag_entry_def tag_client_def mem_env_simps hash_ok_def tag_page_def page_def)

lemma tag_check:
  "revalidation_check (tag_client [tag_page]) page_req no_upstream (tag_world two_files) tag_entry
     (\<lambda>fw. hdr_Get (Header (fw_resp fw)) ''Etag'' = tag \<and> gm_wf (Header (fw_resp fw)))"
  "revalidation_check (tag_client [tag_page]) page_req no_upstream (tag_world []) tag_entry
     (\<lambda>fw. hdr_Get (Header (fw_resp fw)) ''Etag'' = tag)"
  by code_simp+

lemma tag_match: "first_match tag (Value tag_entry) 0" "2 \<le> length tag" "tag \<noteq> []"
  by code_simp+

theorem revalidation_serves_stored_witness:
  "\<exists>r w'. Do (tag_client [tag_page]) pooled0 page_req no_upstream (tag_world two_files) = Ret (Inr r, w') \<and>
     StatusCode r = 200 \<and> Body r = FileBody ''new'' \<and> statuses w' = [''revalidated'']"
proof -
  obtain fw w1 where r: "revalidates (tag_client [tag_page]) pooled0 page_req no_upstream (tag_world two_files) tag_entry fw w1"
    and fw: "hdr_Get (Header (fw_resp fw)) ''Etag'' = tag" "gm_wf (Header (fw_resp fw))"
    using revalidation_check [OF tag_check(1) tag_basics(1) tag_get tag_basics(2)] by blast
  have b: "blob (cfs (wcache (tag_world two_files))) (ContentHash (Value tag_entry ! 0)) = Some ''new''"
    using page_body [of 0] by (simp add: tag_world_def page_world_def tag_entry_def tag_page_def)
  show ?thesis
    using revalidation_serves_stored [OF r tag_basics(3) _ _ fw(2) b] tag_match fw(1)
    by (simp add: tag_world_def page_world_def) blast
qed

lemma revalidation_panics_witness:
  "\<exists>m. Do (tag_client [tag_page]) pooled0 page_req no_upstream (tag_world []) = Panic m"
proof -
  obtain fw w1 where r: "revalidates (tag_client [tag_page]) pooled0 page_req no_upstream (tag_world []) tag_entry fw w1"
    and fw: "hdr_Get (Header (fw_resp fw)) ''Etag'' = tag"
    using revalidation_check [OF tag_check(2) tag_basics(1) tag_get tag_basics(2)] by blast
  have "blob (cfs (wcache (tag_world []))) (ContentHash (Value tag_entry ! 0)) = None"
    by (simp add: blob_def tag_world_def fs_file_def)
  then have "\<exists>i. first_match (hdr_Get (Header (fw_resp fw)) ''Etag'') (Value tag_entry) i \<and> hash_ok (Value tag_entry ! i) \<and>
      blob (cfs (wcache (tag_world []))) (ContentHash (Value tag_entry ! i)) = None"
    using tag_match(1) tag_basics(4,5) fw by (intro exI [of _ 0]) simp
  moreover have "2 \<le> length (hdr_Get (Header (fw_resp fw)) ''Etag'')" using tag_match(2) fw by simp
  ultimately show ?thesis
    using revalidation_panics [OF r tag_basics(3)] by blast
qed

definition tag_fw :: forwarded where
  "tag_fw = \<lparr>fw_resp = \<lparr>StatusCode = 304, Header = not_modified, Body = hello\<rparr>, fw_created = 5 * Second,
     fw_received = 6 * Second\<rparr>"

definition tag_refreshed :: CachedResponse where
  "tag_refreshed = refreshed tag_page tag_fw (1000 * Second)"

theorem revalidation_is_recorded_witness:
  "\<exists>r w' m. refreshResponseAndServe (tag_client [tag_refreshed]) ''GET+http://h/'' tag_entry 0 tag_fw (tag_world two_files) = Ret (r, w') \<and>
     1 < m \<and> cache_Get (cenv (tag_client [tag_refreshed])) (wcache w') ''GET+http://h/'' pooled0 =
       (None, \<lparr>Value = norm_responses [tag_refreshed], version = m\<rparr>)"
proof -
  let ?c = "tag_client [tag_refreshed]" and ?w = "tag_world two_files"
  have b: "blob (cfs (wcache ?w)) (ContentHash (Value tag_entry ! 0)) = Some ''new''"
    using page_body [of 0] by (simp add: tag_world_def page_world_def tag_entry_def tag_page_def)
  have ok: "hash_ok (Value tag_entry ! 0)" using tag_basics(4,5) by simp
  obtain r w' where r: "refreshResponseAndServe ?c ''GET+http://h/'' tag_entry 0 tag_fw ?w = Ret (r, w')"
    using refresh_result [OF tag_basics(3) ok refl, where w = ?w and fw = tag_fw] b by fastforce
  have f: "refreshed (Value tag_entry ! 0) tag_fw (clk ?c (ticks ?w)) = tag_refreshed"
    by (simp add: tag_client_def page_client_def tag_world_def page_world_def tag_refreshed_def tag_entry_def)
  have "mem_env\<lparr>msgp := single_codec [tag_refreshed]\<rparr> = mem_env\<lparr>msgp := single_codec [tag_refreshed], fcache := small_cache\<rparr>"
    by (simp add: mem_env_def)
  then have h: "healthy_cache (cenv ?c) mem_live mem_ts"
    using single_codec_healthy [where rs = "[tag_refreshed]" and fc = small_cache] by (simp add: tag_client_def)
  have "\<exists>m. version tag_entry < m \<and> cache_Get (cenv ?c) (wcache w') ''GET+http://h/'' pooled0 =
      (None, \<lparr>Value = norm_responses ((Value tag_entry)[0 := refreshed (Value tag_entry ! 0) tag_fw (clk ?c (ticks ?w))]), version = m\<rparr>)"
  proof (rule revalidation_is_recorded [OF h _ _ _ _ _ r ok])
    show "mem_live (cdb (wcache ?w))" by (simp add: mem_live_def mem_ok_def tag_world_def page_world_def gm_wf_def)
    show "kv_get (kvs (cenv ?c)) (cdb (wcache ?w)) ''GET+http://h/'' = Inr \<lparr>item_value = Inr ''p'', item_version = 1\<rparr>"
      by (simp add: tag_client_def mem_env_simps tag_world_def page_world_def mem_badger_def mem_get_def)
    show "MarshalMsg (msgp (cenv ?c)) (Value (refreshed_entry tag_entry 0 tag_fw (clk ?c (ticks ?w)))) = Inr ''r''"
      unfolding refreshed_entry_def f by (simp add: tag_client_def single_codec_def tag_entry_def)
  qed (simp_all add: tag_entry_def)
  then show ?thesis using r f by (auto simp: tag_entry_def)
qed

definition upstream_u :: URL where
  "upstream_u = url_zero\<lparr>Scheme := ''http'', Host := ''u'', Path := ''/c''\<rparr>"

theorem upstreams_in_order_witness:
  "\<exists>n out. first_answer page_client [] (attempts \<lparr>Uris = [upstream_u], Proxy = False\<rparr> page_req) n out"
proof -
  let ?up = "\<lparr>Uris = [upstream_u], Proxy = False\<rparr>"
  obtain res q w' where "forwardRequestWithUpstream page_client page_req ?up (page_world 0) = (res, q, w')"
    by (cases "forwardRequestWithUpstream page_client page_req ?up (page_world 0)")
  from upstreams_in_order [OF this] show ?thesis by (auto simp: page_world_def)
qed

text \<open>A badger that cannot be read.\<close>

definition broken_client :: "mem client" where
  "broken_client = page_client\<lparr>cenv := mem_env\<lparr>kvs := mem_badger\<lparr>kv_get := \<lambda>s k. Inl (KvFailure ''io'')\<rparr>\<rparr>\<rparr>"

lemma pooled_entry_leaks_witness:
  "\<exists>r w' i. Do broken_client page_entry (page_req\<lparr>ReqURL := upstream_u\<rparr>) no_upstream (page_world 10) = Ret (Inr r, w') \<and>
     answers broken_client (page_world 10) page i r"
proof -
  have sel: "selectMostRecentCandidates (selectResponseCandidates (page_req\<lparr>ReqURL := upstream_u\<rparr>) page_entry) = [page]"
    by code_simp
  have "upstream_down broken_client" "osf (cenv broken_client) = no_faults"
    "kv_get (kvs (cenv broken_client)) (cdb (wcache (page_world 10))) k = Inl (KvFailure ''io'')" for k
    by (simp_all add: broken_client_def upstream_down_def page_client_def mem_env_simps)
  moreover have "version page_entry \<noteq> 0" "vary_foreign (Value page_entry)"
    "Method (page_req\<lparr>ReqURL := upstream_u\<rparr>) = ''GET'' \<or> Method (page_req\<lparr>ReqURL := upstream_u\<rparr>) = ''HEAD''"
    by (simp_all add: page_entry_def page_def vary_foreign_def page_req_def)
  ultimately show ?thesis
    using pooled_entry_leaks [OF _ _ _ _ _ _ sel page_body, of broken_client 10 "''io''" no_upstream] by blast
qed

definition slash_req :: request where
  "slash_req = page_req\<lparr>ReqURL := page_url\<lparr>Path := ''/a/b'', RawPath := ''/a%2Fb''\<rparr>\<rparr>"

lemma upstream_path_escaping_witness:
  "EscapedPath (ReqURL slash_req) = ''/a%2Fb'' \<and>
   EscapedPath (ReqURL (buildUpstreamRequest False slash_req upstream_u)) = ''/c/a/b''"
proof -
  have "validEncoded (RawPath (ReqURL slash_req)) encodePath" "RawPath (ReqURL slash_req) \<noteq> []"
    "unescape (RawPath (ReqURL slash_req)) encodePath = Inr (Path (ReqURL slash_req))"
    by code_simp+
  note e = upstream_path_escaping [OF this, of upstream_u]
  have "escape (Path upstream_u @ Path (ReqURL slash_req)) encodePath = ''/c/a/b''" "Path upstream_u \<noteq> []"
    "Path upstream_u @ Path (ReqURL slash_req) \<noteq> ''*''" "EscapedPath (ReqURL slash_req) = ''/a%2Fb''"
    by code_simp+
  then show ?thesis using e by simp
qed

end
