(* ===== verification/Lineage.thy ===== *)
theory Lineage
  imports CompareAndSwap Revalidation
begin

text \<open>
  The invariant of the cache as a whole: what the database refers to was received for its key, and
  the files have the contents that they are named by. Every operation of the client, of the
  clean-up and of the administration keeps it.
\<close>

section \<open>Where bodies come from\<close>

text \<open>A hash is known for a key if a body with it was received for the key.\<close>

definition known :: "'s client \<Rightarrow> (string \<times> reader) list \<Rightarrow> string \<Rightarrow> string \<Rightarrow> bool" where
  "known c L key h \<longleftrightarrow> (\<exists>rd. (key, rd) \<in> set L \<and> body_hash (blake3 (cenv c)) (remaining rd) = h)"

definition known_responses :: "'s client \<Rightarrow> (string \<times> reader) list \<Rightarrow> string \<Rightarrow> CachedResponses \<Rightarrow> bool" where
  "known_responses c L key rs \<longleftrightarrow> list_all (\<lambda>r. known c L key (ContentHash r)) rs"

definition known_map :: "'s client \<Rightarrow> (string \<times> reader) list \<Rightarrow> CachedResponses cas \<Rightarrow> bool" where
  "known_map c L m \<longleftrightarrow> (\<forall>key n rs. m key = Some (n, rs) \<longrightarrow> known_responses c L key rs)"

definition known_entry :: "'s client \<Rightarrow> (string \<times> reader) list \<Rightarrow> string \<Rightarrow> CachedResponses Entry \<Rightarrow> bool" where
  "known_entry c L key e \<longleftrightarrow> version e \<noteq> 0 \<longrightarrow> known_responses c L key (Value e)"

definition known_result :: "'s client \<Rightarrow> (string \<times> reader) list \<Rightarrow> string \<Rightarrow> do_result \<Rightarrow> bool" where
  "known_result c L key res \<longleftrightarrow> (\<forall>r. res = Inr r \<longrightarrow>
     (case Body r of
        NetBody _ \<Rightarrow> True
      | FileBody bytes \<Rightarrow> known c L key (body_hash (blake3 (cenv c)) bytes)
      | TeeBody g x \<Rightarrow> ctx_key x = key \<and> known_entry c L key (ctx_entry x) \<and> ingesting (src (tee g)) g \<and> eof_last (src (tee g))))"

lemma known_mono: "set L \<subseteq> set L' \<Longrightarrow> known c L key h \<Longrightarrow> known c L' key h"
  by (auto simp: known_def)

lemma known_responses_mono: "set L \<subseteq> set L' \<Longrightarrow> known_responses c L key rs \<Longrightarrow> known_responses c L' key rs"
  by (auto simp: known_responses_def list_all_iff intro: known_mono)

lemma known_entry_mono: "set L \<subseteq> set L' \<Longrightarrow> known_entry c L key e \<Longrightarrow> known_entry c L' key e"
  by (auto simp: known_entry_def intro: known_responses_mono)

lemma known_map_mono: "set L \<subseteq> set L' \<Longrightarrow> known_map c L m \<Longrightarrow> known_map c L' m"
  unfolding known_map_def using known_responses_mono by blast

lemma known_norm [simp]: "known_responses c L key (norm_responses rs) \<longleftrightarrow> known_responses c L key rs"
  by (simp add: known_responses_def norm_responses_def list.pred_map norm_response_def comp_def)

lemma known_map_put: "known_map c L m \<Longrightarrow> known_responses c L key rs \<Longrightarrow> known_map c L (m(key \<mapsto> (n, rs)))"
  by (auto simp: known_map_def)

lemma known_map_remove: "known_map c L m \<Longrightarrow> known_map c L (m(key := None))"
  by (auto simp: known_map_def)

lemma known_update:
  "known_responses c L key rs \<Longrightarrow> known c L key (ContentHash r) \<Longrightarrow> known_responses c L key (rs[i := r])"
  using set_update_subset_insert [of rs i r] by (auto simp: known_responses_def list_all_iff)

lemma known_replace:
  "known_responses c L key rs \<Longrightarrow> known c L key (ContentHash r) \<Longrightarrow> known_responses c L key (replace_variant h r rs)"
  by (induction rs) (auto simp: known_responses_def)

lemma known_result_simps [simp]:
  "known_result c L key (Inl e)" "known_result c L key (upstream_result res)" "known_result c L key (Inr (net_response r))"
  by (auto simp: known_result_def upstream_result_def net_response_def split: sum.splits)

section \<open>The invariant of the cache\<close>

text \<open>
  The database holds a map of known responses, and the files have the hashes that they are named
  by. Errors of the files are allowed everywhere; the database answers what it holds.
\<close>

definition cache_inv :: "('s \<Rightarrow> bool) \<Rightarrow> 's client \<Rightarrow> (string \<times> reader) list \<Rightarrow> 's cache \<Rightarrow> bool" where
  "cache_inv ok c L k \<longleftrightarrow> ok (cdb k) \<and> fc_inv (blake3 (cenv c)) (cfs k) \<and>
     (\<exists>m. represents (kvs (cenv c)) (msgp (cenv c)) (cdb k) m \<and> known_map c L m)"

lemma cache_inv_files: "cache_inv ok c L k \<Longrightarrow> fc_inv (blake3 (cenv c)) t \<Longrightarrow> cache_inv ok c L (k\<lparr>cfs := t\<rparr>)"
  by (simp add: cache_inv_def)

lemma cache_inv_mono: "set L \<subseteq> set L' \<Longrightarrow> cache_inv ok c L k \<Longrightarrow> cache_inv ok c L' k"
  using known_map_mono unfolding cache_inv_def by blast

lemma candidates_stored: "set (selectMostRecentCandidates (selectResponseCandidates req e)) \<subseteq> set (Value e)"
  by (auto simp: most_recent_filter selectResponseCandidates_def split: if_splits)

lemma known_responsesD: "known_responses c L key rs \<Longrightarrow> r \<in> set rs \<Longrightarrow> known c L key (ContentHash r)"
  by (simp add: known_responses_def list_all_iff)

lemma open_inv:
  assumes "cache_inv ok c L k" "cache_Open (cenv c) t k h = Ret (r, k')"
  shows "cache_inv ok c L k'" and "r = Inr bytes \<Longrightarrow> body_hash (blake3 (cenv c)) bytes = h"
proof -
  obtain t' where o: "fc_Open (osf (cenv c)) t (cfs k) h = Ret (r, t')" "k' = k\<lparr>cfs := t'\<rparr>"
    using assms(2) by (auto simp: cache_Open_def split: go.splits prod.splits)
  have inv: "fc_inv (blake3 (cenv c)) (cfs k)" using assms(1) by (simp add: cache_inv_def)
  show "cache_inv ok c L k'" using cache_inv_files [OF assms(1) fc_inv_Open [OF inv o(1)]] o(2) by simp
  show "body_hash (blake3 (cenv c)) bytes = h" if "r = Inr bytes"
    using fc_inv_blob [OF inv] cache_Open_result [OF assms(2)] that by blast
qed

lemma serve_loop_inv:
  "serve_loop c force rs w = Ret (ro, w') \<Longrightarrow> cache_inv ok c L (wcache w) \<Longrightarrow> cache_inv ok c L (wcache w')"
proof (induction rs arbitrary: w)
  case (Cons x rs)
  then show ?case
    by (auto simp: now_def split: if_splits prod.splits go.splits sum.splits dest: open_inv(1))
qed simp

lemma serve_inv:
  assumes "serveFromCache c req e force w = Ret (ro, w')" "cache_inv ok c L (wcache w)" "known_responses c L key (Value e)"
  shows "cache_inv ok c L (wcache w')" and "ro = Some r \<Longrightarrow> known_result c L key (Inr r)"
proof -
  show "cache_inv ok c L (wcache w')"
    using assms(1,2) serve_loop_inv
    by (auto simp: serveFromCache_def serveFromCachedCandidates_def split: list.splits)
  assume r: "ro = Some r"
  obtain x i where x: "x \<in> set (selectMostRecentCandidates (selectResponseCandidates req e))" "answers c w x i r"
    using serveFromCache_result [OF assms(1)] r by blast
  then obtain bytes where b: "blob (cfs (wcache w)) (ContentHash x) = Some bytes" "Body r = FileBody bytes"
    by (auto simp: answers_def)
  have "body_hash (blake3 (cenv c)) bytes = ContentHash x"
    using fc_inv_blob b(1) assms(2) by (auto simp: cache_inv_def)
  then show "known_result c L key (Inr r)"
    using known_responsesD [OF assms(3)] x(1) candidates_stored [of req e] b(2) by (auto simp: known_result_def)
qed

lemma stale_inv:
  assumes "serve_stale c req e w = Ret (ro, w')" "cache_inv ok c L (wcache w)" "known_entry c L key e"
  shows "cache_inv ok c L (wcache w')" and "ro = Some r \<Longrightarrow> known_result c L key (Inr r)"
  using assms serve_inv [of c req e True w ro w' ok L key]
  by (auto simp: serve_stale_def known_entry_def split: if_splits)

section \<open>What the clients do to the cache\<close>

lemma cache_inv_world [simp]: "cache_inv ok c L (wcache (notify st w)) = cache_inv ok c L (wcache w)"
  "cache_inv ok c L (wcache (drain r w)) = cache_inv ok c L (wcache w)"
  by (simp_all add: notify_def drain_def split: sum.splits)

lemma find_modified_bound: "find_modified d rs k = Some i \<Longrightarrow> k \<le> i \<and> i < k + length rs"
  by (induction rs arbitrary: k) (fastforce split: if_splits)+

lemma find_etag_bound: "find_etag d rs k = Ret (Some i) \<Longrightarrow> k \<le> i \<and> i < k + length rs"
  by (induction rs arbitrary: k) (fastforce split: go.splits bool.splits)+

lemma ingesting_Read:
  assumes "ingesting s g" "ingest_Read n g = (p, e, g')"
  shows "ingesting s g'"
proof -
  obtain name cap ks res where r: "tee_reads sink_write ks
      (TeeReader_New s \<lparr>tmp_name = name, written = [], hashed = [], capacity = cap\<rparr>) = (res, tee g)"
    using assms(1) by (auto simp: ingesting_def)
  obtain t' where t: "TeeReader_Read sink_write n (tee g) = (p, e, t')" "g' = g\<lparr>tee := t'\<rparr>"
    using assms(2) by (auto simp: ingest_Read_def split: prod.splits)
  have "tee_reads sink_write (ks @ [n]) (TeeReader_New s \<lparr>tmp_name = name, written = [], hashed = [], capacity = cap\<rparr>)
      = (res @ [(p, e)], tee g')"
    using r t by (simp add: tee_reads_append)
  then show ?thesis unfolding ingesting_def by blast
qed

lemma src_new: "src (TeeReader_New s d) = s"
  by (simp add: TeeReader_New_def)

lemma ingesting_new: "ingesting s \<lparr>tee = TeeReader_New s \<lparr>tmp_name = n, written = [], hashed = [], capacity = cap\<rparr>, wasCalled = b\<rparr>"
proof -
  have "tee_reads sink_write [] (TeeReader_New s \<lparr>tmp_name = n, written = [], hashed = [], capacity = cap\<rparr>)
      = ([], TeeReader_New s \<lparr>tmp_name = n, written = [], hashed = [], capacity = cap\<rparr>)" by simp
  then show ?thesis unfolding ingesting_def ingestion.simps by blast
qed

lemma setupIngestion_inv:
  assumes "setupIngestion c req fw key e w = (b, w')" "cache_inv ok c L (wcache w)" "known_entry c L key e"
    "eof_last (Body (fw_resp fw))"
  shows "cache_inv ok c L (wcache w')" and "Body r = b \<Longrightarrow> known_result c L key (Inr r)"
proof -
  obtain br t where s: "SetupIngestion (osf (cenv c)) (tmp_names c (ticks w)) (disk_space c) (clk c (ticks w))
      (cfs (wcache w)) (Body (fw_resp fw)) = (br, t)"
    by (cases "SetupIngestion (osf (cenv c)) (tmp_names c (ticks w)) (disk_space c) (clk c (ticks w))
      (cfs (wcache w)) (Body (fw_resp fw))")
  have "fc_inv (blake3 (cenv c)) (cfs (wcache w))" using assms(2) by (simp add: cache_inv_def)
  then have "cache_inv ok c L ((wcache w)\<lparr>cfs := t\<rparr>)" by (rule cache_inv_files [OF assms(2) fc_inv_SetupIngestion [OF _ s]])
  moreover have "wcache w' = (wcache w)\<lparr>cfs := t\<rparr>"
    using assms(1) s by (auto simp: setupIngestion_def cache_SetupIngestion_def split: body_reader.splits)
  ultimately show "cache_inv ok c L (wcache w')" by simp
  have "br = PlainBody (Body (fw_resp fw)) \<or> (\<exists>g. br = IngestBody g \<and> ingesting (Body (fw_resp fw)) g \<and> src (tee g) = Body (fw_resp fw))"
    using s by (auto simp: SetupIngestion_def ingesting_new src_new split: if_splits)
  then show "known_result c L key (Inr r)" if "Body r = b"
    using assms(1,3,4) s that by (auto simp: setupIngestion_def cache_SetupIngestion_def known_result_def split: body.splits)
qed

lemma do_store_inv:
  assumes "do_store c req key e fw w = Ret (res, w')" "cache_inv ok c L (wcache w)" "known_entry c L key e"
    "eof_last (Body (fw_resp fw))"
  shows "cache_inv ok c L (wcache w') \<and> known_result c L key res"
proof (cases "setupIngestion c req fw key e (notify ''miss'' w)")
  case (Pair b w1)
  note s = setupIngestion_inv [OF Pair _ assms(3,4)]
  show ?thesis
    using assms(1,2) Pair s by (auto simp: do_store_def split: prod.splits if_splits)
qed

section \<open>The interface of the system\<close>

text \<open>
  What the system relies on: badger's contract, which a database that was opened fulfils too, the
  codec's, and that the readers of the upstream's bodies report their end last. The disk may fail in any way, and so may the upstream.
\<close>

locale caching_system = badger "kvs (cenv c)" ok clock
  for c :: "'s client" and ok :: "'s \<Rightarrow> bool" and clock :: "'s \<Rightarrow> nat" +
  assumes codec: "codec_ok (msgp (cenv c)) norm_responses"
    and bodies: "transport c hist rq = Inr resp \<Longrightarrow> eof_last (Body resp)"
    and opens: "kv_open (kvs (cenv c)) path = Inr s \<Longrightarrow> ok s"
begin

lemma get_inv:
  assumes "cache_inv ok c L k" "cache_Get (cenv c) k key pooled = (r, e)"
  shows "known_entry c L key e" and "r = None \<Longrightarrow> known_responses c L key (Value e)"
proof -
  obtain m where m: "represents (kvs (cenv c)) (msgp (cenv c)) (cdb k) m" "known_map c L m"
    using assms(1) by (auto simp: cache_inv_def)
  have "(r = Some ErrKeyNotFound \<and> version e = 0) \<or> (r = None \<and> known_responses c L key (Value e))"
    using assms(2) m(2) unfolding cache_Get_def get_represented [OF m(1)]
    by (auto simp: known_map_def split: option.splits)
  then show "known_entry c L key e" and "r = None \<Longrightarrow> known_responses c L key (Value e)"
    by (auto simp: known_entry_def)
qed

lemma db_Save_inv:
  assumes "cache_inv ok c L k" "db_Save (kvs (cenv c)) (msgp (cenv c)) (cdb k) key e = Inr s'" "known_responses c L key (Value e)"
  shows "cache_inv ok c L (k\<lparr>cdb := s'\<rparr>)"
proof -
  obtain m where m: "represents (kvs (cenv c)) (msgp (cenv c)) (cdb k) m" "known_map c L m" and o: "ok (cdb k)"
    using assms(1) by (auto simp: cache_inv_def)
  obtain n where "ok s'" "represents (kvs (cenv c)) (msgp (cenv c)) s' (m(key \<mapsto> (n, norm_responses (Value e))))"
    using save_simulated [OF o codec m(1) assms(2)] by blast
  moreover have "known_map c L (m(key \<mapsto> (n, norm_responses (Value e))))"
    using known_map_put [OF m(2)] assms(3) by simp
  ultimately show ?thesis using assms(1) by (auto simp: cache_inv_def)
qed

lemma db_Delete_inv:
  assumes "cache_inv ok c L k" "db_Delete (kvs (cenv c)) (cdb k) key e = Inr s'"
  shows "cache_inv ok c L (k\<lparr>cdb := s'\<rparr>)"
proof -
  obtain m where m: "represents (kvs (cenv c)) (msgp (cenv c)) (cdb k) m" "known_map c L m" and o: "ok (cdb k)"
    using assms(1) by (auto simp: cache_inv_def)
  have "ok s'" "represents (kvs (cenv c)) (msgp (cenv c)) s' (m(key := None))"
    using delete_simulated [OF o m(1) assms(2)] by blast+
  then show ?thesis using assms(1) known_map_remove [OF m(2)] by (auto simp: cache_inv_def)
qed

lemma save_inv:
  assumes "cache_inv ok c L k" "known_responses c L key (Value e)"
  shows "cache_inv ok c L (snd (cache_Save (cenv c) k key e))"
  using assms db_Save_inv [OF assms(1) _ assms(2)] by (auto simp: cache_Save_def split: sum.splits)

lemma new_inv:
  assumes "cache_inv ok c L k" "known_responses c L key rs"
  shows "cache_inv ok c L (snd (cache_New (cenv c) k key rs))"
  using assms db_Save_inv [OF assms(1), of key "\<lparr>Value = rs, version = 0\<rparr>"]
  by (auto simp: cache_New_def db_New_def split: sum.splits)

lemma refreshed_inv:
  assumes "cache_inv ok c L k" "known_responses c L key (Value e)" "i < length (Value e)"
  shows "cache_inv ok c L (snd (cache_Save (cenv c) k key (refreshed_entry e i fw t)))"
proof -
  have "known c L key (ContentHash (Value e ! i))" using known_responsesD [OF assms(2)] assms(3) by simp
  then have "known_responses c L key (Value (refreshed_entry e i fw t))"
    using known_update [OF assms(2)] by (simp add: refreshed_entry_def refreshed_def)
  then show ?thesis by (rule save_inv [OF assms(1)])
qed

lemma refresh_inv:
  assumes "refreshResponseAndServe c key e i fw w = Ret (r, w')" "cache_inv ok c L (wcache w)"
    "known_responses c L key (Value e)" "i < length (Value e)"
  shows "cache_inv ok c L (wcache w') \<and> known_result c L key (Inr r)"
proof -
  let ?k = "snd (cache_Save (cenv c) (wcache w) key (refreshed_entry e i fw (clk c (ticks w))))"
  obtain bytes k' where o: "cache_Open (cenv c) (clk c (Suc (ticks w))) ?k (ContentHash (Value e ! i)) = Ret (Inr bytes, k')"
      "wcache w' = k'" "Body r = FileBody bytes"
    using assms(1)
    by (auto simp: refreshResponseAndServe_def refreshed_entry_def refreshed_def Let_def now_def
        split: prod.splits go.splits sum.splits)
  have "known c L key (ContentHash (Value e ! i))" using known_responsesD [OF assms(3)] assms(4) by simp
  then show ?thesis using open_inv [OF refreshed_inv [OF assms(2-4)] o(1)] o(2,3) by (auto simp: known_result_def)
qed

lemma updateCache_inv:
  assumes "updateCache c key e fw w = Ret (ro, w')" "cache_inv ok c L (wcache w)" "known_responses c L key (Value e)"
  shows "cache_inv ok c L (wcache w') \<and> (\<forall>r. ro = Some r \<longrightarrow> known_result c L key (Inr r))"
proof -
  consider "ro = None" "w' = w" | i r where "i < length (Value e)" "ro = Some r" "refreshResponseAndServe c key e i fw w = Ret (r, w')"
    using assms(1)
    by (auto simp: updateCache_def serve_refreshed_def Let_def split: if_splits go.splits option.splits prod.splits
        dest: find_etag_bound find_modified_bound)
  then show ?thesis
    by cases (use assms(2) refresh_inv [OF _ assms(2,3)] in auto)
qed

end

context caching_system
begin

lemma forward_body: "forwardRequest c req w = (Inr f, req', w') \<Longrightarrow> eof_last (Body (fw_resp f))"
  using forwardRequest_response bodies by metis

lemma try_upstreams_body: "try_upstreams c proxy req us w = (Some f, w') \<Longrightarrow> eof_last (Body (fw_resp f))"
  by (induction us arbitrary: w) (auto split: prod.splits sum.splits dest: forward_body)

lemma forward_upstream_body: "forwardRequestWithUpstream c req up w = (Inr f, req', w') \<Longrightarrow> eof_last (Body (fw_resp f))"
  by (auto simp: forwardRequestWithUpstream_def split: prod.splits option.splits dest: forward_body try_upstreams_body)

lemma do_retry_inv:
  assumes "do_retry c req orig up key e w = Ret (res, w')" "cache_inv ok c L (wcache w)" "known_entry c L key e"
  shows "cache_inv ok c L (wcache w') \<and> known_result c L key res"
proof -
  obtain r rq w1 where f: "forwardRequestWithUpstream c orig up w = (r, rq, w1)" by (metis prod_cases3)
  have inv: "cache_inv ok c L (wcache w1)" using forwardRequestWithUpstream_frame [OF f] assms(2) by simp
  show ?thesis
    using assms(1) f inv do_store_inv [OF _ inv assms(3) forward_upstream_body] stale_inv [OF _ inv assms(3)]
    by (auto simp: do_retry_def split: if_splits go.splits option.splits sum.splits prod.splits)
qed

lemma do_answered_inv:
  assumes "do_answered c req orig up key e hc wc fw w = Ret (res, w')" "cache_inv ok c L (wcache w)" "known_entry c L key e"
    "hc \<Longrightarrow> version e \<noteq> 0" "eof_last (Body (fw_resp fw))"
  shows "cache_inv ok c L (wcache w') \<and> known_result c L key res"
proof (cases "hc \<and> StatusCode (fw_resp fw) = 304")
  case True
  then have k: "known_responses c L key (Value e)" using assms(3,4) by (simp add: known_entry_def)
  obtain ro w1 where u: "updateCache c key e fw w = Ret (ro, w1)"
    using assms(1) True by (auto simp: do_answered_def split: go.splits)
  note i = updateCache_inv [OF u assms(2) k]
  show ?thesis
    using assms(1) True u i do_retry_inv [OF _ conjunct1 [OF i] assms(3)]
    by (auto simp: do_answered_def split: if_splits option.splits)
next
  case False
  then show ?thesis using assms(1) do_store_inv [OF _ assms(2,3,5)] by (auto simp: do_answered_def)
qed

lemma do_upstream_inv:
  assumes "do_upstream c req up key e w = Ret (res, w')" "cache_inv ok c L (wcache w)" "known_entry c L key e"
  shows "cache_inv ok c L (wcache w') \<and> known_result c L key res"
proof -
  obtain rq hc wc where a: "(if version e \<noteq> 0 then addConditionalRequestInformation req e else (req, False, False)) = (rq, hc, wc)"
    by (metis prod_cases3)
  then have hc: "hc \<Longrightarrow> version e \<noteq> 0" by (auto split: if_splits)
  obtain r rq' w1 where f: "forwardRequestWithUpstream c rq up w = (r, rq', w1)" by (metis prod_cases3)
  have inv: "cache_inv ok c L (wcache w1)" using forwardRequestWithUpstream_frame [OF f] assms(2) by simp
  note st = stale_inv [OF _ inv assms(3)] and an = do_answered_inv [OF _ _ assms(3) hc forward_upstream_body]
  show ?thesis
    using assms(1) f st inv unfolding do_upstream_def a
    by (auto split: if_splits go.splits option.splits sum.splits prod.splits dest: an)
qed

end

section \<open>The other steps\<close>

lemma valid_values_subset: "valid_values F t rs = Inr vs \<Longrightarrow> set vs \<subseteq> set rs"
  by (induction rs arbitrary: vs) (fastforce split: go.splits sum.splits if_splits)+

lemma known_responses_subset: "known_responses c L key rs \<Longrightarrow> set vs \<subseteq> set rs \<Longrightarrow> known_responses c L key vs"
  by (auto simp: known_responses_def list_all_iff)

lemma delete_bodies_inv:
  "delete_bodies F rs t err = Ret (e, t') \<Longrightarrow> fc_inv b3 t \<Longrightarrow> fc_inv b3 t'"
  by (induction rs arbitrary: t err) (auto split: go.splits sum.splits if_splits dest: fc_inv_Delete)

text \<open>What an iteration keeps, if its callback does for the items of the snapshot.\<close>

lemma send_inv:
  assumes "\<And>x v a e a'. x \<in> set xs \<Longrightarrow> unmarshal C (kv_Value x) zero = (v, None) \<Longrightarrow> I a \<Longrightarrow>
      f (kv_Key x) \<lparr>Value = v, version = kv_Version x\<rparr> a = (e, a') \<Longrightarrow> I a'"
    and "send C zero f xs a = (r, a')" "I a"
  shows "I a'"
  using assms
proof (induction xs arbitrary: a)
  case (Cons x xs)
  show ?case
  proof (cases "unmarshal C (kv_Value x) zero")
    case (Pair v eo)
    then show ?thesis
      using Cons.prems Cons.IH by (fastforce split: option.splits prod.splits)
  qed
qed simp

context caching_system
begin

lemma prune_inv:
  assumes "pruneDatabaseEntry (cenv c) t key e s = (r, s')" "cache_inv ok c L (k\<lparr>cdb := s\<rparr>)" "known_responses c L key (Value e)"
  shows "cache_inv ok c L (k\<lparr>cdb := s'\<rparr>)"
  using assms db_Save_inv [OF assms(2), of key] db_Delete_inv [OF assms(2), of key e]
    known_responses_subset [OF assms(3) valid_values_subset]
  by (auto simp: pruneDatabaseEntry_def split: sum.splits if_splits)

lemma removeUnused_inv:
  assumes "removeUnusedDatabaseEntries (cenv c) hs k = Ret (e, k')" "cache_inv ok c L k"
  shows "cache_inv ok c L k'"
proof -
  let ?xs = "fst (kv_stream (kvs (cenv c)) (cdb k))"
  obtain m where m: "represents (kvs (cenv c)) (msgp (cenv c)) (cdb k) m" "known_map c L m" and o: "ok (cdb k)"
    using assms(2) by (auto simp: cache_inv_def)
  have known: "known_responses c L (kv_Key x) v" if x: "x \<in> set ?xs" "unmarshal (msgp (cenv c)) (kv_Value x) [] = (v, None)" for x v
  proof -
    have "cache_Get (cenv c) k (kv_Key x) \<lparr>Value = [], version = 0\<rparr> = (None, \<lparr>Value = v, version = kv_Version x\<rparr>)"
      using stream_get [OF o x(1)] x(2) by (simp add: cache_Get_def db_Get_def)
    from get_inv(2) [OF assms(2) this] show ?thesis by simp
  qed
  obtain r hs' s' where s: "send (msgp (cenv c)) [] (unused_step (cenv c) (cfs k)) ?xs (hs, cdb k) = (r, hs', s')"
    by (metis prod_cases3)
  have "(\<lambda>(hs, s). cache_inv ok c L (k\<lparr>cdb := s\<rparr>)) (hs', s')"
  proof (rule send_inv [OF _ s])
    fix x v a e' a'
    assume x: "x \<in> set ?xs" "unmarshal (msgp (cenv c)) (kv_Value x) [] = (v, None)" "(\<lambda>(hs, s). cache_inv ok c L (k\<lparr>cdb := s\<rparr>)) a"
      "unused_step (cenv c) (cfs k) (kv_Key x) \<lparr>Value = v, version = kv_Version x\<rparr> a = (e', a')"
    then show "(\<lambda>(hs, s). cache_inv ok c L (k\<lparr>cdb := s\<rparr>)) a'"
      using known [OF x(1,2)] prune_inv by (fastforce simp: unused_step_def split: prod.splits if_splits)
  qed (use assms(2) in simp)
  then have "cache_inv ok c L (k\<lparr>cdb := s'\<rparr>)" by simp
  moreover have "k' = k\<lparr>cdb := s'\<rparr>"
    using assms(1) s
    by (auto simp: removeUnusedDatabaseEntries_def db_Iterate_def iter_result_def
        split: go.splits prod.splits option.splits iter_error.splits callback_error.splits)
  ultimately show ?thesis by simp
qed

lemma cleanup_inv:
  assumes "CleanupOldEntries (cenv c) other k = Ret k'" "cache_inv ok c L k"
    "\<forall>i t. (fc_step (blake3 (cenv c)) (fcache (cenv c)))\<^sup>*\<^sup>* t (other i t)"
  shows "cache_inv ok c L k'"
proof -
  have inv: "fc_inv (blake3 (cenv c)) (cfs k)" using assms(2) by (simp add: cache_inv_def)
  obtain r t where p: "Prune (osf (cenv c)) other (fcache (cenv c)) (cfs k) = Ret (r, t)"
    using assms(1) by (auto simp: CleanupOldEntries_def split: go.splits)
  have "fc_inv (blake3 (cenv c)) t"
    by (rule fc_inv_Prune [OF p _ inv]) (use assms(3) fc_inv_steps in blast)
  then have t: "cache_inv ok c L (k\<lparr>cfs := t\<rparr>)" by (rule cache_inv_files [OF assms(2)])
  have gc: "cache_inv ok c L (k1\<lparr>cdb := snd (RunGarbageCollector (kvs (cenv c)) (cdb k1))\<rparr>)" if "cache_inv ok c L k1" for k1
    using that gc_simulated gc_ok by (auto simp: cache_inv_def RunGarbageCollector_def)
  show ?thesis
    using assms(1) p t removeUnused_inv [OF _ t] gc
    by (auto simp: CleanupOldEntries_def Let_def split: go.splits sum.splits prod.splits)
qed

lemma remove_inv:
  assumes "cache_Remove (cenv c) k key = Ret (e, k')" "cache_inv ok c L k"
  shows "cache_inv ok c L k'"
proof -
  have "fc_inv (blake3 (cenv c)) (cfs k)" using assms(2) by (simp add: cache_inv_def)
  then show ?thesis
    using assms delete_bodies_inv db_Delete_inv [OF assms(2)] cache_inv_files
    by (fastforce simp: cache_Remove_def split: prod.splits option.splits sum.splits go.splits)
qed

lemma onIngest_inv:
  assumes "cache_inv ok c L (wcache w)" "known_entry c L (ctx_key x) (ctx_entry x)" "known c L (ctx_key x) h"
  shows "cache_inv ok c L (wcache (onIngest c x h w))"
proof -
  have h: "known c L (ctx_key x) (ContentHash (ingested_response x h t))" for t using assms(3) by (simp add: ingested_response_def)
  show ?thesis
    using assms(1,2) h known_replace [OF _ h]
    by (auto simp: onIngest_def now_def Let_def known_entry_def known_responses_def intro!: save_inv new_inv)
qed

text \<open>Closing a body of which \<open>s\<close> was the source.\<close>

lemma close_inv:
  assumes "close_ingested c g x w = Ret (r, g', w')" "cache_inv ok c L (wcache w)" "ingesting s g" "eof_last s"
    "(ctx_key x, s) \<in> set L" "known_entry c L (ctx_key x) (ctx_entry x)"
  shows "cache_inv ok c L (wcache w') \<and> ingesting s g'"
proof -
  obtain t where t: "ingest_Close (osf (cenv c)) (blake3 (cenv c)) (fcache (cenv c)) (clk c (ticks w)) g (cfs (wcache w)) = Ret (r, g', t)"
    "w' = (case cl_hash r of None \<Rightarrow> w\<lparr>wcache := (wcache w)\<lparr>cfs := t\<rparr>\<rparr> | Some h \<Rightarrow> onIngest c x h (w\<lparr>wcache := (wcache w)\<lparr>cfs := t\<rparr>\<rparr>))"
    using assms(1) by (auto simp: close_ingested_def Let_def split: go.splits prod.splits)
  have "fc_inv (blake3 (cenv c)) (cfs (wcache w))" using assms(2) by (simp add: cache_inv_def)
  from ingest_Close_inv [OF assms(3,4) this t(1)] have i: "cache_inv ok c L ((wcache w)\<lparr>cfs := t\<rparr>)"
    by (rule cache_inv_files [OF assms(2)])
  have "tee g' = tee g" using t(1) by (auto simp: ingest_Close_def split: if_splits go.splits)
  then have g: "ingesting s g'" using assms(3) by (simp add: ingesting_def)
  have "known c L (ctx_key x) h" if h: "cl_hash r = Some h" for h
  proof -
    have "\<not> wasCalled g" using t(1) h by (auto simp: ingest_Close_def)
    from ingest_Close_stored [OF assms(3,4) this t(1) h] assms(5) show ?thesis by (auto simp: known_def)
  qed
  then show ?thesis using t(2) i g onIngest_inv [OF _ assms(6)] by (auto split: option.splits)
qed

end

end
