(* ===== verification/Provenance.thy ===== *)
theory Provenance
  imports Lineage
begin

text \<open>
  The client, the database, the file cache and the clean-up together: requests that wait for their
  upstream, bodies that are read and closed while they are ingested, clean-ups, removals, requests
  that panic and restarts of the program, in any order. Whatever happened, a body that is served
  from the cache for a key has the hash of a body that was received for it.
\<close>

section \<open>The system\<close>

text \<open>
  \<open>pending\<close> are the requests that the cache could not answer, with the entry they have read;
  \<open>flight\<close> the bodies that clients are reading while they are ingested. For the statements only,
  \<open>received\<close> records every body that is ingested with the key of its request, and \<open>served\<close> every
  body that is served from a file.
\<close>

record 's system =
  wld :: "'s world"
  pending :: "(request \<times> CachedResponses Entry) list"
  flight :: "(ingestion \<times> ingest_ctx) list"
  received :: "(string \<times> reader) list"
  served :: "(string \<times> string) list"

definition answered :: "string \<Rightarrow> do_result \<Rightarrow> 's system \<Rightarrow> 's system" where
  "answered key res s =
     (case res of
        Inl e \<Rightarrow> s
      | Inr r \<Rightarrow>
          (case Body r of
             NetBody _ \<Rightarrow> s
           | FileBody bytes \<Rightarrow> s\<lparr>served := served s @ [(key, bytes)]\<rparr>
           | TeeBody g x \<Rightarrow> s\<lparr>flight := flight s @ [(g, x)], received := received s @ [(key, src (tee g))]\<rparr>))"

lemma answered_upstream [simp]: "answered key (upstream_result r) s = s"
  by (simp add: answered_def upstream_result_def net_response_def split: sum.splits)

text \<open>The first part of \<open>Do\<close>, up to the call of the upstream.\<close>

definition do_lookup ::
    "'s client \<Rightarrow> CachedResponses Entry \<Rightarrow> request \<Rightarrow> 's world
     \<Rightarrow> (body http_response option \<times> CachedResponses Entry \<times> 's world) go" where
  "do_lookup c pooled req w =
     (case cache_Get (cenv c) (wcache w) (buildKey req) pooled of
        (None, e) \<Rightarrow>
          (case serveFromCache c req e False w of Panic m \<Rightarrow> Panic m | Ret (ro, w1) \<Rightarrow> Ret (ro, e, w1))
      | (Some _, e) \<Rightarrow> Ret (None, e, w))"

lemma Do_lookup:
  assumes "Method req = ''GET'' \<or> Method req = ''HEAD''"
  shows "Do c pooled req up w =
    (case do_lookup c pooled req w of
       Panic m \<Rightarrow> Panic m
     | Ret (Some r, e, w1) \<Rightarrow> Ret (Inr r, notify ''hit'' w1)
     | Ret (None, e, w1) \<Rightarrow> do_upstream c req up (buildKey req) e w1)"
  unfolding Do_GET [OF assms] do_lookup_def by (auto split: prod.splits option.splits go.splits)

definition without :: "nat \<Rightarrow> 'a list \<Rightarrow> 'a list" where
  "without i xs = take i xs @ drop (Suc i) xs"

text \<open>
  A request that panics leaves the files that it has opened touched, and a response that it has
  refreshed saved (\<open>touched\<close>, \<open>refreshed_only\<close>). A restart loses the requests and may lose entries
  of the database, but does not change them.
\<close>

inductive sys_step :: "'s client \<Rightarrow> 's system \<Rightarrow> 's system \<Rightarrow> bool" for c where
  hit: "sys_step c s (answered (buildKey req) (Inr r) (s\<lparr>wld := notify ''hit'' w'\<rparr>))"
    if "Method req = ''GET'' \<or> Method req = ''HEAD''" "do_lookup c pooled req (wld s) = Ret (Some r, e, w')"
| asked: "sys_step c s (s\<lparr>wld := w', pending := pending s @ [(req, e)]\<rparr>)"
    if "Method req = ''GET'' \<or> Method req = ''HEAD''" "do_lookup c pooled req (wld s) = Ret (None, e, w')"
| fetched: "sys_step c s (answered (buildKey req) res (s\<lparr>wld := w', pending := without i (pending s)\<rparr>))"
    if "i < length (pending s)" "pending s ! i = (req, e)"
      "do_upstream c req up (buildKey req) e (wld s) = Ret (res, w')"
| passed_on: "sys_step c s (s\<lparr>wld := notify ''miss'' w'\<rparr>)"
    if "forwardRequest c req (wld s) = (res, req', w')"
| touched: "sys_step c s (s\<lparr>wld := (wld s)\<lparr>wcache := k\<rparr>\<rparr>)"
    if "cache_Open (cenv c) t (wcache (wld s)) h = Ret (r, k)"
| refreshed_only: "sys_step c s (s\<lparr>wld := (wld s)\<lparr>wcache := k\<rparr>, pending := without i (pending s)\<rparr>)"
    if "i < length (pending s)" "pending s ! i = (req, e)" "version e \<noteq> 0" "j < length (Value e)"
      "snd (cache_Save (cenv c) (wcache (wld s)) (buildKey req) (refreshed_entry e j fw t)) = k"
| read: "sys_step c s (s\<lparr>flight := (flight s)[i := (g', x)]\<rparr>)"
    if "i < length (flight s)" "flight s ! i = (g, x)" "ingest_Read n g = (p, e, g')"
| close: "sys_step c s (s\<lparr>wld := w', flight := (flight s)[i := (g', x)]\<rparr>)"
    if "i < length (flight s)" "flight s ! i = (g, x)" "close_ingested c g x (wld s) = Ret (r, g', w')"
| cleanup: "sys_step c s (s\<lparr>wld := (wld s)\<lparr>wcache := k\<rparr>\<rparr>)"
    if "CleanupOldEntries (cenv c) other (wcache (wld s)) = Ret k"
      "\<forall>i t. (fc_step (blake3 (cenv c)) (fcache (cenv c)))\<^sup>*\<^sup>* t (other i t)"
| remove: "sys_step c s (s\<lparr>wld := (wld s)\<lparr>wcache := k\<rparr>\<rparr>)"
    if "cache_Remove (cenv c) (wcache (wld s)) key = Ret (e, k)"
| restart: "sys_step c s (s\<lparr>wld := w', pending := [], flight := []\<rparr>)"
    if "NewCache (cenv c) low high (cfs (wcache (wld s))) = (Inr (wcache w'), t)"
      "\<forall>key. kv_get (kvs (cenv c)) (cdb (wcache w')) key \<in>
         {kv_get (kvs (cenv c)) (cdb (wcache (wld s))) key, Inl KvKeyNotFound}"

inductive_cases sys_stepE: "sys_step c s s'"

text \<open>A request that nothing interrupts is a run of the system.\<close>

lemma Do_steps:
  assumes "Do c pooled req up (wld s) = Ret (res, w')"
  shows "(sys_step c)\<^sup>*\<^sup>* s (answered (buildKey req) res (s\<lparr>wld := w'\<rparr>))"
proof (cases "Method req = ''GET'' \<or> Method req = ''HEAD''")
  case True
  obtain ro e w1 where l: "do_lookup c pooled req (wld s) = Ret (ro, e, w1)"
    using assms unfolding Do_lookup [OF True] by (cases "do_lookup c pooled req (wld s)") auto
  show ?thesis
  proof (cases ro)
    case (Some r)
    then have "res = Inr r" "w' = notify ''hit'' w1" using assms l unfolding Do_lookup [OF True] by auto
    then show ?thesis using sys_step.hit [OF True, of c pooled s r e w1] l Some by auto
  next
    case None
    let ?s = "s\<lparr>wld := w1, pending := pending s @ [(req, e)]\<rparr>"
    have "do_upstream c req up (buildKey req) e (wld ?s) = Ret (res, w')"
      using assms l None unfolding Do_lookup [OF True] by auto
    from sys_step.fetched [OF _ _ this, of "length (pending s)"]
    have "sys_step c ?s (answered (buildKey req) res (s\<lparr>wld := w'\<rparr>))" by (simp add: without_def)
    moreover have "sys_step c s ?s" using sys_step.asked [OF True] l None by blast
    ultimately show ?thesis by (meson converse_rtranclp_into_rtranclp r_into_rtranclp)
  qed
next
  case False
  obtain r req' w1 where f: "forwardRequest c req (wld s) = (r, req', w1)" by (metis prod_cases3)
  then have "res = upstream_result r" "w' = notify ''miss'' w1" using assms False by (auto simp: Do_def)
  then show ?thesis using sys_step.passed_on [OF f] by auto
qed

section \<open>The invariant of the system\<close>

definition flight_inv :: "'s client \<Rightarrow> (string \<times> reader) list \<Rightarrow> ingestion \<times> ingest_ctx \<Rightarrow> bool" where
  "flight_inv c L = (\<lambda>(g, x). (\<exists>s. ingesting s g \<and> eof_last s \<and> (ctx_key x, s) \<in> set L) \<and>
     known_entry c L (ctx_key x) (ctx_entry x))"

definition pending_inv :: "'s client \<Rightarrow> (string \<times> reader) list \<Rightarrow> request \<times> CachedResponses Entry \<Rightarrow> bool" where
  "pending_inv c L = (\<lambda>(req, e). known_entry c L (buildKey req) e)"

definition served_inv :: "'s client \<Rightarrow> (string \<times> reader) list \<Rightarrow> string \<times> string \<Rightarrow> bool" where
  "served_inv c L = (\<lambda>(key, bytes). known c L key (body_hash (blake3 (cenv c)) bytes))"

definition sys_inv :: "('s \<Rightarrow> bool) \<Rightarrow> 's client \<Rightarrow> 's system \<Rightarrow> bool" where
  "sys_inv ok c s \<longleftrightarrow> cache_inv ok c (received s) (wcache (wld s)) \<and>
     list_all (pending_inv c (received s)) (pending s) \<and> list_all (flight_inv c (received s)) (flight s) \<and>
     list_all (served_inv c (received s)) (served s)"

text \<open>A system whose database is empty; the files may hold bodies that nothing refers to.\<close>

definition sys_init :: "('s \<Rightarrow> bool) \<Rightarrow> 's client \<Rightarrow> 's system \<Rightarrow> bool" where
  "sys_init ok c s \<longleftrightarrow> ok (cdb (wcache (wld s))) \<and> fc_inv (blake3 (cenv c)) (cfs (wcache (wld s))) \<and>
     (\<forall>key. kv_get (kvs (cenv c)) (cdb (wcache (wld s))) key = Inl KvKeyNotFound) \<and>
     pending s = [] \<and> flight s = [] \<and> received s = [] \<and> served s = []"

lemma sys_inv_init: "sys_init ok c s \<Longrightarrow> sys_inv ok c s"
  by (auto simp: sys_init_def sys_inv_def cache_inv_def represents_def known_map_def intro!: exI [of _ "\<lambda>_. None"])

text \<open>What a request, a body or an answer knows is stable: bodies are only added to those received.\<close>

lemma stable_mono:
  assumes "set L \<subseteq> set L'"
  shows "flight_inv c L gx \<Longrightarrow> flight_inv c L' gx" "pending_inv c L re \<Longrightarrow> pending_inv c L' re"
    "served_inv c L kb \<Longrightarrow> served_inv c L' kb"
  using assms known_entry_mono [OF assms] known_mono [OF assms]
  by (auto simp: flight_inv_def pending_inv_def served_inv_def)

lemma set_without: "set (without i xs) \<subseteq> set xs"
  using set_take_subset [of i xs] set_drop_subset [of "Suc i" xs] by (auto simp: without_def)

lemma sys_inv_world: "sys_inv ok c s \<Longrightarrow> cache_inv ok c (received s) (wcache w') \<Longrightarrow> sys_inv ok c (s\<lparr>wld := w'\<rparr>)"
  by (simp add: sys_inv_def)

lemma sys_inv_flight: "sys_inv ok c s \<Longrightarrow> flight_inv c (received s) gx \<Longrightarrow> sys_inv ok c (s\<lparr>flight := (flight s)[i := gx]\<rparr>)"
  using set_update_subset_insert [of "flight s" i gx] by (auto simp: sys_inv_def list_all_iff)

lemma sys_inv_pending: "sys_inv ok c s \<Longrightarrow> pending_inv c (received s) re \<Longrightarrow> sys_inv ok c (s\<lparr>pending := pending s @ [re]\<rparr>)"
  by (simp add: sys_inv_def)

lemma sys_inv_without: "sys_inv ok c s \<Longrightarrow> sys_inv ok c (s\<lparr>pending := without i (pending s)\<rparr>)"
  using set_without [of i "pending s"] by (auto simp: sys_inv_def list_all_iff)

lemma sys_inv_answered:
  assumes "sys_inv ok c s" "known_result c (received s) key res"
  shows "sys_inv ok c (answered key res s)"
proof (cases "\<exists>r g x. res = Inr r \<and> Body r = TeeBody g x")
  case True
  then obtain r g x where r: "res = Inr r" "Body r = TeeBody g x" by blast
  let ?L = "received s @ [(key, src (tee g))]"
  have sub: "set (received s) \<subseteq> set ?L" by auto
  have "flight_inv c ?L (g, x)"
    using assms(2) r known_entry_mono [OF sub] by (auto simp: known_result_def flight_inv_def)
  moreover have "list_all (flight_inv c ?L) (flight s)" "list_all (pending_inv c ?L) (pending s)"
      "list_all (served_inv c ?L) (served s)"
    using assms(1) stable_mono [OF sub] by (auto simp: sys_inv_def elim!: list.pred_mono_strong)
  moreover have "cache_inv ok c ?L (wcache (wld s))"
    by (rule cache_inv_mono [OF sub]) (use assms(1) in \<open>simp add: sys_inv_def\<close>)
  ultimately show ?thesis using r by (simp add: answered_def sys_inv_def)
next
  case False
  then show ?thesis
    using assms by (auto simp: answered_def sys_inv_def known_result_def served_inv_def split: sum.splits body.splits)
qed

text \<open>Opening a file cache again removes the temporary files and keeps the others.\<close>

lemma remove_temps_inv: "remove_temps F ns t = (e, t') \<Longrightarrow> fc_inv b3 t \<Longrightarrow> fc_inv b3 t'"
  by (induction ns arbitrary: t) (auto simp: fc_inv_remove split: option.splits)

lemma make_dirs_id: "make_dirs F is t = (e, t') \<Longrightarrow> \<forall>i \<in> set is. map_of t (hex_byte i) \<noteq> None \<Longrightarrow> t' = t"
  by (induction "is" arbitrary: t) (auto simp: mkdir_all_def split: option.splits if_splits)

lemma NewFileCache_again:
  assumes "NewFileCache F low high t = (Inr fc, t')" "fc_inv b3 t"
  shows "fc_inv b3 t'"
proof -
  have "map_of t tmpDirName \<noteq> None" using assms(2) unfolding fc_inv_def fc_dirs_def by blast
  then have m: "mkdir_all t tmpDirName = t" by (auto simp: mkdir_all_def)
  obtain ns t2 where t2: "remove_temps F ns t = (None, t2)" "make_dirs F [0..<256] t2 = (None, t')"
    using assms(1) by (auto simp: NewFileCache_def m split: option.splits sum.splits prod.splits)
  have inv: "fc_inv b3 t2" by (rule remove_temps_inv [OF t2(1) assms(2)])
  then have "\<forall>i \<in> set [0..<256]. map_of t2 (hex_byte i) \<noteq> None"
    unfolding fc_inv_def fc_dirs_def by auto
  then show ?thesis using make_dirs_id [OF t2(2)] inv by simp
qed

text \<open>A database that has lost entries holds the rest of the map.\<close>

lemma represents_lost:
  assumes "represents B C s m" "\<forall>key. kv_get B s' key \<in> {kv_get B s key, Inl KvKeyNotFound}"
  shows "represents B C s' (\<lambda>key. if kv_get B s' key = Inl KvKeyNotFound then None else m key)"
  using assms unfolding represents_def by (metis holds_None insertE singletonD)

context caching_system
begin

lemma lookup_inv:
  assumes "do_lookup c pooled req w = Ret (ro, e, w')" "cache_inv ok c L (wcache w)"
  shows "cache_inv ok c L (wcache w') \<and> known_entry c L (buildKey req) e \<and>
    (\<forall>r. ro = Some r \<longrightarrow> known_result c L (buildKey req) (Inr r))"
proof -
  obtain err e' where g: "cache_Get (cenv c) (wcache w) (buildKey req) pooled = (err, e')" by fastforce
  note k = get_inv [OF assms(2) g]
  show ?thesis
    using assms g k(1) serve_inv [OF _ assms(2) k(2)]
    by (auto simp: do_lookup_def split: option.splits go.splits)
qed

lemma restart_inv:
  assumes "NewCache (cenv c) low high (cfs k) = (Inr k', t)" "cache_inv ok c L k"
    "\<forall>key. kv_get (kvs (cenv c)) (cdb k') key \<in> {kv_get (kvs (cenv c)) (cdb k) key, Inl KvKeyNotFound}"
  shows "cache_inv ok c L k'"
proof -
  obtain fc where n: "NewFileCache (osf (cenv c)) low high (cfs k) = (Inr fc, t)" "cfs k' = t"
    "kv_open (kvs (cenv c)) ''db'' = Inr (cdb k')"
    using assms(1) by (auto simp: NewCache_def NewDatabase_def split: prod.splits sum.splits)
  have "fc_inv (blake3 (cenv c)) (cfs k')"
    using NewFileCache_again [OF n(1)] n(2) assms(2) by (simp add: cache_inv_def)
  moreover obtain m where "represents (kvs (cenv c)) (msgp (cenv c)) (cdb k) m" "known_map c L m"
    using assms(2) by (auto simp: cache_inv_def)
  then have "\<exists>m'. represents (kvs (cenv c)) (msgp (cenv c)) (cdb k') m' \<and> known_map c L m'"
    using represents_lost [OF _ assms(3)] by (fastforce simp: known_map_def)
  ultimately show ?thesis using opens [OF n(3)] by (simp add: cache_inv_def)
qed

lemma step_inv:
  assumes "sys_step c s s'" "sys_inv ok c s"
  shows "sys_inv ok c s'"
proof -
  have inv: "cache_inv ok c (received s) (wcache (wld s))" using assms(2) by (simp add: sys_inv_def)
  have fl: "flight_inv c (received s) (g, x)" if "i < length (flight s)" "flight s ! i = (g, x)" for i g x
    using assms(2) that by (metis sys_inv_def list_all_length)
  have pe: "known_entry c (received s) (buildKey req) e" if "i < length (pending s)" "pending s ! i = (req, e)" for i req e
  proof -
    have "pending_inv c (received s) (pending s ! i)" using assms(2) that(1) by (simp add: sys_inv_def list_all_length)
    then show ?thesis using that(2) by (simp add: pending_inv_def)
  qed
  note w = sys_inv_world [OF assms(2)]
  from assms(1) show ?thesis
  proof cases
    case (hit req pooled r e w')
    then show ?thesis
      using lookup_inv [OF hit(3) inv] w sys_inv_answered [of ok c "s\<lparr>wld := notify ''hit'' w'\<rparr>"] by simp
  next
    case (asked req pooled e w')
    then show ?thesis
      using lookup_inv [OF asked(3) inv] sys_inv_pending [of ok c "s\<lparr>wld := w'\<rparr>" "(req, e)"] w by (simp add: pending_inv_def)
  next
    case (fetched i req e up res w')
    have d: "cache_inv ok c (received s) (wcache w') \<and> known_result c (received s) (buildKey req) res"
      by (rule do_upstream_inv [OF fetched(4) inv pe [OF fetched(2,3)]])
    then have "sys_inv ok c (s\<lparr>wld := w', pending := without i (pending s)\<rparr>)"
      using sys_inv_without [OF w, of w' i] by simp
    from sys_inv_answered [OF this] show ?thesis using d fetched(1) by simp
  next
    case (passed_on req res req' w')
    then show ?thesis using w [of "notify ''miss'' w'"] inv forwardRequest_result [OF passed_on(2)] by simp
  next
    case (touched t h r k)
    then show ?thesis using w open_inv(1) [OF inv touched(2)] by simp
  next
    case (refreshed_only i req e j fw t k)
    have "cache_inv ok c (received s) k"
      using refreshed_inv [OF inv _ refreshed_only(5)] pe [OF refreshed_only(2,3)] refreshed_only(4,6) by (auto simp: known_entry_def)
    then show ?thesis using sys_inv_without [OF w, of "(wld s)\<lparr>wcache := k\<rparr>" i] refreshed_only(1) by simp
  next
    case (read i g x n p e g')
    have "flight_inv c (received s) (g', x)"
      using fl [OF read(2,3)] ingesting_Read [OF _ read(4)] by (auto simp: flight_inv_def)
    then show ?thesis using sys_inv_flight [OF assms(2)] read(1) by simp
  next
    case (close i g x r g' w')
    obtain rd where rd: "ingesting rd g" "eof_last rd" "(ctx_key x, rd) \<in> set (received s)"
      "known_entry c (received s) (ctx_key x) (ctx_entry x)"
      using fl [OF close(2,3)] by (auto simp: flight_inv_def)
    have "cache_inv ok c (received s) (wcache w')" "flight_inv c (received s) (g', x)"
      using close_inv [OF close(4) inv rd] rd by (auto simp: flight_inv_def)
    then show ?thesis using sys_inv_flight [OF w, of w' "(g', x)" i] close(1) by simp
  next
    case (cleanup other k)
    then show ?thesis using cleanup_inv [OF cleanup(2) inv] w by simp
  next
    case (remove key e k)
    then show ?thesis using remove_inv [OF remove(2) inv] w by simp
  next
    case (restart low high w' t)
    then show ?thesis using restart_inv [OF restart(2) inv restart(3)] assms(2) by (simp add: sys_inv_def)
  qed
qed

lemma reachable_inv: "(sys_step c)\<^sup>*\<^sup>* s s' \<Longrightarrow> sys_inv ok c s \<Longrightarrow> sys_inv ok c s'"
  by (induction rule: rtranclp_induct) (auto intro: step_inv)

lemma served_known:
  assumes "sys_init ok c s0" "(sys_step c)\<^sup>*\<^sup>* s0 s" "(key, bytes) \<in> set (served s)"
  shows "known c (received s) key (body_hash (blake3 (cenv c)) bytes)"
proof -
  have "sys_inv ok c s" by (rule reachable_inv [OF assms(2) sys_inv_init [OF assms(1)]])
  then show ?thesis using assms(3) by (auto simp: sys_inv_def list_all_iff served_inv_def)
qed

end

section \<open>Properties\<close>

text \<open>
  C3: What is served was received. Start with an empty database and let clients send requests, wait
  for their upstream, read and close the bodies they got, administrators remove keys, the clean-up
  run, requests panic and the program restart, in any order, with any failures of the disk and of
  the upstream. Every body that was served from the cache has the hash of a body that was
  received from an upstream for the same method and URL.
\<close>

theorem served_was_received:
  assumes "caching_system c ok clock" "sys_init ok c s0" "(sys_step c)\<^sup>*\<^sup>* s0 s"
    and "(key, bytes) \<in> set (served s)"
  shows "\<exists>rd. (key, rd) \<in> set (received s) \<and>
    body_hash (blake3 (cenv c)) bytes = body_hash (blake3 (cenv c)) (remaining rd)"
  using caching_system.served_known [OF assms] by (auto simp: known_def)

section \<open>Examples\<close>

text \<open>Reading a body that is being ingested with buffers of the given sizes.\<close>

fun ingest_reads :: "nat list \<Rightarrow> ingestion \<Rightarrow> ingestion" where
  "ingest_reads [] g = g"
| "ingest_reads (n # ns) g = (case ingest_Read n g of (p, e, g') \<Rightarrow> ingest_reads ns g')"

lemma ingesting_reads: "ingesting s g \<Longrightarrow> ingesting s (ingest_reads ns g)"
  by (induction ns arbitrary: g) (auto split: prod.splits dest: ingesting_Read)

lemma reads_steps:
  "i < length (flight s) \<Longrightarrow> flight s ! i = (g, x) \<Longrightarrow>
   (sys_step c)\<^sup>*\<^sup>* s (s\<lparr>flight := (flight s)[i := (ingest_reads ns g, x)]\<rparr>)"
proof (induction ns arbitrary: s g)
  case Nil
  then have "(flight s)[i := (g, x)] = flight s" by (metis list_update_id)
  then show ?case by (cases s) simp
next
  case (Cons n ns)
  obtain p e g' where r: "ingest_Read n g = (p, e, g')" by (metis prod_cases3)
  let ?s = "s\<lparr>flight := (flight s)[i := (g', x)]\<rparr>"
  have "sys_step c s ?s" by (rule sys_step.read [OF Cons.prems r])
  moreover have "(sys_step c)\<^sup>*\<^sup>* ?s (?s\<lparr>flight := (flight ?s)[i := (ingest_reads ns g', x)]\<rparr>)"
    by (rule Cons.IH) (use Cons.prems(1) in simp_all)
  ultimately show ?case using r by (simp add: converse_rtranclp_into_rtranclp)
qed

text \<open>A page is requested for the first time, read, closed and requested again.\<close>

lemma mem_opens: "kv_open mem_badger path = Inr s \<Longrightarrow> mem_live s"
  by (auto simp: mem_badger_def mem_live_def mem_ok_def gm_wf_def)

interpretation hello_system: caching_system hello_client mem_live mem_ts
proof -
  have "codec_ok (msgp (cenv hello_client)) norm_responses"
    by (simp add: hello_client_def codec_ok_def single_codec_def)
  then show "caching_system hello_client mem_live mem_ts"
    using mem_live_badger hello_ingesting(2) mem_opens
    by (auto simp: caching_system_def caching_system_axioms_def hello_client_def page_client_def mem_env_simps)
qed

definition hello_start :: "mem system" where
  "hello_start = \<lparr>wld = hello_world\<lparr>wcache := (wcache hello_world)\<lparr>cfs := empty_store\<rparr>, ticks := 5\<rparr>,
     pending = [], flight = [], received = [], served = []\<rparr>"

lemma hello_start_init: "sys_init mem_live hello_client hello_start"
  using empty_store_inv [of "blake3 mem_env"]
  by (simp add: sys_init_def hello_start_def hello_world_def mem_live_def mem_ok_def hello_client_def page_client_def
      mem_env_simps mem_badger_def mem_get_def)

definition hello_fw :: forwarded where
  "hello_fw = \<lparr>fw_resp = \<lparr>StatusCode = 200, Header = page_header, Body = hello\<rparr>, fw_created = 5 * Second, fw_received = 6 * Second\<rparr>"

definition hello_new :: ingestion where
  "hello_new = \<lparr>tee = TeeReader_New hello \<lparr>tmp_name = ''tmp'', written = [], hashed = [], capacity = None\<rparr>, wasCalled = False\<rparr>"

lemma page_header_clean: "removeHopByHopHeaders page_header = page_header" "ParseTime (hdr_Get page_header ''Date'') \<noteq> None"
  by code_simp+

lemma hello_forward:
  assumes "ticks w = 5"
  shows "\<exists>w1. forwardRequestWithUpstream hello_client page_req no_upstream w = (Inr hello_fw, page_req\<lparr>ReqHeader := []\<rparr>, w1) \<and>
     wcache w1 = wcache w \<and> ticks w1 = 7"
proof -
  have "removeHopByHopHeaders (ReqHeader page_req) = []" by code_simp
  then show ?thesis
    using assms page_header_clean
    by (simp add: forwardRequestWithUpstream_def forwardRequest_def no_upstream_def now_def Let_def hello_fw_def
        hello_client_def page_client_def)
qed

lemma empty_store_tmp: "map_of empty_store tmpDirName \<noteq> None" "fs_file empty_store tmpDirName n = None"
proof -
  have "fc_dirs empty_store" using empty_store_inv [of pad_digest] by (simp add: fc_inv_def)
  then show "map_of empty_store tmpDirName \<noteq> None" unfolding fc_dirs_def by blast
  show "fs_file empty_store tmpDirName n = None"
    using NewFileCache_inv [of "[]" pad_digest 10 20]
    by (auto simp: empty_store_def fs_wf_def gm_wf_def addressed_def fs_file_def)
qed

definition hello_stored :: ingest_ctx where
  "hello_stored = hello_ctx\<lparr>ctx_req := page_req\<lparr>ReqHeader := []\<rparr>\<rparr>"

definition hello_page :: "body http_response" where
  "hello_page = \<lparr>StatusCode = 200, Header = page_header, Body = TeeBody hello_new hello_stored\<rparr>"

definition hello_files :: fs where
  "hello_files = fs_put empty_store tmpDirName ''tmp'' \<lparr>content = [], mtime = 7 * Second\<rparr>"

lemma hello_do:
  "\<exists>w1. Do hello_client pooled0 page_req no_upstream (wld hello_start) = Ret (Inr hello_page, w1) \<and>
     wcache w1 = (wcache hello_world)\<lparr>cfs := hello_files\<rparr> \<and> ticks w1 = 7"
proof -
  let ?w = "wld hello_start"
  obtain w1 where f: "forwardRequestWithUpstream hello_client page_req no_upstream ?w = (Inr hello_fw, page_req\<lparr>ReqHeader := []\<rparr>, w1)"
    "wcache w1 = wcache ?w" "ticks w1 = 7"
    using hello_forward [of ?w] by (auto simp: hello_start_def)
  have get: "cache_Get (cenv hello_client) (wcache ?w) (buildKey page_req) pooled0 = (Some ErrKeyNotFound, pooled0)"
    by (simp add: cache_Get_def db_Get_def hello_client_def page_client_def mem_env_simps hello_start_def hello_world_def
        mem_badger_def mem_get_def load_error_def pooled0_def)
  have ic: "fst (IsCacheable (fw_resp hello_fw) (isPrivate hello_client))" by code_simp
  have ok: "\<not> is_failure (Inr hello_fw)" "StatusCode (fw_resp hello_fw) = 200" "version pooled0 = 0"
    by (simp_all add: is_failure_def hello_fw_def pooled0_def)
  have si: "cache_SetupIngestion (cenv hello_client) ''tmp'' None (7 * Second) (wcache ?w) hello
      = (IngestBody hello_new, (wcache hello_world)\<lparr>cfs := hello_files\<rparr>)"
    using empty_store_tmp
    by (auto simp: cache_SetupIngestion_def SetupIngestion_def hello_client_def mem_env_simps no_faults_def hello_start_def
        hello_new_def hello_files_def)
  have "\<exists>w2. do_store hello_client (page_req\<lparr>ReqHeader := []\<rparr>) (buildKey page_req) pooled0 hello_fw w1 = Ret (Inr hello_page, w2) \<and>
      wcache w2 = (wcache hello_world)\<lparr>cfs := hello_files\<rparr> \<and> ticks w2 = 7"
    using ic f(2,3) si
    by (auto simp: do_store_def setupIngestion_def notify_def hello_client_def page_client_def hello_fw_def hello_page_def hello_stored_def hello_ctx_def
        page_key split: prod.splits)
  then show ?thesis
    using get f(1) ok by (simp add: Do_GET page_req_def [THEN arg_cong [of _ _ Method]] do_upstream_def do_answered_def)
qed

definition hello_ended :: ingestion where
  "hello_ended = ingest_reads [4, 4, 4] hello_new"

lemma hello_ended_ingesting: "ingesting hello hello_ended" "\<not> wasCalled hello_ended"
proof -
  show "ingesting hello hello_ended" unfolding hello_ended_def hello_new_def by (rule ingesting_reads [OF ingesting_new])
  show "\<not> wasCalled hello_ended" by code_simp
qed

lemma hello_close_ended:
  "\<exists>r g' t. ingest_Close no_faults pad_digest \<lparr>quotaLow = 10, quotaHigh = 20\<rparr> (7 * Second) hello_ended hello_files = Ret (r, g', t) \<and>
     cl_hash r = Some hello_hash"
  unfolding hello_hash_def hello_remaining [symmetric]
proof (rule ingest_Close_success [OF hello_ended_ingesting])
  show "lastReadErr (tee hello_ended) = None" by code_simp
  show "lastWriteErr (tee hello_ended) = None" by code_simp
  show "pieces (src (tee hello_ended)) = []" by code_simp
  show "int (length (remaining hello)) \<le> go_quot (quotaHigh \<lparr>quotaLow = 10, quotaHigh = 20\<rparr>) 2" by code_simp
  show "2 \<le> length (body_hash pad_digest (remaining hello))" by code_simp
  have d: "take 2 (body_hash pad_digest (remaining hello)) = hex_byte 104" by code_simp
  have "fc_inv pad_digest hello_files" unfolding hello_files_def by (rule fc_inv_put_tmp [OF empty_store_inv])
  then show "map_of hello_files (take 2 (body_hash pad_digest (remaining hello))) \<noteq> None"
    unfolding d by (intro hex_byte_dir) (simp_all add: fc_inv_def)
  have "tmp_name (dest (tee hello_ended)) = ''tmp''" by code_simp
  then show "fs_file hello_files tmpDirName (tmp_name (dest (tee hello_ended))) \<noteq> None" by (simp add: hello_files_def)
qed (simp add: no_faults_def)

lemma hello_client_simps: "osf (cenv hello_client) = no_faults" "blake3 (cenv hello_client) = pad_digest"
  "fcache (cenv hello_client) = \<lparr>quotaLow = 10, quotaHigh = 20\<rparr>" "clk hello_client n = int n * Second"
  by (simp_all add: hello_client_def page_client_def mem_env_def)

lemma hello_recorded:
  assumes "wcache w = (wcache hello_world)\<lparr>cfs := hello_files\<rparr>" "ticks w = 7"
  shows "\<exists>r g' w2 m. close_ingested hello_client hello_ended hello_stored w = Ret (r, g', w2) \<and> ticks w2 = 8 \<and>
    cache_Get (cenv hello_client) (wcache w2) (buildKey page_req) pooled0 = (None, \<lparr>Value = [hello_resp], version = m\<rparr>) \<and>
    blob (cfs (wcache w2)) hello_hash = Some ''hello w''"
proof -
  obtain r g' t where c: "ingest_Close no_faults pad_digest \<lparr>quotaLow = 10, quotaHigh = 20\<rparr> (7 * Second) hello_ended hello_files = Ret (r, g', t)"
    "cl_hash r = Some hello_hash"
    using hello_close_ended by blast
  let ?w = "w\<lparr>wcache := (wcache w)\<lparr>cfs := t\<rparr>\<rparr>"
  let ?w2 = "onIngest hello_client hello_stored hello_hash ?w"
  have close: "close_ingested hello_client hello_ended hello_stored w = Ret (r, g', ?w2)"
    using c assms by (simp add: close_ingested_def hello_client_simps Let_def)
  have h: "healthy_cache (cenv hello_client) mem_live mem_ts"
    by (simp add: hello_client_def page_client_def single_codec_healthy)
  have resp: "ingested_response hello_stored hello_hash (7 * Second) = hello_resp" "norm_response hello_resp = hello_resp"
    by code_simp+
  have "MarshalMsg (msgp (cenv hello_client)) [hello_resp] = Inr ''r''" by (simp add: hello_client_def single_codec_def)
  then obtain m where m: "cache_Get (cenv hello_client) (wcache ?w2) (ctx_key hello_stored) pooled0 = (None, \<lparr>Value = [hello_resp], version = m\<rparr>)"
    "cfs (wcache ?w2) = t"
    using onIngest_new [OF h, of ?w hello_stored hello_hash "''r''"] assms resp
    by (auto simp: hello_client_simps hello_world_def mem_live_def mem_ok_def hello_stored_def hello_ctx_def pooled0_def
        hello_client_def mem_env_simps mem_badger_def mem_get_def page_client_def)
  have "blob t hello_hash = Some (remaining hello)"
    using ingest_Close_stored [OF hello_ended_ingesting(1) hello_ingesting(2) hello_ended_ingesting(2) c] by simp
  moreover have "ticks ?w2 = 8" using assms(2) by (simp add: onIngest_def now_def Let_def)
  moreover have "ctx_key hello_stored = buildKey page_req" by (simp add: page_key hello_stored_def hello_ctx_def)
  ultimately show ?thesis using close m by (intro exI [of _ r] exI [of _ g'] exI [of _ ?w2] exI [of _ m]) (simp add: hello_remaining)
qed

text \<open>The second request is answered from the cache.\<close>

lemma hello_again:
  assumes "ticks w = 8" "blob (cfs (wcache w)) hello_hash = Some ''hello w''"
    and get: "cache_Get (cenv hello_client) (wcache w) (buildKey page_req) pooled0 = (None, \<lparr>Value = [hello_resp], version = m\<rparr>)"
  shows "\<exists>r w'. Do hello_client pooled0 page_req no_upstream w = Ret (Inr r, w') \<and> Body r = FileBody ''hello w''"
proof -
  have "selectMostRecentCandidates (filter (\<lambda>resp. MatchVaryHeaders (ReqHeader page_req) (VaryHeaders resp)) [hello_resp]) = [hello_resp]"
    by code_simp
  then have sel: "selectMostRecentCandidates (selectResponseCandidates page_req \<lparr>Value = [hello_resp], version = m\<rparr>) = [hello_resp]"
    unfolding selectResponseCandidates_def by simp
  have reuse: "reusable hello_client hello_resp 8" "ContentHash hello_resp = hello_hash" by code_simp+
  obtain r w' where "Do hello_client pooled0 page_req no_upstream w = Ret (Inr r, w')" "answers hello_client w hello_resp 8 r"
    using Do_serves_first [OF _ hello_client_simps(1) get sel, of _ no_upstream] assms(1,2) reuse by (auto simp: page_req_def)
  then show ?thesis using assms(2) reuse(2) by (auto simp: answers_def)
qed

theorem served_was_received_witness:
  "\<exists>s rd. (sys_step hello_client)\<^sup>*\<^sup>* hello_start s \<and> (''GET+http://h/'', ''hello w'') \<in> set (served s) \<and>
     (''GET+http://h/'', rd) \<in> set (received s) \<and>
     body_hash pad_digest ''hello w'' = body_hash pad_digest (remaining rd)"
proof -
  obtain w1 where d: "Do hello_client pooled0 page_req no_upstream (wld hello_start) = Ret (Inr hello_page, w1)"
    "wcache w1 = (wcache hello_world)\<lparr>cfs := hello_files\<rparr>" "ticks w1 = 7"
    using hello_do by blast
  let ?s1 = "answered (buildKey page_req) (Inr hello_page) (hello_start\<lparr>wld := w1\<rparr>)"
  have s1: "wld ?s1 = w1" "flight ?s1 = [(hello_new, hello_stored)]"
    by (simp_all add: answered_def hello_page_def hello_start_def)
  let ?s2 = "?s1\<lparr>flight := (flight ?s1)[0 := (hello_ended, hello_stored)]\<rparr>"
  have reads: "(sys_step hello_client)\<^sup>*\<^sup>* ?s1 ?s2" unfolding hello_ended_def by (rule reads_steps) (simp_all add: s1)
  obtain rc g' w2 m where c: "close_ingested hello_client hello_ended hello_stored w1 = Ret (rc, g', w2)" "ticks w2 = 8"
    "cache_Get (cenv hello_client) (wcache w2) (buildKey page_req) pooled0 = (None, \<lparr>Value = [hello_resp], version = m\<rparr>)"
    "blob (cfs (wcache w2)) hello_hash = Some ''hello w''"
    using hello_recorded [OF d(2,3)] by blast
  let ?s3 = "?s2\<lparr>wld := w2, flight := (flight ?s2)[0 := (g', hello_stored)]\<rparr>"
  have "sys_step hello_client ?s2 ?s3" by (rule sys_step.close [of 0 _ hello_ended]) (simp_all add: s1 c(1))
  then have run: "(sys_step hello_client)\<^sup>*\<^sup>* hello_start ?s3"
    using Do_steps [OF d(1)] reads by (meson rtranclp_trans rtranclp.rtrancl_into_rtrancl)
  obtain r w3 where r: "Do hello_client pooled0 page_req no_upstream (wld ?s3) = Ret (Inr r, w3)" "Body r = FileBody ''hello w''"
    using hello_again [OF c(2,4,3)] by auto
  let ?s4 = "answered (buildKey page_req) (Inr r) (?s3\<lparr>wld := w3\<rparr>)"
  have run4: "(sys_step hello_client)\<^sup>*\<^sup>* hello_start ?s4" using run Do_steps [OF r(1)] by (rule rtranclp_trans)
  have "(''GET+http://h/'', ''hello w'') \<in> set (served ?s4)" using r(2) by (simp add: answered_def page_key)
  from served_was_received [OF hello_system.caching_system_axioms hello_start_init run4 this] run4 this
  show ?thesis by (auto simp: hello_client_simps)
qed

end
