(* ===== verification/Progress.thy ===== *)
theory Progress
  imports Lineage
begin

text \<open>
  When a request gets an answer. \<open>Do\<close> has no loop that could run forever, but it panics on short
  hashes and entity tags, and when the body of a revalidated response is missing. It never does
  when the entry that it has read is sound.
\<close>

section \<open>Sound entries\<close>

definition tag_ok :: "string \<Rightarrow> bool" where
  "tag_ok etag \<longleftrightarrow> 2 \<le> length etag"

text \<open>
  An entry is sound on a tree of files: its hashes can be opened, and if it was stored, its bodies
  are there and all of its responses have an entity tag.
\<close>

definition sound_entry :: "fs \<Rightarrow> CachedResponses Entry \<Rightarrow> bool" where
  "sound_entry t e \<longleftrightarrow> list_all hash_ok (Value e) \<and>
     (version e \<noteq> 0 \<longrightarrow> list_all (\<lambda>r. has_body t r \<and> tag_ok (etag_of r)) (Value e))"

text \<open>The upstream's tags are well-formed, where there are any.\<close>

definition tags_ok :: "'s client \<Rightarrow> bool" where
  "tags_ok c \<longleftrightarrow> (\<forall>hist rq resp. transport c hist rq = Inr resp \<longrightarrow>
     hdr_Get (Header resp) ''Etag'' = [] \<or> tag_ok (hdr_Get (Header resp) ''Etag''))"

lemma sound_blob: "blob t' = blob t \<Longrightarrow> sound_entry t' e = sound_entry t e"
  by (simp add: sound_entry_def has_body_def)

lemma sound_hashes: "sound_entry t e \<Longrightarrow> list_all hash_ok (Value e)"
  by (simp add: sound_entry_def)

lemma EtagsMatch_returns: "tag_ok e \<Longrightarrow> tag_ok f \<Longrightarrow> \<exists>b. EtagsMatch e f = Ret b"
  by (auto simp: EtagsMatch_def tag_ok_def)

lemma find_etag_returns:
  "tag_ok etag \<Longrightarrow> list_all (\<lambda>r. tag_ok (etag_of r)) rs \<Longrightarrow>
   \<exists>io. find_etag etag rs k = Ret io \<and> (\<forall>i. io = Some i \<longrightarrow> k \<le> i \<and> i < k + length rs)"
proof (induction rs arbitrary: k)
  case (Cons r rs)
  obtain b where "EtagsMatch etag (etag_of r) = Ret b" using EtagsMatch_returns Cons.prems by auto
  then show ?case using Cons.IH [of "Suc k"] Cons.prems by (cases b) (auto simp: etag_of_def)
qed simp

section \<open>Every part returns\<close>

lemma refresh_returns:
  assumes "osf (cenv c) = no_faults" "sound_entry (cfs (wcache w)) e" "version e \<noteq> 0" "i < length (Value e)"
  shows "\<exists>r w'. refreshResponseAndServe c key e i fw w = Ret (r, w')"
proof -
  have h: "hash_ok (Value e ! i)" and "has_body (cfs (wcache w)) (Value e ! i)"
    using assms(2-4) by (auto simp: sound_entry_def list_all_length)
  then obtain bytes where "blob (cfs (wcache w)) (ContentHash (Value e ! i)) = Some bytes"
    by (auto simp: has_body_def)
  then show ?thesis using refresh_result [OF assms(1) h refl, where w = w and key = key and fw = fw] by auto
qed

lemma refreshed_returns:
  assumes "osf (cenv c) = no_faults" "sound_entry (cfs (wcache w)) e" "version e \<noteq> 0" "i < length (Value e)"
  shows "\<exists>ro w'. serve_refreshed c key e i fw w = Ret (ro, w')"
  using refresh_returns [OF assms, of key fw] by (auto simp: serve_refreshed_def)

lemma etag_search_returns:
  assumes "list_all (\<lambda>r. tag_ok (etag_of r)) rs" "etag = [] \<or> tag_ok etag"
  obtains io where "(if etag \<noteq> [] then find_etag etag rs 0 else Ret None) = Ret io" "\<And>i. io = Some i \<Longrightarrow> i < length rs"
proof (cases "etag = []")
  case False
  then obtain io where "find_etag etag rs 0 = Ret io" using find_etag_returns [OF _ assms(1)] assms(2) by blast
  then show ?thesis using that [of io] find_etag_bound [of etag rs 0] False by auto
qed (simp add: that)

lemma updateCache_returns:
  assumes "osf (cenv c) = no_faults" "sound_entry (cfs (wcache w)) e" "version e \<noteq> 0"
    and "hdr_Get (Header (fw_resp fw)) ''Etag'' = [] \<or> tag_ok (hdr_Get (Header (fw_resp fw)) ''Etag'')"
  shows "\<exists>ro w'. updateCache c key e fw w = Ret (ro, w')"
proof -
  have tags: "list_all (\<lambda>r. tag_ok (etag_of r)) (Value e)"
    using assms(2,3) by (auto simp: sound_entry_def list_all_iff)
  note r = refreshed_returns [OF assms(1-3), of _ key fw]
  obtain io where io: "(if hdr_Get (Header (fw_resp fw)) ''Etag'' \<noteq> [] then find_etag (hdr_Get (Header (fw_resp fw)) ''Etag'') (Value e) 0 else Ret None) = Ret io"
    "\<And>i. io = Some i \<Longrightarrow> i < length (Value e)"
    using etag_search_returns [OF tags assms(4)] by blast
  show ?thesis
  proof (cases io)
    case (Some i)
    have "updateCache c key e fw w = serve_refreshed c key e i fw w"
      unfolding updateCache_def Let_def io(1) Some by simp
    then show ?thesis using r [OF io(2) [OF Some]] by simp
  next
    case None
    show ?thesis
      unfolding updateCache_def Let_def io(1) None
      by (auto split: option.split intro!: r dest: find_modified_bound)
  qed
qed

lemma stale_returns: "list_all hash_ok (Value e) \<Longrightarrow> \<exists>ro w'. serve_stale c req e w = Ret (ro, w')"
  using serveFromCache_no_panic [of e c req True w] by (auto simp: serve_stale_def)

lemma do_store_returns: "\<exists>res w'. do_store c req key e fw w = Ret (res, w')"
  by (auto simp: do_store_def split: prod.splits)

lemma do_retry_returns:
  assumes "list_all hash_ok (Value e)"
  shows "\<exists>res w'. do_retry c req orig up key e w = Ret (res, w')"
proof -
  obtain res rq w1 where f: "forwardRequestWithUpstream c orig up w = (res, rq, w1)" by (metis prod_cases3)
  obtain ro w2 where s: "serve_stale c req e w1 = Ret (ro, w2)" using stale_returns [OF assms] by blast
  show ?thesis
    using do_store_returns [of c req key e _ w1]
    by (cases ro; cases res) (auto simp: do_retry_def f s)
qed

lemma do_answered_returns:
  assumes "osf (cenv c) = no_faults" "sound_entry (cfs (wcache w)) e" "hc \<Longrightarrow> version e \<noteq> 0"
    and "hdr_Get (Header (fw_resp fw)) ''Etag'' = [] \<or> tag_ok (hdr_Get (Header (fw_resp fw)) ''Etag'')"
  shows "\<exists>res w'. do_answered c req orig up key e hc wc fw w = Ret (res, w')"
proof (cases "hc \<and> StatusCode (fw_resp fw) = 304")
  case True
  then obtain ro w1 where u: "updateCache c key e fw w = Ret (ro, w1)"
    using updateCache_returns [OF assms(1,2) assms(3) assms(4)] by blast
  have "list_all hash_ok (Value e)" using assms(2) by (simp add: sound_entry_def)
  then show ?thesis using True u do_retry_returns by (cases ro) (auto simp: do_answered_def)
next
  case False
  then show ?thesis using do_store_returns by (auto simp: do_answered_def)
qed


lemma forward_tags:
  assumes "tags_ok c"
  shows "forwardRequest c req w = (Inr f, req', w') \<Longrightarrow>
    hdr_Get (Header (fw_resp f)) ''Etag'' = [] \<or> tag_ok (hdr_Get (Header (fw_resp f)) ''Etag'')"
proof -
  assume "forwardRequest c req w = (Inr f, req', w')"
  from forwardRequest_response [OF this] obtain resp i where
    "transport c (sent w) req' = Inr resp" "Header (fw_resp f) =
      (if ParseTime (hdr_Get (removeHopByHopHeaders (Header resp)) ''Date'') = None
       then gm_set (removeHopByHopHeaders (Header resp)) ''Date'' (Some [FormatHTTP (clk c i)])
       else removeHopByHopHeaders (Header resp))" by blast
  moreover from this(2) have "hdr_Get (Header (fw_resp f)) ''Etag'' = hdr_Get (Header resp) ''Etag''"
    by (simp add: hdr_Get_def hdr_Values_def hdr_index_removeHopByHop hop_by_hop_names_def)
  ultimately show ?thesis using assms unfolding tags_ok_def by metis
qed

lemma try_upstreams_tags:
  assumes "tags_ok c"
  shows "try_upstreams c proxy req us w = (Some f, w') \<Longrightarrow>
    hdr_Get (Header (fw_resp f)) ''Etag'' = [] \<or> tag_ok (hdr_Get (Header (fw_resp f)) ''Etag'')"
  by (induction us arbitrary: w) (auto split: prod.splits sum.splits dest: forward_tags [OF assms])

lemma forward_upstream_tags:
  assumes "tags_ok c" "forwardRequestWithUpstream c req up w = (Inr f, req', w')"
  shows "hdr_Get (Header (fw_resp f)) ''Etag'' = [] \<or> tag_ok (hdr_Get (Header (fw_resp f)) ''Etag'')"
  using assms(2)
  by (auto simp: forwardRequestWithUpstream_def split: prod.splits option.splits
      dest: forward_tags [OF assms(1)] try_upstreams_tags [OF assms(1)])

lemma do_upstream_returns:
  assumes "osf (cenv c) = no_faults" "tags_ok c" "sound_entry (cfs (wcache w)) e"
  shows "\<exists>res w'. do_upstream c orig up key e w = Ret (res, w')"
proof -
  obtain req hc wc where a: "(if version e \<noteq> 0 then addConditionalRequestInformation orig e else (orig, False, False)) = (req, hc, wc)"
    by (metis prod_cases3)
  then have hc: "hc \<Longrightarrow> version e \<noteq> 0" by (auto split: if_splits)
  obtain res q w1 where f: "forwardRequestWithUpstream c req up w = (res, q, w1)" by (metis prod_cases3)
  have s1: "sound_entry (cfs (wcache w1)) e" using forwardRequestWithUpstream_frame [OF f] assms(3) by simp
  then obtain ro w2 where s: "serve_stale c q e w1 = Ret (ro, w2)"
    using stale_returns [OF sound_hashes] by blast
  from serve_stale_result [OF s] have "blob (cfs (wcache w2)) = blob (cfs (wcache w1))" by (simp add: same_store_def)
  from s1 [folded sound_blob [OF this]] have s2: "sound_entry (cfs (wcache w2)) e" .
  note an = do_answered_returns [OF assms(1) _ hc forward_upstream_tags [OF assms(2)]]
  show ?thesis
  proof (cases res)
    case (Inl x)
    then show ?thesis using f s unfolding do_upstream_def a by (cases ro) (auto simp: is_failure_def)
  next
    case (Inr fw)
    note f = f [unfolded Inr]
    have "\<exists>res w'. do_answered c q orig up key e hc wc fw w1 = Ret (res, w')"
      "\<exists>res w'. do_answered c q orig up key e hc wc fw w2 = Ret (res, w')"
      by (rule an [OF s1 _ f], assumption) (rule an [OF s2 _ f], assumption)
    then show ?thesis using s unfolding do_upstream_def a prod.case f by (cases ro) auto
  qed
qed

section \<open>Properties\<close>

text \<open>
  C6: Every request is answered, with a response or with the error of the network: when the files
  can be read, the upstreams' entity tags are well-formed and the entry of the request is sound, a
  request does not panic, whatever its method and whatever the upstreams answer.
\<close>

theorem requests_return:
  assumes "osf (cenv c) = no_faults" and "tags_ok c"
    and "sound_entry (cfs (wcache w)) (snd (cache_Get (cenv c) (wcache w) (buildKey req) pooled))"
  shows "\<exists>res w'. Do c pooled req up w = Ret (res, w')"
proof (cases "Method req = ''GET'' \<or> Method req = ''HEAD''")
  case True
  obtain er e where g: "cache_Get (cenv c) (wcache w) (buildKey req) pooled = (er, e)"
    by (cases "cache_Get (cenv c) (wcache w) (buildKey req) pooled")
  with assms(3) have s: "sound_entry (cfs (wcache w)) e" by simp
  then obtain ro w1 where sv: "serveFromCache c req e False w = Ret (ro, w1)"
    using serveFromCache_no_panic [OF sound_hashes] by blast
  from serveFromCache_result [OF sv] have "blob (cfs (wcache w1)) = blob (cfs (wcache w))" by (simp add: same_store_def)
  from s [folded sound_blob [OF this]] have "sound_entry (cfs (wcache w1)) e" .
  note up = do_upstream_returns [OF assms(1,2) this, of req up "buildKey req"]
    do_upstream_returns [OF assms(1,2) s, of req up "buildKey req"]
  show ?thesis using up g sv by (cases er; cases ro) (simp_all add: Do_GET [OF True])
next
  case False
  then show ?thesis by (simp add: Do_def split: prod.splits)
qed

section \<open>Examples\<close>

lemma tag_tags_ok: "tags_ok (tag_client rs)"
proof -
  have "hdr_Get not_modified ''Etag'' = tag" "tag_ok tag" by code_simp+
  then show ?thesis by (simp add: tags_ok_def tag_client_def)
qed

lemma tag_sound: "sound_entry two_files tag_entry"
proof -
  have "etag_of tag_page = tag" "tag_ok tag" by code_simp+
  moreover have "blob two_files (ContentHash tag_page) = Some ''new''"
    using page_body [of 0] by (simp add: page_world_def tag_page_def)
  ultimately show ?thesis using tag_basics(5) by (simp add: sound_entry_def tag_entry_def has_body_def)
qed

theorem requests_return_witness:
  "\<exists>res w'. Do (tag_client [tag_page]) pooled0 page_req no_upstream (tag_world two_files) = Ret (res, w')"
  by (rule requests_return [OF tag_basics(3) tag_tags_ok])
    (use tag_sound in \<open>simp add: tag_get, simp add: tag_world_def\<close>)

end
