(* ===== verification/Units.thy ===== *)
theory Units
  imports Prelude Complex_Main
begin

text \<open>
  \<^verbatim>\<open>internal/units\<close>: sizes in bytes and disk quotas, as they are written in the configuration.

  A \<open>float64\<close> that is not negative is the rational number it denotes; \<open>round64\<close> rounds to the
  nearest one, to even in the middle, as parsing a decimal and multiplying do. The conversion
  of a float outside of the range of \<open>int64\<close> depends on the machine: it is the argument \<open>conv\<close>.
\<close>

section \<open>Floating-point numbers\<close>

definition round_even :: "rat \<Rightarrow> int" where
  "round_even x =
     (let f = \<lfloor>x\<rfloor>; d = x - of_int f
      in if d < 1 / 2 then f else if 1 / 2 < d then f + 1 else if even f then f else f + 1)"

text \<open>The number of binary digits.\<close>

function bits :: "int \<Rightarrow> int" where
  "bits n = (if n \<le> 0 then 0 else bits (n div 2) + 1)"
  by pat_completeness auto

termination
  by (relation "measure nat") auto

declare bits.simps [simp del]

text \<open>The exponent \<open>e\<close> with \<open>2^e \<le> x < 2^(e+1)\<close> of a positive number.\<close>

definition exponent :: "rat \<Rightarrow> int" where
  "exponent x = (if 1 \<le> x then bits \<lfloor>x\<rfloor> - 1 else - bits (\<lceil>1 / x\<rceil> - 1))"

definition ulp :: "rat \<Rightarrow> rat" where
  "ulp x = 2 powi (max (exponent x) (- 1022) - 52)"

definition round64 :: "rat \<Rightarrow> rat" where
  "round64 x = (if x \<le> 0 then 0 else of_int (round_even (x / ulp x)) * ulp x)"

text \<open>The number that a string of digits with an optional fraction denotes.\<close>

definition digits_value :: "string \<Rightarrow> rat" where
  "digits_value ds = of_int (fold (\<lambda>c n. 10 * n + digit_val c) ds 0)"

definition decimal_value :: "string \<Rightarrow> rat" where
  "decimal_value s =
     (case Cut s CHR ''.'' of (whole, fraction, _) \<Rightarrow>
        digits_value whole + digits_value fraction / 10 ^ length fraction)"

text \<open>\<open>strconv.ParseFloat\<close> of such a string.\<close>

definition ParseFloat :: "string \<Rightarrow> num_error + rat" where
  "ParseFloat s =
     (let v = round64 (decimal_value s) in if 0 < v \<and> 1024 \<le> exponent v then Inl ErrRange else Inr v)"

text \<open>The conversion of a float to \<open>int64\<close>, which truncates.\<close>

definition float_to_int64 :: "(rat \<Rightarrow> int) \<Rightarrow> rat \<Rightarrow> int" where
  "float_to_int64 conv x = (if in_int64 \<lfloor>x\<rfloor> then \<lfloor>x\<rfloor> else conv x)"

text \<open>The verb \<open>%.2f\<close>, and \<open>%.f\<close> with no decimal.\<close>

definition format_2f :: "rat \<Rightarrow> string" where
  "format_2f v =
     (let n = round_even (v * 100)
      in Itoa (n div 100) @ ''.'' @ dec_digits (nat (n mod 100 div 10)) @ dec_digits (nat (n mod 10)))"

definition format_0f :: "rat \<Rightarrow> string" where
  "format_0f v = Itoa (round_even v)"

section \<open>Bytes\<close>

datatype units_error = ErrInvalidByteFormat "num_error option" | ErrInvalidQuotaFormat "num_error option"

text \<open>The groups of \<open>bytesFormat\<close>: the number, the unit and the letter i.\<close>

definition is_re_space :: "char \<Rightarrow> bool" where
  "is_re_space c \<longleftrightarrow> c \<in> {CHR 0x09, CHR 0x0A, CHR 0x0C, CHR 0x0D, CHR '' ''}"

definition match_number :: "string \<Rightarrow> (string \<times> string) option" where
  "match_number s =
     (let ds = takeWhile is_digit s; rest = dropWhile is_digit s
      in if ds = [] then None
         else (case rest of
                 c # t \<Rightarrow>
                   if c = CHR ''.'' \<and> takeWhile is_digit t \<noteq> []
                   then Some (ds @ c # takeWhile is_digit t, dropWhile is_digit t)
                   else Some (ds, rest)
               | [] \<Rightarrow> Some (ds, [])))"

definition match_unit :: "string \<Rightarrow> (string \<times> string) option" where
  "match_unit s =
     (if s = [] then Some ([], [])
      else if s = ''B'' then Some (s, [])
      else if hd s \<in> set ''KMGT'' \<and> tl s = ''B'' then Some (s, [])
      else if hd s \<in> set ''KMGT'' \<and> tl s = ''iB'' then Some (s, ''i'')
      else None)"

definition bytesFormat :: "string \<Rightarrow> (string \<times> string \<times> string) option" where
  "bytesFormat s =
     (case match_number s of
        None \<Rightarrow> None
      | Some (number, rest) \<Rightarrow>
          (case match_unit (dropWhile is_re_space rest) of
             None \<Rightarrow> None | Some (unit, i) \<Rightarrow> Some (number, unit, i)))"

definition units :: string where
  "units = ''BKMGT''"

fun index_byte :: "string \<Rightarrow> char \<Rightarrow> nat" where
  "index_byte [] c = 0"
| "index_byte (x # xs) c = (if x = c then 0 else Suc (index_byte xs c))"

definition DecodeBytes :: "(rat \<Rightarrow> int) \<Rightarrow> string \<Rightarrow> units_error + int" where
  "DecodeBytes conv value =
     (case bytesFormat value of
        None \<Rightarrow> Inl (ErrInvalidByteFormat None)
      | Some (number, unit, i) \<Rightarrow>
          if unit = [] then
            (case Atoi number of
               (val, None) \<Rightarrow> Inr val | (_, Some e) \<Rightarrow> Inl (ErrInvalidByteFormat (Some e)))
          else
            (let base = (if i = [] then 1000 else 1024);
                 mul = base ^ index_byte units (hd unit)
             in case Atoi number of
                  (val, None) \<Rightarrow> Inr (wrap64 (val * mul))
                | (_, Some _) \<Rightarrow>
                    (case ParseFloat number of
                       Inr valf \<Rightarrow> Inr (float_to_int64 conv (round64 (valf * of_int mul)))
                     | Inl e \<Rightarrow> Inl (ErrInvalidByteFormat (Some e)))))"

text \<open>Dividing a float by 1024 is exact.\<close>

function pretty_loop :: "rat \<Rightarrow> nat \<Rightarrow> rat \<times> nat" where
  "pretty_loop v i = (if 1024 \<le> v \<and> i < length units then pretty_loop (v / 1024) (Suc i) else (v, i))"
  by pat_completeness auto

termination
  by (relation "measure (\<lambda>(v, i). length units - i)") auto

declare pretty_loop.simps [simp del]

definition PrettyBytes :: "int \<Rightarrow> string go" where
  "PrettyBytes b =
     (case pretty_loop (round64 (of_int b)) 0 of (v, i) \<Rightarrow>
        if i = 0 then Ret (Itoa b @ ''B'')
        else if length units \<le> i then Panic ''index out of range''
        else Ret (format_2f v @ [units ! i] @ ''iB''))"

section \<open>Quotas\<close>

definition bytes_UnmarshalYAML :: "(rat \<Rightarrow> int) \<Rightarrow> string \<Rightarrow> int \<Rightarrow> units_error option \<times> int" where
  "bytes_UnmarshalYAML conv value b =
     (case DecodeBytes conv value of Inl e \<Rightarrow> (Some e, b) | Inr val \<Rightarrow> (None, val))"

definition bytes_String :: "int \<Rightarrow> string go" where
  "bytes_String b = PrettyBytes b"

record DiskQuota =
  quota_bytes :: int
  percent :: rat

definition NewDiskQuotaInBytes :: "int \<Rightarrow> DiskQuota" where
  "NewDiskQuotaInBytes b = \<lparr>quota_bytes = b, percent = 0\<rparr>"

definition NewDiskQuotaInPercent :: "rat \<Rightarrow> DiskQuota" where
  "NewDiskQuotaInPercent p = \<lparr>quota_bytes = 0, percent = p\<rparr>"

definition percentFormat :: "string \<Rightarrow> string option" where
  "percentFormat s =
     (case match_number s of
        None \<Rightarrow> None
      | Some (number, rest) \<Rightarrow> if dropWhile is_re_space rest = ''%'' then Some number else None)"

definition quota_UnmarshalYAML :: "(rat \<Rightarrow> int) \<Rightarrow> string \<Rightarrow> units_error + DiskQuota" where
  "quota_UnmarshalYAML conv value =
     (case DecodeBytes conv value of
        Inr val \<Rightarrow> Inr \<lparr>quota_bytes = val, percent = 0\<rparr>
      | Inl _ \<Rightarrow>
          (case percentFormat value of
             None \<Rightarrow> Inl (ErrInvalidQuotaFormat None)
           | Some number \<Rightarrow>
               (case ParseFloat number of
                  Inl e \<Rightarrow> Inl (ErrInvalidQuotaFormat (Some e))
                | Inr valf \<Rightarrow> Inr \<lparr>quota_bytes = 0, percent = valf\<rparr>)))"

definition quota_MarshalYAML :: "DiskQuota \<Rightarrow> string go" where
  "quota_MarshalYAML d =
     (if percent d = 0 then bytes_String (quota_bytes d) else Ret (format_0f (percent d) @ ''%''))"

text \<open>\<open>statfs\<close> gives the number of blocks, unsigned, and their size, or fails.\<close>

definition quota_Bytes :: "('e + int \<times> int) \<Rightarrow> DiskQuota \<Rightarrow> 'e + int" where
  "quota_Bytes statfs d =
     (if percent d \<noteq> 0
      then (case statfs of Inl e \<Rightarrow> Inl e | Inr (blocks, bsize) \<Rightarrow> Inr (wrap64 (wrap64 blocks * bsize)))
      else Inr (quota_bytes d))"

section \<open>Rounding\<close>

lemma bits_bounds: "0 < n \<Longrightarrow> 1 \<le> bits n \<and> 2 ^ nat (bits n - 1) \<le> n \<and> n < 2 ^ nat (bits n)"
proof (induction n rule: bits.induct)
  case (1 n)
  show ?case
  proof (cases "n = 1")
    case True
    then show ?thesis by (simp add: bits.simps [of 1] bits.simps [of 0])
  next
    case False
    with 1 have IH: "1 \<le> bits (n div 2)" "2 ^ nat (bits (n div 2) - 1) \<le> n div 2" "n div 2 < 2 ^ nat (bits (n div 2))"
      by auto
    have b: "bits n = bits (n div 2) + 1" using "1.prems" by (simp add: bits.simps [of n])
    have "nat (bits (n div 2)) = Suc (nat (bits (n div 2) - 1))" using IH(1) by linarith
    then have "2 ^ nat (bits n - 1) = 2 * (2 :: int) ^ nat (bits (n div 2) - 1)" by (simp add: b)
    moreover have "2 ^ nat (bits n) = 2 * (2 :: int) ^ nat (bits (n div 2))"
      using IH(1) by (simp add: b nat_add_distrib)
    ultimately show ?thesis using IH b by linarith
  qed
qed

lemma round_even_int [simp]: "round_even (of_int n) = n"
  by (simp add: round_even_def)

lemma round_even_ge: "of_int m \<le> x \<Longrightarrow> m \<le> round_even x"
  by (auto simp: round_even_def Let_def le_floor_iff intro: order_trans [of _ "\<lfloor>x\<rfloor>"])

lemma exponent_int: "0 < n \<Longrightarrow> exponent (of_int n) = bits n - 1"
  by (simp add: exponent_def)

lemma ulp_int: "0 < n \<Longrightarrow> ulp (of_int n) = 2 powi (bits n - 53)"
  using bits_bounds [of n] by (simp add: ulp_def exponent_int max_def)

text \<open>Integers below \<open>2^53\<close> are floats.\<close>

lemma round64_exact:
  assumes "0 \<le> n" "n < 2 ^ 53"
  shows "round64 (of_int n) = of_int n"
proof (cases "n = 0")
  case False
  then have n: "0 < n" using assms(1) by simp
  have "bits n - 1 < 53"
  proof (rule ccontr)
    assume "\<not> bits n - 1 < 53"
    then have "(2 :: int) ^ 53 \<le> 2 ^ nat (bits n - 1)" by (intro power_increasing) auto
    then show False using bits_bounds [OF n] assms(2) by linarith
  qed
  then have k: "bits n - 53 = - int (nat (53 - bits n))" by simp
  define k where "k = nat (53 - bits n)"
  note k = k [folded k_def]
  have "of_int n / ulp (of_int n) = (of_int (n * 2 ^ k) :: rat)"
    using n by (simp add: ulp_int k power_int_minus divide_inverse)
  then show ?thesis
    using n by (simp only: round64_def round_even_int) (simp add: ulp_int k power_int_minus)
qed (simp add: round64_def)

lemma round64_large:
  assumes "2 ^ 53 \<le> n"
  shows "2 ^ 53 \<le> round64 (of_int n)"
proof -
  have n: "0 < n" using assms by (rule less_le_trans [rotated]) simp
  have b: "54 \<le> bits n"
  proof (rule ccontr)
    assume "\<not> 54 \<le> bits n"
    then have "(2 :: int) ^ nat (bits n) \<le> 2 ^ 53" by (intro power_increasing) auto
    then show False using bits_bounds [OF n] assms by linarith
  qed
  then obtain k where k: "bits n = 54 + int k" by (metis zle_iff_zadd)
  have u: "ulp (of_int n) = 2 ^ Suc k" using n by (simp add: ulp_int k power_int_def nat_add_distrib)
  have "(2 :: int) ^ 52 * 2 ^ Suc k = 2 ^ nat (bits n - 1)"
    unfolding power_add [symmetric] by (intro arg_cong [of _ _ "\<lambda>e. 2 ^ e"]) (simp add: k)
  then have "(2 :: int) ^ 52 * 2 ^ Suc k \<le> n" using bits_bounds [OF n] by simp
  then have "of_int (2 ^ 52 * 2 ^ Suc k) \<le> (of_int n :: rat)" by (simp only: of_int_le_iff)
  then have "of_int (2 ^ 52) \<le> of_int n / ulp (of_int n)" by (simp add: u pos_le_divide_eq)
  then have r: "2 ^ 52 \<le> round_even (of_int n / ulp (of_int n))" by (rule round_even_ge)
  have "(2 :: rat) ^ 53 \<le> of_int (2 ^ 52) * 2 ^ Suc k"
    using power_increasing [of 0 k "2 :: rat"] by simp
  also have "\<dots> \<le> of_int (round_even (of_int n / ulp (of_int n))) * ulp (of_int n)"
    unfolding u using r [unfolded u] by (intro mult_right_mono) (simp_all only: of_int_le_iff, simp_all)
  finally show ?thesis using n by (simp add: round64_def)
qed

section \<open>Printing\<close>

lemma length_units [simp]: "length units = 5"
  by (simp add: units_def)

lemma pretty_loop_index:
  "(i = 5 \<Longrightarrow> 1 \<le> v) \<Longrightarrow> i \<le> 5 \<Longrightarrow> snd (pretty_loop v i) = 5 \<longleftrightarrow> 1024 ^ (5 - i) \<le> v"
proof (induction v i rule: pretty_loop.induct)
  case (1 v i)
  show ?case
  proof (cases "i = 5")
    case False
    then obtain k where k: "5 - i = Suc k" using "1.prems"(2) by (cases "5 - i") auto
    then have k': "5 - Suc i = k" by simp
    show ?thesis
    proof (cases "1024 \<le> v")
      case True
      then have "snd (pretty_loop (v / 1024) (Suc i)) = 5 \<longleftrightarrow> 1024 ^ k \<le> v / 1024"
        using 1 False k' by simp
      also have "\<dots> \<longleftrightarrow> 1024 ^ Suc k \<le> v" by (simp add: pos_le_divide_eq mult.commute)
      finally show ?thesis using True False "1.prems" k by (simp add: pretty_loop.simps [of v i])
    next
      case v: False
      have "(1024 :: rat) \<le> 1024 ^ Suc k" using one_le_power [of "1024 :: rat" k] by simp
      then show ?thesis using v False k by (simp add: pretty_loop.simps [of v i] del: power_Suc)
    qed
  qed (use 1 in \<open>simp add: pretty_loop.simps [of v 5]\<close>)
qed

lemma pretty_loop_le: "i \<le> 5 \<Longrightarrow> snd (pretty_loop v i) \<le> 5"
proof (induction v i rule: pretty_loop.induct)
  case (1 v i)
  then show ?case by (subst pretty_loop.simps) auto
qed

section \<open>Decoding whole numbers\<close>

definition unit_sizes :: "(string \<times> int) list" where
  "unit_sizes = [([], 1), (''B'', 1), (''KB'', 1000), (''MB'', 1000 ^ 2), (''GB'', 1000 ^ 3), (''TB'', 1000 ^ 4),
     (''KiB'', 1024), (''MiB'', 1024 ^ 2), (''GiB'', 1024 ^ 3), (''TiB'', 1024 ^ 4)]"

lemma takeWhile_digits:
  assumes "rest = [] \<or> \<not> is_digit (hd rest)"
  shows "takeWhile is_digit (dec_digits n @ rest) = dec_digits n" "dropWhile is_digit (dec_digits n @ rest) = rest"
  using assms dec_digits_digits [of _ n]
  by (cases rest; simp add: takeWhile_append dropWhile_append)+

lemma match_number_digits:
  assumes "rest = [] \<or> \<not> is_digit (hd rest) \<and> hd rest \<noteq> CHR ''.''"
  shows "match_number (dec_digits n @ rest) = Some (dec_digits n, rest)"
  using assms takeWhile_digits [of rest n]
  by (cases rest) (auto simp: match_number_def Let_def simp del: takeWhile_eq_all_conv dropWhile_eq_Nil_conv)

lemma re_space_not_digit: "is_re_space c \<Longrightarrow> \<not> is_digit c \<and> c \<noteq> CHR ''.''"
  by (auto simp: is_re_space_def is_digit_def)

lemma match_number_spaced:
  assumes "list_all is_re_space sp" "rest = [] \<or> \<not> is_digit (hd rest) \<and> hd rest \<noteq> CHR ''.'' \<and> \<not> is_re_space (hd rest)"
  shows "match_number (dec_digits n @ sp @ rest) = Some (dec_digits n, sp @ rest)" "dropWhile is_re_space (sp @ rest) = rest"
proof -
  show "match_number (dec_digits n @ sp @ rest) = Some (dec_digits n, sp @ rest)"
    using assms re_space_not_digit by (intro match_number_digits) (cases sp; auto)
  show "dropWhile is_re_space (sp @ rest) = rest"
    using assms by (cases rest) (auto simp: dropWhile_append list_all_iff)
qed

lemma bytesFormat_whole:
  assumes "list_all is_re_space sp" "(u, m) \<in> set unit_sizes"
  shows "\<exists>i. bytesFormat (dec_digits n @ sp @ u) = Some (dec_digits n, u, i) \<and>
    (u = [] \<longrightarrow> m = 1) \<and> (u \<noteq> [] \<longrightarrow> (if i = [] then 1000 else 1024) ^ index_byte units (hd u) = m)"
proof -
  have "list_all (\<lambda>(u, m). u = [] \<or> \<not> is_digit (hd u) \<and> hd u \<noteq> CHR ''.'' \<and> \<not> is_re_space (hd u)) unit_sizes"
    by code_simp
  then have u: "u = [] \<or> \<not> is_digit (hd u) \<and> hd u \<noteq> CHR ''.'' \<and> \<not> is_re_space (hd u)"
    using assms(2) by (auto simp: list_all_iff)
  note m = match_number_spaced(1) [OF assms(1) u, of n] match_number_spaced(2) [OF assms(1) u]
  have "list_all (\<lambda>(u, m). case match_unit u of None \<Rightarrow> False
      | Some (u', i) \<Rightarrow> u' = u \<and> (if u = [] then m = 1 else (if i = [] then 1000 else 1024) ^ index_byte units (hd u) = m))
    unit_sizes"
    by code_simp
  then have "case match_unit u of None \<Rightarrow> False
      | Some (u', i) \<Rightarrow> u' = u \<and> (if u = [] then m = 1 else (if i = [] then 1000 else 1024) ^ index_byte units (hd u) = m)"
    unfolding list_all_iff using assms(2) by blast
  then obtain i where i: "match_unit u = Some (u, i)"
    "if u = [] then m = 1 else (if i = [] then 1000 else 1024) ^ index_byte units (hd u) = m"
    by (cases "match_unit u") auto
  have "bytesFormat (dec_digits n @ sp @ u) = Some (dec_digits n, u, i)"
    using m i(1) by (simp add: bytesFormat_def)
  then show ?thesis using i(2) by (cases "u = []") auto
qed

lemma Atoi_digits: "int n \<le> max_int64 \<Longrightarrow> Atoi (dec_digits n) = (int n, None)"
  using Atoi_Itoa [of "int n"] by (simp add: Itoa_def in_int64_def)

lemma DecodeBytes_whole:
  assumes "0 \<le> n" "n \<le> max_int64" "list_all is_re_space sp" "(u, m) \<in> set unit_sizes"
  shows "DecodeBytes conv (Itoa n @ sp @ u) = Inr (wrap64 (n * m))"
proof -
  obtain i where i: "bytesFormat (dec_digits (nat n) @ sp @ u) = Some (dec_digits (nat n), u, i)" "u = [] \<Longrightarrow> m = 1"
    "u \<noteq> [] \<Longrightarrow> (if i = [] then 1000 else 1024) ^ index_byte units (hd u) = m"
    using bytesFormat_whole [OF assms(3,4)] by blast
  have "in_int64 n" using assms(1,2) by (simp add: in_int64_def)
  then show ?thesis
    using assms(1,2) i Atoi_digits [of "nat n"] by (auto simp: DecodeBytes_def Itoa_def Let_def)
qed

section \<open>Quotas round trip\<close>

lemma digits_value_dec: "digits_value (dec_digits n) = of_nat n"
proof -
  have "fold (\<lambda>c n. 10 * n + digit_val c) (dec_digits n) 0 = int n"
  proof (induction n rule: dec_digits.induct)
    case (1 n)
    show ?case
    proof (cases "n < 10")
      case False
      then show ?thesis using 1 by (simp add: dec_digits.simps [of n]) presburger
    qed (simp add: dec_digits.simps [of n])
  qed
  then show ?thesis by (simp add: digits_value_def)
qed

lemma ParseFloat_whole:
  assumes "0 \<le> n" "n < 2 ^ 53"
  shows "ParseFloat (Itoa n) = Inr (of_int n)"
proof -
  have d: "CHR ''.'' \<notin> set (dec_digits (nat n))" using dec_digits_digits [of "CHR ''.''" "nat n"] by (auto simp: is_digit_def)
  have "decimal_value (Itoa n) = of_int n"
    using assms(1) d by (simp add: decimal_value_def Itoa_def digits_value_dec digits_value_def [of "[]"])
  moreover have "exponent (of_int n) < 1024" if "0 < n"
  proof -
    have "\<not> 1024 \<le> bits n - 1"
    proof
      assume "1024 \<le> bits n - 1"
      then have "(2 :: int) ^ 53 \<le> 2 ^ nat (bits n - 1)" by (intro power_increasing) auto
      then show False using bits_bounds [OF that] assms(2) by linarith
    qed
    then show ?thesis using that by (simp add: exponent_int)
  qed
  ultimately show ?thesis
    using assms round64_exact [OF assms] by (auto simp: ParseFloat_def Let_def)
qed

lemma DecodeBytes_percent: "0 \<le> n \<Longrightarrow> DecodeBytes conv (Itoa n @ ''%'') = Inl (ErrInvalidByteFormat None)"
  using match_number_digits [of "''%''" "nat n"]
  by (simp add: DecodeBytes_def bytesFormat_def Itoa_def is_digit_def match_unit_def is_re_space_def)

lemma percentFormat_whole: "0 \<le> n \<Longrightarrow> percentFormat (Itoa n @ ''%'') = Some (Itoa n)"
  using match_number_digits [of "''%''" "nat n"]
  by (simp add: percentFormat_def Itoa_def is_digit_def is_re_space_def)

lemma PrettyBytes_small: "0 \<le> b \<Longrightarrow> b < 1024 \<Longrightarrow> PrettyBytes b = Ret (Itoa b @ ''B'')"
  using round64_exact [of b] by (simp add: PrettyBytes_def pretty_loop.simps)

section \<open>Properties\<close>

text \<open>
  Sizes in whole numbers are decoded exactly, with any of the units and any space before it,
  as long as they fit in 64 bits; beyond that they silently wrap around.
\<close>

theorem decode_whole_sizes:
  assumes "0 \<le> n" "n \<le> max_int64" "list_all is_re_space sp" "(u, m) \<in> set unit_sizes"
  shows "DecodeBytes conv (Itoa n @ sp @ u) = Inr (wrap64 (n * m)) \<and> (n * m \<le> max_int64 \<longrightarrow> wrap64 (n * m) = n * m)"
proof -
  have "0 \<le> m" using assms(4) by (auto simp: unit_sizes_def)
  then have "0 \<le> n * m" using assms(1) by simp
  then have "n * m \<le> max_int64 \<longrightarrow> wrap64 (n * m) = n * m" by (simp add: in_int64_def)
  then show ?thesis using DecodeBytes_whole [OF assms] by blast
qed

theorem decode_whole_sizes_witness:
  "DecodeBytes (\<lambda>x. 0) (Itoa 12 @ '' '' @ ''GiB'') = Inr 12884901888 \<and>
   DecodeBytes (\<lambda>x. 0) (Itoa 9000000 @ '' '' @ ''TiB'') = Inr (- 8551139423725551616)"
  using decode_whole_sizes [of 12 "'' ''" "''GiB''" "1024 ^ 3" "\<lambda>x. 0"]
    decode_whole_sizes [of 9000000 "'' ''" "''TiB''" "1024 ^ 4" "\<lambda>x. 0"]
  by (simp add: unit_sizes_def is_re_space_def wrap64_def)

text \<open>
  A size can be printed exactly when it is smaller than 1024 TiB; printing a larger one panics,
  since there is no unit above T.
\<close>

lemma pretty_bytes_limit: "panics (PrettyBytes b) \<longleftrightarrow> 2 ^ 50 \<le> b"
proof -
  have "snd (pretty_loop (round64 (of_int b)) 0) = 5 \<longleftrightarrow> 2 ^ 50 \<le> b"
  proof (cases "2 ^ 53 \<le> b")
    case True
    then have "(2 :: rat) ^ 50 \<le> round64 (of_int b)" "(2 :: int) ^ 50 \<le> b"
      using round64_large [OF True] by simp_all
    then show ?thesis using pretty_loop_index [of 0 "round64 (of_int b)"] by simp
  next
    case False
    have "round64 (of_int b) = of_int (max b 0)"
      using round64_exact [of b] False by (cases "0 \<le> b") (simp_all add: round64_def)
    moreover have "(1024 :: rat) ^ 5 \<le> of_int (max b 0) \<longleftrightarrow> 2 ^ 50 \<le> b"
      using of_int_le_iff [of "1024 ^ 5" "max b 0", where ?'a = rat] by (simp add: max_def)
    ultimately show ?thesis using pretty_loop_index [of 0 "round64 (of_int b)"] by simp
  qed
  moreover have "snd (pretty_loop (round64 (of_int b)) 0) \<le> 5" by (rule pretty_loop_le) simp
  ultimately show ?thesis
    by (cases "pretty_loop (round64 (of_int b)) 0") (auto simp: PrettyBytes_def)
qed

text \<open>
  A quota that is a whole percentage, or less than a kibibyte, is read back from the form in
  which the configuration is printed.
\<close>

lemma quota_roundtrip:
  assumes "d = NewDiskQuotaInPercent (of_int p) \<and> 0 < p \<and> p < 2 ^ 53 \<or> d = NewDiskQuotaInBytes b \<and> 0 \<le> b \<and> b < 1024"
  shows "\<exists>s. quota_MarshalYAML d = Ret s \<and> quota_UnmarshalYAML conv s = Inr d"
  using assms
proof (elim disjE conjE)
  assume d: "d = NewDiskQuotaInPercent (of_int p)" and p: "0 < p" "p < 2 ^ 53"
  then show ?thesis
    using DecodeBytes_percent [of p conv] percentFormat_whole [of p] ParseFloat_whole [of p]
    by (simp add: bytes_String_def quota_MarshalYAML_def quota_UnmarshalYAML_def NewDiskQuotaInPercent_def format_0f_def)
next
  assume d: "d = NewDiskQuotaInBytes b" and b: "0 \<le> b" "b < 1024"
  have "(''B'', 1) \<in> set unit_sizes" by (simp add: unit_sizes_def)
  then have "DecodeBytes conv (Itoa b @ ''B'') = Inr b"
    using DecodeBytes_whole [of b "[]" "''B''" 1 conv] b by (simp add: in_int64_def)
  then show ?thesis
    using b PrettyBytes_small [of b] d
    by (simp add: bytes_String_def quota_MarshalYAML_def quota_UnmarshalYAML_def NewDiskQuotaInBytes_def)
qed

lemma quota_roundtrip_witness:
  "\<exists>s. quota_MarshalYAML (NewDiskQuotaInPercent 20) = Ret s \<and>
     quota_UnmarshalYAML (\<lambda>x. 0) s = Inr (NewDiskQuotaInPercent 20)"
  using quota_roundtrip [of "NewDiskQuotaInPercent 20" 20 0 "\<lambda>x. 0"] by simp

text \<open>
  The percentage of a quota has no effect: whatever it is, the quota in bytes is the size of the
  whole file system.
\<close>

lemma quota_percent_ignored:
  assumes "p \<noteq> 0" "0 \<le> blocks" "0 \<le> bsize" "blocks * bsize \<le> max_int64"
    and "blocks \<le> max_int64"
  shows "quota_Bytes (Inr (blocks, bsize)) (NewDiskQuotaInPercent p) = Inr (blocks * bsize)"
proof -
  have "0 \<le> blocks * bsize" using assms(2,3) by simp
  then have "in_int64 blocks" "in_int64 (blocks * bsize)" unfolding in_int64_def using assms by linarith+
  then show ?thesis using assms(1) by (simp add: quota_Bytes_def NewDiskQuotaInPercent_def)
qed

end
