(* ===== verification/Handlers.thy ===== *)
theory Handlers
  imports Client
begin

text \<open>
  \<^verbatim>\<open>internal/handlers/utils.go\<close> and \<^verbatim>\<open>handlers.go\<close>: how a request to one of the servers is
  forwarded through the caching client and how the answer is passed on, rewritten if the
  registry asks for it.

  The connection to the client and the gzip library are arguments: \<open>conn\<close> says how many bytes a
  \<open>Write\<close> takes and whether it fails, given the status, what was written before and the data.
  A reader of gzip reads its source in steps of its own, which \<open>gz_open\<close> and \<open>gz_read\<close> name.
\<close>

section \<open>Writing the answer\<close>

record resp_writer =
  w_header :: header
  w_info :: "int list"  \<comment> \<open>informational responses\<close>
  w_sent :: "(int \<times> header) option"  \<comment> \<open>the status and the fields that were sent\<close>
  w_data :: string

type_synonym connection = "int \<Rightarrow> string \<Rightarrow> string \<Rightarrow> nat \<times> io_error option"

definition new_writer :: resp_writer where
  "new_writer = \<lparr>w_header = [], w_info = [], w_sent = None, w_data = []\<rparr>"

definition WriteHeader :: "int \<Rightarrow> resp_writer \<Rightarrow> resp_writer go" where
  "WriteHeader code w =
     (if w_sent w \<noteq> None then Ret w
      else if code < 100 \<or> 999 < code then Panic ''invalid WriteHeader code''
      else if 100 \<le> code \<and> code \<le> 199 \<and> code \<noteq> 101 then Ret (w\<lparr>w_info := w_info w @ [code]\<rparr>)
      else Ret (w\<lparr>w_sent := Some (code, w_header w)\<rparr>))"

definition w_Write :: "connection \<Rightarrow> string \<Rightarrow> resp_writer \<Rightarrow> nat \<times> io_error option \<times> resp_writer" where
  "w_Write conn p w =
     (let (code, h) = (case w_sent w of None \<Rightarrow> (200, w_header w) | Some s \<Rightarrow> s)
      in case conn code (w_data w) p of (n, e) \<Rightarrow>
           (n, e, w\<lparr>w_sent := Some (code, h), w_data := w_data w @ take n p\<rparr>))"

section \<open>Bodies\<close>

definition body_Read :: "nat \<Rightarrow> body \<Rightarrow> string \<times> io_error option \<times> body" where
  "body_Read k b =
     (case b of
        NetBody r \<Rightarrow> (case src_Read k r of (p, e, r') \<Rightarrow> (p, e, NetBody r'))
      | FileBody s \<Rightarrow> if s = [] then ([], Some EOF, b) else (take k s, None, FileBody (drop k s))
      | TeeBody g x \<Rightarrow> (case ingest_Read k g of (p, e, g') \<Rightarrow> (p, e, TeeBody g' x)))"

fun body_reads :: "nat list \<Rightarrow> body \<Rightarrow> body" where
  "body_reads [] b = b"
| "body_reads (k # ks) b = (case body_Read k b of (p, e, b') \<Rightarrow> body_reads ks b')"

text \<open>A bound on the number of reads that are left.\<close>

definition reader_size :: "reader \<Rightarrow> nat" where
  "reader_size r = sum_list (map (\<lambda>(d, e). Suc (length d)) (pieces r))"

definition body_size :: "body \<Rightarrow> nat" where
  "body_size b = (case b of NetBody r \<Rightarrow> reader_size r | FileBody s \<Rightarrow> length s
     | TeeBody g x \<Rightarrow> reader_size (src (tee g)))"

lemma src_Read_size: "src_Read k r = (p, None, r') \<Longrightarrow> 0 < k \<Longrightarrow> reader_size r' < reader_size r"
  by (auto simp: src_Read_def reader_size_def split: list.splits if_splits)

lemma body_Read_size: "body_Read k b = (p, None, b') \<Longrightarrow> 0 < k \<Longrightarrow> body_size b' < body_size b"
  by (cases b)
    (auto simp: body_Read_def body_size_def ingest_Read_def dest!: tee_Read_src src_Read_size
      split: prod.splits if_splits)

text \<open>\<open>io.Copy\<close> into a buffer: everything up to EOF or an error, whatever the size \<open>k\<close> of the reads.\<close>

function read_all :: "nat \<Rightarrow> body \<Rightarrow> string \<Rightarrow> string \<times> io_error option \<times> body" where
  "read_all k b acc =
     (if k = 0 then (acc, None, b)
      else (case body_Read k b of
              (p, None, b') \<Rightarrow> read_all k b' (acc @ p)
            | (p, Some e, b') \<Rightarrow> (acc @ p, if e = EOF then None else Some e, b')))"
  by pat_completeness auto

termination
  by (relation "measure (\<lambda>(k, b, acc). body_size b)") (auto dest: body_Read_size [OF sym])

declare read_all.simps [simp del]

text \<open>\<open>io.CopyBuffer\<close> to the connection, with a buffer of \<open>k\<close> bytes.\<close>

definition write_error :: "nat \<Rightarrow> nat \<Rightarrow> io_error option \<Rightarrow> io_error option" where
  "write_error nr nw ew =
     (if nr < nw then (case ew of None \<Rightarrow> Some (ErrIO ''invalid write result'') | Some e \<Rightarrow> Some e)
      else if ew \<noteq> None then ew
      else if nr \<noteq> nw then Some (ErrIO ''short write'') else None)"

function CopyBuffer :: "connection \<Rightarrow> nat \<Rightarrow> body \<Rightarrow> resp_writer \<Rightarrow> io_error option \<times> body \<times> resp_writer" where
  "CopyBuffer conn k b w =
     (if k = 0 then (None, b, w)
      else (case body_Read k b of (p, er, b') \<Rightarrow>
              (case (if p = [] then (None, w)
                     else case w_Write conn p w of (n, e, w') \<Rightarrow> (write_error (length p) n e, w')) of
                 (Some ew, w') \<Rightarrow> (Some ew, b', w')
               | (None, w') \<Rightarrow>
                   (case er of
                      None \<Rightarrow> CopyBuffer conn k b' w'
                    | Some e \<Rightarrow> (if e = EOF then None else Some e, b', w')))))"
  by pat_completeness auto

termination
  by (relation "measure (\<lambda>(conn, k, b, w). body_size b)") (auto dest: body_Read_size [OF sym])

declare CopyBuffer.simps [simp del]

text \<open>The body of the response at hand: the client's, closed or not, or a buffer.\<close>

datatype resp_body = Upstream body bool | Buffered string

definition body_Close ::
    "'s client \<Rightarrow> resp_body \<Rightarrow> 's world \<Rightarrow> (close_error option \<times> resp_body \<times> 's world) go" where
  "body_Close c b w =
     (case b of
        Buffered s \<Rightarrow> Ret (None, b, w)
      | Upstream (NetBody r) closed \<Rightarrow>
          Ret (if closed then None else map_option SrcClose (close_err r), Upstream (NetBody r) True, w)
      | Upstream (FileBody s) closed \<Rightarrow>
          Ret (if closed then Some AlreadyClosed else None, Upstream (FileBody s) True, w)
      | Upstream (TeeBody g x) closed \<Rightarrow>
          (case close_ingested c g x w of
             Panic m \<Rightarrow> Panic m
           | Ret (r, g', w') \<Rightarrow> Ret (cl_err r, Upstream (TeeBody g' x) True, w')))"

section \<open>JSON handlers\<close>

text \<open>
  A decoder on a buffer: the data it has read ahead and its error, which is kept once the input is
  no JSON. What the decoder makes of the data in front of it, for values of some type, is the
  argument \<open>js\<close>: the data is no JSON or ends too early, or there is a value of \<open>n\<close> bytes, read
  when \<open>m\<close> bytes have been taken from the buffer, which decodes to a value or fails to.
\<close>

datatype 'v json_scan = JError string | JValue nat nat "string + 'v"

record 'v json =
  js_scan :: "string \<Rightarrow> 'v json_scan"
  js_encode :: "'v \<Rightarrow> string + string"

record json_handler =
  jh_buffer :: string
  jh_ahead :: string
  jh_error :: "string option"

definition NewJSONHandler :: json_handler where
  "NewJSONHandler = \<lparr>jh_buffer = [], jh_ahead = [], jh_error = None\<rparr>"

definition Decode :: "'v json \<Rightarrow> json_handler \<Rightarrow> (string + 'v) \<times> json_handler" where
  "Decode js h =
     (case jh_error h of
        Some e \<Rightarrow> (Inl e, h)
      | None \<Rightarrow>
          (let input = jh_ahead h @ jh_buffer h
           in case js_scan js input of
                JError e \<Rightarrow> (Inl e, h\<lparr>jh_buffer := [], jh_ahead := input, jh_error := Some e\<rparr>)
              | JValue n m v \<Rightarrow> (v, h\<lparr>jh_buffer := drop m input, jh_ahead := drop n (take m input)\<rparr>)))"

definition Encode :: "'v json \<Rightarrow> 'v \<Rightarrow> json_handler \<Rightarrow> string option \<times> json_handler" where
  "Encode js v h =
     (case js_encode js v of Inl e \<Rightarrow> (Some e, h) | Inr s \<Rightarrow> (None, h\<lparr>jh_buffer := jh_buffer h @ s\<rparr>))"

section \<open>Rewriting\<close>

datatype rewrite_error = ErrUnknownContentType string | ErrUnexpectedCDN string | JsonError string | LinkError url_error

type_synonym rewriter = "string \<Rightarrow> header \<Rightarrow> json_handler \<Rightarrow> (rewrite_error option \<times> json_handler) go"

record gzip =
  gz_open :: "string \<times> io_error option \<Rightarrow> io_error option \<times> nat list"
  gz_read :: "string \<times> io_error option \<Rightarrow> string \<times> io_error option \<times> nat list"
  gz_encode :: "string \<Rightarrow> io_error + string"

record 's henv =
  hclient :: "'s client"
  conn :: connection
  closer :: "close_error option option"  \<comment> \<open>what \<open>Close\<close> of the writer returns, if it is an \<open>io.Closer\<close>\<close>
  gz :: gzip

datatype handler_error = ReadError io_error | RewriteError rewrite_error | GzipError io_error

definition minRead :: nat where
  "minRead = 512"

text \<open>What a reader of the body would get to the end.\<close>

definition body_content :: "body \<Rightarrow> string \<times> io_error option" where
  "body_content b = (case read_all minRead b [] of (s, e, b') \<Rightarrow> (s, e))"

text \<open>
  The reading half of \<open>modifyBody\<close>: the data, or the error that ends the call, and the body as it is
  then. Errors of closing are only logged.
\<close>

definition read_response ::
    "'s henv \<Rightarrow> bool \<Rightarrow> body \<Rightarrow> 's world \<Rightarrow> ((handler_error + string) \<times> resp_body \<times> 's world) go" where
  "read_response E isGzipped b w =
     (if isGzipped then
        (case gz_open (gz E) (body_content b) of
           (Some e, ks) \<Rightarrow> Ret (Inl (GzipError e), Upstream (body_reads ks b) False, w)
         | (None, ks) \<Rightarrow>
             (case gz_read (gz E) (body_content b) of (s, e, ks') \<Rightarrow>
                (case body_Close (hclient E) (Upstream (body_reads ks' (body_reads ks b)) False) w of
                   Panic m \<Rightarrow> Panic m
                 | Ret (_, b', w') \<Rightarrow> Ret (case e of None \<Rightarrow> Inr s | Some err \<Rightarrow> Inl (ReadError err), b', w'))))
      else
        (case read_all minRead b [] of (s, e, b1) \<Rightarrow>
           (case body_Close (hclient E) (Upstream b1 False) w of
              Panic m \<Rightarrow> Panic m
            | Ret (_, b', w') \<Rightarrow> Ret (case e of None \<Rightarrow> Inr s | Some err \<Rightarrow> Inl (ReadError err), b', w'))))"

text \<open>\<open>modifyBody\<close>: the error, the header and the body of the response, the handler and the world.\<close>

definition modifyBody ::
    "'s henv \<Rightarrow> header \<Rightarrow> body \<Rightarrow> rewriter \<Rightarrow> json_handler \<Rightarrow> 's world
     \<Rightarrow> (handler_error option \<times> header \<times> resp_body \<times> json_handler \<times> 's world) go" where
  "modifyBody E h b modify jh w =
     (let isGzipped = (hdr_Get h ''Content-Encoding'' = ''gzip'')
      in case read_response E isGzipped b w of
           Panic m \<Rightarrow> Panic m
         | Ret (Inl e, b', w') \<Rightarrow> Ret (Some e, h, b', jh, w')
         | Ret (Inr bytes, b', w') \<Rightarrow>
             (case modify bytes h jh of
                Panic m \<Rightarrow> Panic m
              | Ret (Some e, jh') \<Rightarrow> Ret (Some (RewriteError e), h, Buffered [], jh'\<lparr>jh_buffer := []\<rparr>, w')
              | Ret (None, jh') \<Rightarrow>
                  (case (if isGzipped then gz_encode (gz E) (jh_buffer jh') else Inr (jh_buffer jh')) of
                     Inl e \<Rightarrow> Ret (Some (GzipError e), h, b', jh'\<lparr>jh_buffer := []\<rparr>, w')
                   | Inr out \<Rightarrow>
                       Ret (None,
                            if hdr_index h ''Content-Length'' \<noteq> None
                            then gm_set h ''Content-Length'' (Some [Itoa (int (length out))]) else h,
                            Buffered out, jh'\<lparr>jh_buffer := []\<rparr>, w'))))"

section \<open>Forward\<close>

fun any_match :: "string \<Rightarrow> string list \<Rightarrow> bool go" where
  "any_match etag [] = Ret False"
| "any_match etag (m # ms) =
     (case EtagsMatch etag m of Panic p \<Rightarrow> Panic p | Ret True \<Rightarrow> Ret True | Ret False \<Rightarrow> any_match etag ms)"

definition matchesOriginalQuery :: "header \<Rightarrow> header \<Rightarrow> bool go" where
  "matchesOriginalQuery headers resp =
     (let etag = hdr_Get resp ''Etag'';
          lastModified = hdr_Get resp ''Last-Modified''
      in case (if etag \<noteq> [] then any_match etag (slice (hdr_index headers ''If-None-Match'')) else Ret False) of
           Panic p \<Rightarrow> Panic p
         | Ret True \<Rightarrow> Ret True
         | Ret False \<Rightarrow> Ret (lastModified \<noteq> [] \<and> lastModified = hdr_Get headers ''If-Modified-Since''))"

definition removeEmptyPort :: "string \<Rightarrow> string" where
  "removeEmptyPort host = (if host \<noteq> [] \<and> last host = CHR '':'' then butlast host else host)"

definition NewRequest :: "string \<Rightarrow> string \<Rightarrow> url_error + request" where
  "NewRequest meth url =
     (case Parse url of
        Inl e \<Rightarrow> Inl e
      | Inr u \<Rightarrow>
          (let u' = u\<lparr>Host := removeEmptyPort (Host u)\<rparr>
           in Inr \<lparr>Method = meth, ReqURL = u', ReqHost = Host u', ReqHeader = [], ReqProxy = None\<rparr>))"

definition error_status :: "net_error \<Rightarrow> int" where
  "error_status e = (case e of NetTimeout _ \<Rightarrow> 504 | NetError _ \<Rightarrow> 502 | OtherError _ \<Rightarrow> 500)"

text \<open>The deferred closing of the body; an error of it panics.\<close>

definition finish ::
    "'s henv \<Rightarrow> resp_body \<Rightarrow> resp_writer \<times> json_handler \<Rightarrow> 's world \<Rightarrow> (resp_writer \<times> json_handler \<times> 's world) go" where
  "finish E b out w =
     (case body_Close (hclient E) b w of
        Panic m \<Rightarrow> Panic m
      | Ret (Some e, _, w') \<Rightarrow> Panic ''Error closing the body of the upstream request''
      | Ret (None, _, w') \<Rightarrow> Ret (fst out, snd out, w'))"

text \<open>The last part of \<open>Forward\<close>: the header and the body are copied to the client.\<close>

definition bufferSize :: nat where
  "bufferSize = 32768"

definition copy_body :: "'s henv \<Rightarrow> resp_body \<Rightarrow> resp_writer \<Rightarrow> (io_error option \<times> resp_body \<times> resp_writer)" where
  "copy_body E b wr =
     (case b of
        Upstream b0 closed \<Rightarrow> (case CopyBuffer (conn E) bufferSize b0 wr of (e, b1, wr') \<Rightarrow> (e, Upstream b1 closed, wr'))
      | Buffered s \<Rightarrow> (case CopyBuffer (conn E) bufferSize (FileBody s) wr of (e, b1, wr') \<Rightarrow> (e, b, wr')))"

definition send_response ::
    "'s henv \<Rightarrow> int \<Rightarrow> header \<Rightarrow> resp_body \<Rightarrow> json_handler \<Rightarrow> resp_writer \<Rightarrow> 's world
     \<Rightarrow> (resp_writer \<times> json_handler \<times> 's world) go" where
  "send_response E status h b jh wr w =
     (case WriteHeader status (wr\<lparr>w_header := gm_copy (w_header wr) h\<rparr>) of
        Panic m \<Rightarrow> Panic m
      | Ret wr1 \<Rightarrow>
          (case copy_body E b wr1 of
             (Some e, b', wr2) \<Rightarrow>
               (case closer E of
                  Some (Some e2) \<Rightarrow> Panic ''Error closing the body of the upstream request after having a problem sending it the data''
                | _ \<Rightarrow> finish E b' (wr2, jh) w)
           | (None, b', wr2) \<Rightarrow> finish E b' (wr2, jh) w))"

definition answer_client ::
    "'s henv \<Rightarrow> request \<Rightarrow> rewriter option \<Rightarrow> body http_response \<Rightarrow> json_handler \<Rightarrow> resp_writer \<Rightarrow> 's world
     \<Rightarrow> (resp_writer \<times> json_handler \<times> 's world) go" where
  "answer_client E r modify resp jh wr w =
     (case (if StatusCode resp = StatusOK then matchesOriginalQuery (ReqHeader r) (Header resp) else Ret False) of
        Panic m \<Rightarrow> Panic m
      | Ret True \<Rightarrow>
          (case WriteHeader 304 (wr\<lparr>w_header := gm_copy (w_header wr) (Header resp)\<rparr>) of
             Panic m \<Rightarrow> Panic m
           | Ret wr' \<Rightarrow> finish E (Upstream (Body resp) False) (wr', jh) w)
      | Ret False \<Rightarrow>
          (case modify of
             None \<Rightarrow> send_response E (StatusCode resp) (Header resp) (Upstream (Body resp) False) jh wr w
           | Some f \<Rightarrow>
               (case modifyBody E (Header resp) (Body resp) f jh w of
                  Panic m \<Rightarrow> Panic m
                | Ret (Some e, h, b, jh', w') \<Rightarrow>
                    (case WriteHeader 500 wr of Panic m \<Rightarrow> Panic m | Ret wr' \<Rightarrow> finish E b (wr', jh') w')
                | Ret (None, h, b, jh', w') \<Rightarrow> send_response E (StatusCode resp) h b jh' wr w')))"

type_synonym recovery = "net_error \<Rightarrow> resp_writer \<Rightarrow> (string option \<times> resp_writer) go"

definition Forward ::
    "'s henv \<Rightarrow> request \<Rightarrow> string \<Rightarrow> rewriter option \<Rightarrow> recovery option
     \<Rightarrow> UpstreamCache \<Rightarrow> CachedResponses Entry \<Rightarrow> json_handler \<Rightarrow> resp_writer \<Rightarrow> 's world
     \<Rightarrow> (resp_writer \<times> json_handler \<times> 's world) go" where
  "Forward E r upstreamURL modify recovery upstreamCache pooled jh wr w =
     (case NewRequest (Method r) upstreamURL of
        Inl e \<Rightarrow> Panic ''Error generating new upstream request''
      | Inr q \<Rightarrow>
          (case Do (hclient E) pooled (q\<lparr>ReqHeader := gm_copy (ReqHeader q) (ReqHeader r)\<rparr>) upstreamCache w of
             Panic m \<Rightarrow> Panic m
           | Ret (Inr resp, w') \<Rightarrow> answer_client E r modify resp jh wr w'
           | Ret (Inl err, w') \<Rightarrow>
               (case (case recovery of None \<Rightarrow> Ret (Some [], wr) | Some f \<Rightarrow> f err wr) of
                  Panic m \<Rightarrow> Panic m
                | Ret (None, wr') \<Rightarrow> Ret (wr', jh, w')
                | Ret (Some _, wr') \<Rightarrow>
                    (case WriteHeader (error_status err) wr' of
                       Panic m \<Rightarrow> Panic m | Ret wr'' \<Rightarrow> Ret (wr'', jh, w')))))"

definition NotImplemented :: "'s henv \<Rightarrow> resp_writer \<Rightarrow> resp_writer go" where
  "NotImplemented E wr =
     (case WriteHeader 501 wr of
        Panic m \<Rightarrow> Panic m
      | Ret wr1 \<Rightarrow>
          (case w_Write (conn E) ''Not implemented'' wr1 of
             (n, Some e, wr2) \<Rightarrow> Panic ''Error sending response to client''
           | (n, None, wr2) \<Rightarrow> Ret wr2))"

end
