(* ===== verification/Forwarding.thy ===== *)
theory Forwarding
  imports Handlers Storing
begin

text \<open>
  What \<open>Forward\<close> does with an answer of the caching client: what reaches the client, what is
  stored on the way, and which requests are answered with 304.
\<close>

section \<open>Copying a body\<close>

text \<open>A connection that takes everything.\<close>

definition accepting :: "connection \<Rightarrow> bool" where
  "accepting cn \<longleftrightarrow> (\<forall>code d p. cn code d p = (length p, None))"

fun pieces_rest :: "(string \<times> io_error option) list \<Rightarrow> string \<times> io_error option" where
  "pieces_rest [] = ([], None)"
| "pieces_rest ((d, None) # ps) = (d @ fst (pieces_rest ps), snd (pieces_rest ps))"
| "pieces_rest ((d, Some e) # ps) = (d, if e = EOF then None else Some e)"

text \<open>The data that a body gives up to its end or its first error, and that error.\<close>

definition body_rest :: "body \<Rightarrow> string \<times> io_error option" where
  "body_rest b = (case b of NetBody r \<Rightarrow> pieces_rest (pieces r) | FileBody s \<Rightarrow> (s, None)
     | TeeBody g x \<Rightarrow> pieces_rest (pieces (src (tee g))))"

lemma src_Read_rest:
  assumes "src_Read k r = (p, e, r')"
  shows "pieces_rest (pieces r) =
    (case e of None \<Rightarrow> (p @ fst (pieces_rest (pieces r')), snd (pieces_rest (pieces r')))
     | Some err \<Rightarrow> (p, if err = EOF then None else Some err))"
proof (cases "pieces r")
  case (Cons a ps)
  obtain d o' where a: "a = (d, o')" by (cases a)
  show ?thesis using assms Cons a by (cases o') (auto simp: src_Read_def split: if_splits)
qed (use assms in \<open>auto simp: src_Read_def\<close>)

lemma body_Read_rest:
  assumes "body_Read k b = (p, e, b')"
  shows "body_rest b =
    (case e of None \<Rightarrow> (p @ fst (body_rest b'), snd (body_rest b'))
     | Some err \<Rightarrow> (p, if err = EOF then None else Some err))"
proof (cases b)
  case (NetBody r)
  then show ?thesis using assms src_Read_rest [of k r]
    by (cases e) (auto simp: body_Read_def body_rest_def split: prod.splits)
next
  case (FileBody s)
  then show ?thesis using assms by (auto simp: body_Read_def body_rest_def split: if_splits)
next
  case (TeeBody g x)
  obtain p1 e1 t1 where r: "TeeReader_Read sink_write k (tee g) = (p1, e1, t1)"
    by (cases "TeeReader_Read sink_write k (tee g)")
  show ?thesis
    using assms TeeBody r src_Read_rest [OF tee_Read_src [OF r]]
    by (cases e1) (auto simp: body_Read_def body_rest_def ingest_Read_def)
qed

lemma read_all_rest:
  "0 < k \<Longrightarrow> fst (read_all k b acc) = acc @ fst (body_rest b) \<and> fst (snd (read_all k b acc)) = snd (body_rest b)"
proof (induction k b acc rule: read_all.induct)
  case (1 k b acc)
  obtain p e b' where r: "body_Read k b = (p, e, b')" by (cases "body_Read k b")
  show ?case
    using "1.IH" [OF _ r [symmetric] refl] "1.prems" r body_Read_rest [OF r]
    by (cases e) (simp_all add: read_all.simps [of k b acc])
qed

lemma body_content_rest: "body_content b = body_rest b"
proof -
  obtain s e b' where r: "read_all minRead b [] = (s, e, b')" by (cases "read_all minRead b []")
  then show ?thesis using read_all_rest [of minRead b "[]"] by (auto simp: body_content_def minRead_def)
qed

lemma w_Write_accepting:
  assumes "accepting cn" "w_sent w = Some sh"
  shows "w_Write cn p w = (length p, None, w\<lparr>w_data := w_data w @ p\<rparr>)"
  using assms by (simp add: accepting_def w_Write_def Let_def split: prod.splits)

lemma CopyBuffer_step:
  assumes "accepting cn" "0 < k" "w_sent w = Some sh" "body_Read k b = (p, e, b')"
  shows "CopyBuffer cn k b w = (case e of None \<Rightarrow> CopyBuffer cn k b' (w\<lparr>w_data := w_data w @ p\<rparr>)
    | Some err \<Rightarrow> (if err = EOF then None else Some err, b', w\<lparr>w_data := w_data w @ p\<rparr>))"
  using assms w_Write_accepting [OF assms(1,3), of p]
  by (cases e) (simp_all add: CopyBuffer.simps [of cn k b w] write_error_def)

lemma CopyBuffer_rest:
  assumes "accepting cn" "0 < k" "w_sent w = Some sh" "CopyBuffer cn k b w = (e, b', w')"
  shows "w' = w\<lparr>w_data := w_data w @ fst (body_rest b)\<rparr> \<and> e = snd (body_rest b)"
  using assms(3,4)
proof (induction "body_size b" arbitrary: b w rule: less_induct)
  case less
  obtain p er b1 where r: "body_Read k b = (p, er, b1)" by (cases "body_Read k b")
  note st = CopyBuffer_step [OF assms(1,2) less.prems(1) r]
  show ?case
  proof (cases er)
    case None
    have "body_size b1 < body_size b" using body_Read_size r None assms(2) by simp
    from less.hyps [OF this, of "w\<lparr>w_data := w_data w @ p\<rparr>"] show ?thesis
      using less.prems st None body_Read_rest [OF r] by simp
  next
    case (Some err)
    then show ?thesis using less.prems st body_Read_rest [OF r] by auto
  qed
qed

text \<open>What is copied through a tee is what was read through it.\<close>

lemma CopyBuffer_tee:
  assumes "accepting cn" "0 < k" "w_sent w = Some sh" "CopyBuffer cn k (TeeBody g x) w = (e, b', w')"
  shows "\<exists>ks res g'. b' = TeeBody g' x \<and> wasCalled g' = wasCalled g \<and>
    tee_reads sink_write ks (tee g) = (res, tee g') \<and> w_data w' = w_data w @ read_data res"
  using assms(3,4)
proof (induction "body_size (TeeBody g x)" arbitrary: g w rule: less_induct)
  case less
  obtain p er t1 where t: "TeeReader_Read sink_write k (tee g) = (p, er, t1)"
    by (cases "TeeReader_Read sink_write k (tee g)")
  let ?g = "g\<lparr>tee := t1\<rparr>"
  have r: "body_Read k (TeeBody g x) = (p, er, TeeBody ?g x)" using t by (simp add: body_Read_def ingest_Read_def)
  note st = CopyBuffer_step [OF assms(1,2) less.prems(1) r]
  show ?case
  proof (cases er)
    case None
    have "body_size (TeeBody ?g x) < body_size (TeeBody g x)" using body_Read_size r None assms(2) by simp
    from less.hyps [OF this, of "w\<lparr>w_data := w_data w @ p\<rparr>"] obtain ks res g' where
      "b' = TeeBody g' x" "wasCalled g' = wasCalled g" "tee_reads sink_write ks t1 = (res, tee g')"
      "w_data w' = w_data w @ p @ read_data res"
      using less.prems st None by auto
    then show ?thesis
      using t None by (intro exI [of _ "k # ks"] exI [of _ "(p, None) # res"] exI [of _ g']) simp
  next
    case (Some err)
    then show ?thesis
      using less.prems st t by (intro exI [of _ "[k]"] exI [of _ "[(p, er)]"] exI [of _ ?g]) auto
  qed
qed

section \<open>Sending a response\<close>

definition valid_status :: "int \<Rightarrow> bool" where
  "valid_status s \<longleftrightarrow> 200 \<le> s \<and> s \<le> 999"

lemma WriteHeader_valid:
  "valid_status s \<Longrightarrow> w_sent wr = None \<Longrightarrow> WriteHeader s wr = Ret (wr\<lparr>w_sent := Some (s, w_header wr)\<rparr>)"
  by (simp add: WriteHeader_def valid_status_def)

text \<open>The answer is sent: status, fields and data.\<close>

definition sends_answer :: "resp_writer \<Rightarrow> int \<Rightarrow> header \<Rightarrow> string \<Rightarrow> resp_writer \<Rightarrow> bool" where
  "sends_answer wr status h d wr' \<longleftrightarrow>
     w_sent wr' = Some (status, gm_copy (w_header wr) h) \<and> w_data wr' = w_data wr @ d"

lemma finish_Ret: "finish E b (wr, jh) w = Ret (wr', jh', w') \<Longrightarrow> wr' = wr \<and> jh' = jh \<and>
    (\<exists>b'. body_Close (hclient E) b w = Ret (None, b', w'))"
  by (auto simp: finish_def split: go.splits prod.splits option.splits)

lemma send_response_sends:
  assumes "accepting (conn E)" "valid_status s" "w_sent wr = None"
    and "send_response E s h b jh wr w = Ret (wr', jh', w')"
  shows "sends_answer wr s h (case b of Upstream b0 c \<Rightarrow> fst (body_rest b0) | Buffered d \<Rightarrow> d) wr' \<and> jh' = jh"
proof -
  let ?wr1 = "wr\<lparr>w_header := gm_copy (w_header wr) h, w_sent := Some (s, gm_copy (w_header wr) h)\<rparr>"
  have wh: "WriteHeader s (wr\<lparr>w_header := gm_copy (w_header wr) h\<rparr>) = Ret ?wr1"
    using WriteHeader_valid [OF assms(2), of "wr\<lparr>w_header := gm_copy (w_header wr) h\<rparr>"] assms(3) by simp
  obtain e b' wr2 where cb: "copy_body E b ?wr1 = (e, b', wr2)" by (cases "copy_body E b ?wr1")
  have "finish E b' (wr2, jh) w = Ret (wr', jh', w')"
    using assms(4) wh cb by (auto simp: send_response_def split: option.splits)
  then have "wr' = wr2" "jh' = jh" using finish_Ret by blast+
  moreover have "wr2 = ?wr1\<lparr>w_data := w_data wr @ (case b of Upstream b0 c \<Rightarrow> fst (body_rest b0) | Buffered d \<Rightarrow> d)\<rparr>"
  proof (cases b)
    case (Upstream b0 c)
    then show ?thesis
      using cb CopyBuffer_rest [OF assms(1), of bufferSize ?wr1 _ b0]
      by (auto simp: copy_body_def bufferSize_def split: prod.splits)
  next
    case (Buffered d)
    then show ?thesis
      using cb CopyBuffer_rest [OF assms(1), of bufferSize ?wr1 _ "FileBody d"]
      by (auto simp: copy_body_def bufferSize_def body_rest_def split: prod.splits)
  qed
  ultimately show ?thesis by (simp add: sends_answer_def)
qed

text \<open>A tee from which nothing has been read.\<close>

definition fresh_tee :: "reader \<Rightarrow> ingestion \<Rightarrow> bool" where
  "fresh_tee s g \<longleftrightarrow> (\<exists>name cap. g =
     \<lparr>tee = TeeReader_New s \<lparr>tmp_name = name, written = [], hashed = [], capacity = cap\<rparr>, wasCalled = False\<rparr>)"

lemma fresh_tee_reads:
  assumes "fresh_tee s g" "tee_reads sink_write ks (tee g) = (res, tee g')" "wasCalled g' = wasCalled g"
  shows "ingesting s g' \<and> \<not> wasCalled g' \<and> remaining s = read_data res @ remaining (src (tee g'))"
proof -
  obtain name cap where g: "g = \<lparr>tee = TeeReader_New s \<lparr>tmp_name = name, written = [], hashed = [], capacity = cap\<rparr>, wasCalled = False\<rparr>"
    using assms(1) by (auto simp: fresh_tee_def)
  have "ingesting s g'" using assms(2) unfolding g ingestion.simps ingesting_def by blast
  then show ?thesis
    using assms(3) g src_reads_remaining [OF tee_reads_src [OF assms(2)]] by (simp add: TeeReader_New_def)
qed

lemma close_stored:
  assumes "ingesting s g" "eof_last s" "\<not> wasCalled g"
    and "close_ingested c g x w = Ret (res, g', w')" and "cl_hash res = Some h"
  shows "blob (cfs (wcache w')) h = Some (remaining s) \<and> remaining (src (tee g)) = []"
proof -
  obtain t where t: "ingest_Close (osf (cenv c)) (blake3 (cenv c)) (fcache (cenv c)) (clk c (ticks w)) g (cfs (wcache w)) = Ret (res, g', t)"
    using assms(4) by (auto simp: close_ingested_def Let_def split: go.splits prod.splits)
  have "remaining (src (tee g)) = []"
    using t assms(3)
  proof (cases rule: ingest_Close_cases)
    case discard
    then show ?thesis using assms(5) by (simp add: discarded_def)
  next
    case (store d n s')
    then show ?thesis using eof_drained [OF ingesting_eof [OF assms(1,2)]] by blast
  qed
  moreover obtain t' where "w' = onIngest c x h (w\<lparr>wcache := (wcache w)\<lparr>cfs := t'\<rparr>\<rparr>)" "blob t' h = Some (remaining s)"
    using close_ingested_stored [OF assms] by (metis fun_upd_same)
  moreover have "cfs (wcache (onIngest c x h v)) = cfs (wcache v)" for v
    by (simp add: onIngest_def now_def Let_def cache_New_def cache_Save_def split: sum.splits)
  ultimately show ?thesis by simp
qed

lemma any_match_weak:
  "wf_etag etag \<Longrightarrow> list_all wf_etag ms \<Longrightarrow> any_match etag ms = Ret (list_ex (weak_match etag) ms)"
  by (induction ms) (auto simp: EtagsMatch_weak split: bool.splits)

text \<open>Whether a request is answered by the validators it carries.\<close>

definition not_modified_for :: "header \<Rightarrow> header \<Rightarrow> bool" where
  "not_modified_for headers resp \<longleftrightarrow>
     (hdr_Get resp ''Etag'' \<noteq> [] \<and> list_ex (weak_match (hdr_Get resp ''Etag'')) (slice (hdr_index headers ''If-None-Match''))) \<or>
     (hdr_Get resp ''Last-Modified'' \<noteq> [] \<and> hdr_Get resp ''Last-Modified'' = hdr_Get headers ''If-Modified-Since'')"

lemma matches_weak:
  assumes "hdr_Get resp ''Etag'' = [] \<or> wf_etag (hdr_Get resp ''Etag'')"
    and "list_all wf_etag (slice (hdr_index headers ''If-None-Match''))"
  shows "matchesOriginalQuery headers resp = Ret (not_modified_for headers resp)"
  using assms any_match_weak
  by (auto simp: matchesOriginalQuery_def Let_def not_modified_for_def split: bool.splits)

text \<open>The answer is passed on, not replaced by 304.\<close>

definition passes_on :: "request \<Rightarrow> 'b http_response \<Rightarrow> bool" where
  "passes_on r resp \<longleftrightarrow> StatusCode resp \<noteq> 200 \<or> matchesOriginalQuery (ReqHeader r) (Header resp) = Ret False"

lemma answer_client_passes_on:
  assumes "passes_on r resp"
  shows "answer_client E r modify resp jh wr w =
    (case modify of
       None \<Rightarrow> send_response E (StatusCode resp) (Header resp) (Upstream (Body resp) False) jh wr w
     | Some f \<Rightarrow>
         (case modifyBody E (Header resp) (Body resp) f jh w of
            Panic m \<Rightarrow> Panic m
          | Ret (Some e, h, b, jh', w') \<Rightarrow>
              (case WriteHeader 500 wr of Panic m \<Rightarrow> Panic m | Ret wr' \<Rightarrow> finish E b (wr', jh') w')
          | Ret (None, h, b, jh', w') \<Rightarrow> send_response E (StatusCode resp) h b jh' wr w'))"
  using assms by (auto simp: answer_client_def passes_on_def)

lemma body_reads_kind:
  "\<exists>s'. body_reads ks (FileBody s) = FileBody s'" "\<exists>g'. body_reads ks (TeeBody g x) = TeeBody g' x"
proof (induction ks arbitrary: s g)
  case (Cons k ks)
  { case 1 show ?case using Cons(1) by (auto simp: body_Read_def) }
  { case 2 show ?case using Cons(2) by (auto simp: body_Read_def split: prod.splits) }
qed auto

lemma close_twice:
  assumes "b = FileBody s \<or> b = TeeBody g x" and "body_Close c (Upstream b False) w = Ret (e, b', w')"
  shows "\<exists>b'' w''. body_Close c b' w' = Ret (Some AlreadyClosed, b'', w'')"
  using assms
  by (auto simp: body_Close_def close_ingested_def ingest_Close_def Let_def split: go.splits prod.splits if_splits)

section \<open>Properties\<close>

text \<open>
  C8: What the client gets is what is stored: when a response that is being ingested is passed on
  over a connection that takes all of it, and the ingestion then reports a hash, the bytes that
  were sent to the client are the body stored under this hash.
\<close>

theorem served_is_stored:
  assumes "accepting (conn E)" "valid_status (StatusCode resp)" "w_sent wr = None"
    and "Body resp = TeeBody g x" "fresh_tee s g" "eof_last s"
    and "answer_client E r None resp jh wr w = Ret (wr', jh', w')"
    and "passes_on r resp"
  shows "\<exists>d g1 res g'. sends_answer wr (StatusCode resp) (Header resp) d wr' \<and> ingesting s g1 \<and>
    close_ingested (hclient E) g1 x w = Ret (res, g', w') \<and>
    (\<forall>h. cl_hash res = Some h \<longrightarrow> blob (cfs (wcache w')) h = Some d)"
proof -
  let ?h = "gm_copy (w_header wr) (Header resp)"
  let ?wr1 = "wr\<lparr>w_header := ?h, w_sent := Some (StatusCode resp, ?h)\<rparr>"
  have wh: "WriteHeader (StatusCode resp) (wr\<lparr>w_header := ?h\<rparr>) = Ret ?wr1"
    using WriteHeader_valid [OF assms(2), of "wr\<lparr>w_header := ?h\<rparr>"] assms(3) by simp
  obtain e b' wr2 where cb: "CopyBuffer (conn E) bufferSize (TeeBody g x) ?wr1 = (e, b', wr2)"
    by (cases "CopyBuffer (conn E) bufferSize (TeeBody g x) ?wr1")
  have sr: "send_response E (StatusCode resp) (Header resp) (Upstream (TeeBody g x) False) jh wr w = Ret (wr', jh', w')"
    using assms(4,7) by (simp add: answer_client_passes_on [OF assms(8)])
  then have "finish E (Upstream b' False) (wr2, jh) w = Ret (wr', jh', w')"
    using wh cb by (auto simp: send_response_def copy_body_def split: option.splits)
  then obtain b2 where f: "wr' = wr2" "body_Close (hclient E) (Upstream b' False) w = Ret (None, b2, w')"
    using finish_Ret by blast
  obtain ks rs g1 where g1: "b' = TeeBody g1 x" "wasCalled g1 = wasCalled g" "tee_reads sink_write ks (tee g) = (rs, tee g1)"
    "w_data wr2 = w_data wr @ read_data rs"
    using CopyBuffer_tee [OF assms(1) _ _ cb] by (auto simp: bufferSize_def)
  note fr = fresh_tee_reads [OF assms(5) g1(3,2)]
  obtain res g' where c: "close_ingested (hclient E) g1 x w = Ret (res, g', w')"
    using f(2) g1(1) by (auto simp: body_Close_def split: go.splits prod.splits)
  have "sends_answer wr (StatusCode resp) (Header resp) (read_data rs) wr'"
    using send_response_sends [OF assms(1,2,3) sr] g1(4) f(1) by (simp add: sends_answer_def)
  moreover have "blob (cfs (wcache w')) h = Some (read_data rs)" if "cl_hash res = Some h" for h
    using close_stored [OF _ assms(6) _ c that] fr by auto
  ultimately show ?thesis using fr c by blast
qed


text \<open>
  C22: Rewritten responses are consistent: when a registry's rewriter succeeds, the client gets the
  status of the answer and exactly the text that the rewriter produced, compressed again if it
  was compressed, and a Content-Length, if there is one, is the number of bytes that are sent.
\<close>

theorem rewritten_response:
  assumes "accepting (conn E)" "valid_status (StatusCode resp)" "w_sent wr = None" "w_header wr = []"
    and "passes_on r resp"
    and "gm_wf (Header resp)"
    and "modifyBody E (Header resp) (Body resp) f jh w = Ret (None, h, b, jh1, w1)"
    and "answer_client E r (Some f) resp jh wr w = Ret (wr', jh', w')"
  shows "\<exists>plain jh2 out fields. w_sent wr' = Some (StatusCode resp, fields) \<and> w_data wr' = w_data wr @ out \<and>
    f plain (Header resp) jh = Ret (None, jh2) \<and>
    (if hdr_Get (Header resp) ''Content-Encoding'' = ''gzip'' then gz_encode (gz E) (jh_buffer jh2) = Inr out else out = jh_buffer jh2) \<and>
    (hdr_index (Header resp) ''Content-Length'' \<noteq> None \<longrightarrow> hdr_index fields ''Content-Length'' = Some [Itoa (int (length out))])"
proof -
  let ?H = "Header resp" and ?z = "hdr_Get (Header resp) ''Content-Encoding'' = ''gzip''"
  obtain plain jh2 out where m: "f plain ?H jh = Ret (None, jh2)"
    "(if ?z then gz_encode (gz E) (jh_buffer jh2) else Inr (jh_buffer jh2)) = Inr out" "b = Buffered out"
    "h = (if hdr_index ?H ''Content-Length'' \<noteq> None then gm_set ?H ''Content-Length'' (Some [Itoa (int (length out))]) else ?H)"
    using assms(7) by (auto simp: modifyBody_def Let_def split: go.splits prod.splits sum.splits option.splits)
  have sr: "send_response E (StatusCode resp) h b jh1 wr w1 = Ret (wr', jh', w')"
    using assms(7,8) by (simp add: answer_client_passes_on [OF assms(5)])
  have "gm_wf h" using assms(6) m(4) by simp
  then have "map_of (gm_copy [] h) = map_of h" by (simp add: map_of_gm_copy)
  then have "hdr_index (gm_copy [] h) = hdr_index h" by (rule hdr_index_cong)
  then show ?thesis
    using send_response_sends [OF assms(1-3) sr] m assms(4)
    by (intro exI [of _ plain] exI [of _ jh2] exI [of _ out] exI [of _ "gm_copy [] h"])
      (auto simp: sends_answer_def split: if_splits)
qed


text \<open>
  Two ways to make the handler panic: a request with If-None-Match: * for an answer with a
  strong entity tag, and an answer from the cache, or one being stored, whose compressed body is
  corrupt while it should be rewritten: its body is closed twice.
\<close>

lemma forward_panics:
  assumes "(StatusCode resp = 200 \<and> hdr_index (ReqHeader r) ''If-None-Match'' = Some [''*''] \<and>
      2 \<le> length (hdr_Get (Header resp) ''Etag'') \<and> \<not> HasPrefix (hdr_Get (Header resp) ''Etag'') ''W/'') \<or>
    (passes_on r resp \<and> w_sent wr = None \<and> modify \<noteq> None \<and> hdr_Get (Header resp) ''Content-Encoding'' = ''gzip'' \<and>
      ((\<exists>s. Body resp = FileBody s) \<or> (\<exists>g x. Body resp = TeeBody g x)) \<and>
      fst (gz_open (gz E) (body_content (Body resp))) = None \<and>
      fst (snd (gz_read (gz E) (body_content (Body resp)))) \<noteq> None)"
  shows "\<exists>m. answer_client E r modify resp jh wr w = Panic m"
  using assms
proof (elim disjE)
  assume a: "StatusCode resp = 200 \<and> hdr_index (ReqHeader r) ''If-None-Match'' = Some [''*''] \<and>
      2 \<le> length (hdr_Get (Header resp) ''Etag'') \<and> \<not> HasPrefix (hdr_Get (Header resp) ''Etag'') ''W/''"
  then have "EtagsMatch (hdr_Get (Header resp) ''Etag'') ''*'' = Panic ''slice bounds out of range''"
    by (auto simp: EtagsMatch_def HasPrefix_def numeral_2_eq_2)
  then show ?thesis using a by (auto simp: answer_client_def matchesOriginalQuery_def Let_def)
next
  assume a: "passes_on r resp \<and> w_sent wr = None \<and> modify \<noteq> None \<and> hdr_Get (Header resp) ''Content-Encoding'' = ''gzip'' \<and>
      ((\<exists>s. Body resp = FileBody s) \<or> (\<exists>g x. Body resp = TeeBody g x)) \<and>
      fst (gz_open (gz E) (body_content (Body resp))) = None \<and>
      fst (snd (gz_read (gz E) (body_content (Body resp)))) \<noteq> None"
  then obtain f ks s e ks' where f: "modify = Some f" "gz_open (gz E) (body_content (Body resp)) = (None, ks)"
    "gz_read (gz E) (body_content (Body resp)) = (s, Some e, ks')"
    by (metis option.exhaust prod.collapse)
  let ?b = "body_reads ks' (body_reads ks (Body resp))"
  have k: "(\<exists>s. ?b = FileBody s) \<or> (\<exists>g x. ?b = TeeBody g x)"
    using a body_reads_kind by metis
  show ?thesis
  proof (cases "body_Close (hclient E) (Upstream ?b False) w")
    case (Ret t)
    obtain ce b' w' where t: "t = (ce, b', w')" by (cases t)
    then have "modifyBody E (Header resp) (Body resp) f jh w = Ret (Some (ReadError e), Header resp, b', jh, w')"
      using a f Ret by (simp add: modifyBody_def read_response_def Let_def)
    moreover obtain b'' w'' where "body_Close (hclient E) b' w' = Ret (Some AlreadyClosed, b'', w'')"
      using close_twice [OF _ Ret [unfolded t]] k by blast
    ultimately show ?thesis using a f by (simp add: answer_client_passes_on finish_def WriteHeader_def)
  next
    case (Panic m)
    then show ?thesis using a f by (simp add: answer_client_passes_on modifyBody_def read_response_def Let_def)
  qed
qed

section \<open>Examples\<close>

text \<open>The gzip of the examples: a letter z before the data, and corrupt data otherwise.\<close>

definition toy_gzip :: gzip where
  "toy_gzip = \<lparr>gz_open = \<lambda>_. (None, []),
     gz_read = \<lambda>(s, e). (case s of CHR ''z'' # d \<Rightarrow> (d, None, [100]) | _ \<Rightarrow> ([], Some (ErrIO ''invalid header''), [100])),
     gz_encode = \<lambda>s. Inr (CHR ''z'' # s)\<rparr>"

definition hello_env :: "mem henv" where
  "hello_env = \<lparr>hclient = hello_client, conn = \<lambda>code d p. (length p, None), closer = None, gz = toy_gzip\<rparr>"

definition hello_tee :: ingestion where
  "hello_tee = \<lparr>tee = TeeReader_New hello \<lparr>tmp_name = ''tmp1'', written = [], hashed = [], capacity = None\<rparr>, wasCalled = False\<rparr>"

definition hello_response :: "body http_response" where
  "hello_response = \<lparr>StatusCode = 200, Header = page_header, Body = TeeBody hello_tee hello_ctx\<rparr>"

lemma hello_env_accepting: "accepting (conn hello_env)"
  by (simp add: accepting_def hello_env_def)

lemma hello_passes_on: "passes_on page_req hello_response"
proof -
  have "matchesOriginalQuery (ReqHeader page_req) (Header hello_response) = Ret False" by code_simp
  then show ?thesis by (simp add: passes_on_def)
qed

definition hello_half :: ingestion where
  "hello_half = hello_tee\<lparr>tee := snd (tee_reads sink_write [100] (tee hello_tee))\<rparr>"

definition hello_done :: ingestion where
  "hello_done = hello_tee\<lparr>tee := snd (tee_reads sink_write [100, 100] (tee hello_tee))\<rparr>"

lemma hello_reads:
  "body_Read bufferSize (TeeBody hello_tee x) = (''hello '', None, TeeBody hello_half x)"
  "body_Read bufferSize (TeeBody hello_half x) = (''w'', Some EOF, TeeBody hello_done x)"
  by (simp_all add: body_Read_def ingest_Read_def TeeReader_Read_def TeeReader_New_def src_Read_def hello_tee_def hello_half_def
      hello_done_def hello_def bufferSize_def sink_write_def Let_def)

lemma hello_closes:
  "case body_Close hello_client (Upstream (TeeBody hello_done hello_ctx) False) hello_world of
     Ret (e, b, w) \<Rightarrow> e = None | Panic m \<Rightarrow> False"
  by code_simp

lemma hello_answered:
  "\<exists>wr' jh' w'. answer_client hello_env page_req None hello_response NewJSONHandler new_writer hello_world = Ret (wr', jh', w')"
proof -
  let ?wr = "new_writer\<lparr>w_header := gm_copy [] page_header, w_sent := Some (200, gm_copy [] page_header)\<rparr>"
  have k: "0 < bufferSize" by (simp add: bufferSize_def)
  have "CopyBuffer (conn hello_env) bufferSize (TeeBody hello_tee hello_ctx) ?wr =
      (None, TeeBody hello_done hello_ctx, ?wr\<lparr>w_data := ''hello w''\<rparr>)"
    using CopyBuffer_step [OF hello_env_accepting k _ hello_reads(1), of ?wr "(200, gm_copy [] page_header)" hello_ctx]
      CopyBuffer_step [OF hello_env_accepting k _ hello_reads(2), of "?wr\<lparr>w_data := ''hello ''\<rparr>" "(200, gm_copy [] page_header)" hello_ctx]
    by (simp add: new_writer_def)
  moreover obtain b w' where "body_Close hello_client (Upstream (TeeBody hello_done hello_ctx) False) hello_world = Ret (None, b, w')"
    using hello_closes by (auto split: go.splits)
  ultimately show ?thesis
    unfolding answer_client_passes_on [OF hello_passes_on]
    by (simp add: send_response_def hello_response_def WriteHeader_def new_writer_def copy_body_def finish_def) (simp add: hello_env_def)
qed

theorem served_is_stored_witness:
  "\<exists>wr' jh' w' d g1 res g'.
     answer_client hello_env page_req None hello_response NewJSONHandler new_writer hello_world = Ret (wr', jh', w') \<and>
     sends_answer new_writer 200 page_header d wr' \<and> ingesting hello g1 \<and>
     close_ingested hello_client g1 hello_ctx hello_world = Ret (res, g', w')"
proof -
  obtain wr' jh' w' where a: "answer_client hello_env page_req None hello_response NewJSONHandler new_writer hello_world = Ret (wr', jh', w')"
    using hello_answered by blast
  have f: "fresh_tee hello hello_tee" unfolding fresh_tee_def hello_tee_def by blast
  have "valid_status (StatusCode hello_response)" "w_sent new_writer = None" "Body hello_response = TeeBody hello_tee hello_ctx"
    by (simp_all add: valid_status_def new_writer_def hello_response_def)
  from served_is_stored [OF hello_env_accepting this f hello_ingesting(2) a hello_passes_on] a
  show ?thesis by (simp add: hello_response_def hello_env_def) blast
qed

definition file_response :: "header \<Rightarrow> string \<Rightarrow> body http_response" where
  "file_response h s = \<lparr>StatusCode = 200, Header = h, Body = FileBody s\<rparr>"

definition weak_tag :: string where
  "weak_tag = ''W/'' @ [dquote, CHR ''a'', dquote]"

definition cond_req :: request where
  "cond_req = page_req\<lparr>ReqHeader := [(''If-None-Match'', Some [[dquote, CHR ''b'', dquote], [dquote, CHR ''a'', dquote]])]\<rparr>"

lemma file_answered: "\<exists>wr' jh' w'. answer_client hello_env cond_req None (file_response [(''Etag'', Some [weak_tag])] ''x'')
    NewJSONHandler new_writer hello_world = Ret (wr', jh', w')"
proof -
  have "case answer_client hello_env cond_req None (file_response [(''Etag'', Some [weak_tag])] ''x'')
      NewJSONHandler new_writer hello_world of Ret (wr', jh', w') \<Rightarrow> True | Panic m \<Rightarrow> False"
    by code_simp
  then show ?thesis by (auto split: go.splits)
qed


text \<open>A rewriter that writes a fixed text, for a compressed page.\<close>

definition const_rewriter :: rewriter where
  "const_rewriter s h jh = Ret (None, jh\<lparr>jh_buffer := ''new''\<rparr>)"

definition gz_header :: header where
  "gz_header = [(''Content-Encoding'', Some [''gzip'']), (''Content-Length'', Some [''4''])]"

lemma gz_passes_on: "passes_on page_req (file_response gz_header s)"
proof -
  have "matchesOriginalQuery (ReqHeader page_req) gz_header = Ret False" by code_simp
  then show ?thesis by (simp add: passes_on_def file_response_def)
qed

lemma file_content: "body_content (FileBody s) = (s, None)"
  by (simp add: body_content_rest body_rest_def)

lemma gz_modified:
  "\<exists>h b jh1 w1. modifyBody hello_env gz_header (FileBody ''zold'') const_rewriter NewJSONHandler hello_world = Ret (None, h, b, jh1, w1)"
proof -
  have "hdr_Get gz_header ''Content-Encoding'' = ''gzip''" by code_simp
  moreover obtain s where "body_reads [100] (body_reads [] (FileBody ''zold'')) = FileBody s"
    using body_reads_kind(1) [of "[100]" "''zold''"] by auto
  ultimately show ?thesis
    by (simp add: modifyBody_def read_response_def file_content hello_env_def toy_gzip_def body_Close_def const_rewriter_def Let_def)
qed

lemma CopyBuffer_file:
  assumes "accepting cn" "w_sent wr = Some sh"
  shows "\<exists>b'. CopyBuffer cn bufferSize (FileBody s) wr = (None, b', wr\<lparr>w_data := w_data wr @ s\<rparr>)"
proof -
  obtain e b' wr' where c: "CopyBuffer cn bufferSize (FileBody s) wr = (e, b', wr')"
    by (cases "CopyBuffer cn bufferSize (FileBody s) wr")
  from CopyBuffer_rest [OF assms(1) _ assms(2) this] c show ?thesis by (simp add: bufferSize_def body_rest_def)
qed

lemma send_buffered:
  assumes "accepting (conn E)" "valid_status s" "w_sent wr = None"
  shows "\<exists>wr'. send_response E s h (Buffered d) jh wr w = Ret (wr', jh, w)"
proof -
  let ?h = "gm_copy (w_header wr) h"
  let ?wr = "wr\<lparr>w_header := ?h, w_sent := Some (s, ?h)\<rparr>"
  obtain b' wr' where "CopyBuffer (conn E) bufferSize (FileBody d) ?wr = (None, b', wr')"
    using CopyBuffer_file [OF assms(1), of ?wr "(s, ?h)" d] by auto
  moreover have "WriteHeader s (wr\<lparr>w_header := ?h\<rparr>) = Ret ?wr" using assms(2,3) by (simp add: WriteHeader_valid)
  ultimately show ?thesis by (simp add: send_response_def copy_body_def finish_def body_Close_def)
qed

theorem rewritten_response_witness:
  "\<exists>wr' jh' w' out fields. answer_client hello_env page_req (Some const_rewriter) (file_response gz_header ''zold'')
       NewJSONHandler new_writer hello_world = Ret (wr', jh', w') \<and> w_sent wr' = Some (200, fields) \<and> w_data wr' = out \<and>
     hdr_index fields ''Content-Length'' = Some [Itoa (int (length out))]"
proof -
  let ?resp = "file_response gz_header ''zold''"
  obtain h b jh1 w1 where m: "modifyBody hello_env (Header ?resp) (Body ?resp) const_rewriter NewJSONHandler hello_world = Ret (None, h, b, jh1, w1)"
    using gz_modified by (auto simp: file_response_def)
  have s: "valid_status (StatusCode ?resp)" "w_sent new_writer = None" "w_header new_writer = []" "gm_wf (Header ?resp)"
    by (simp_all add: file_response_def valid_status_def new_writer_def gz_header_def gm_wf_def)
  obtain out where "b = Buffered out"
    using m by (auto simp: modifyBody_def Let_def split: go.splits prod.splits sum.splits option.splits)
  then obtain wr' where a: "answer_client hello_env page_req (Some const_rewriter) ?resp NewJSONHandler new_writer hello_world = Ret (wr', jh1, w1)"
    using m send_buffered [OF hello_env_accepting s(1,2)] by (simp add: answer_client_passes_on [OF gz_passes_on]) blast
  have cl: "hdr_index (Header ?resp) ''Content-Length'' \<noteq> None" by (simp add: file_response_def gz_header_def hdr_index_def)
  show ?thesis
    using rewritten_response [OF hello_env_accepting s(1-3) gz_passes_on s(4) m a] a cl
    by (auto simp: file_response_def new_writer_def)
qed

definition down_env :: "mem henv" where
  "down_env = hello_env\<lparr>hclient := page_client\<rparr>"

definition post_req :: request where
  "post_req = page_req\<lparr>Method := ''POST''\<rparr>"


definition star_req :: request where
  "star_req = page_req\<lparr>ReqHeader := [(''If-None-Match'', Some [''*''])]\<rparr>"

lemma forward_panics_witness:
  "(\<exists>m. answer_client hello_env star_req None (file_response [(''Etag'', Some [[dquote, CHR ''a'', dquote]])] ''x'')
      NewJSONHandler new_writer hello_world = Panic m) \<and>
   (\<exists>m. answer_client hello_env page_req (Some const_rewriter) (file_response gz_header ''corrupt'')
      NewJSONHandler new_writer hello_world = Panic m)"
proof -
  let ?r1 = "file_response [(''Etag'', Some [[dquote, CHR ''a'', dquote]])] ''x''" and ?r2 = "file_response gz_header ''corrupt''"
  have "hdr_index (ReqHeader star_req) ''If-None-Match'' = Some [''*'']" "2 \<le> length (hdr_Get (Header ?r1) ''Etag'')"
    "\<not> HasPrefix (hdr_Get (Header ?r1) ''Etag'') ''W/''"
    by code_simp+
  moreover have "hdr_Get (Header ?r2) ''Content-Encoding'' = ''gzip''" by code_simp
  moreover have "body_content (Body ?r2) = (''corrupt'', None)" "StatusCode ?r1 = 200" "\<exists>s. Body ?r2 = FileBody s"
    by (simp_all add: file_response_def file_content)
  moreover have "fst (gz_open (gz hello_env) p) = None" "fst (snd (gz_read (gz hello_env) (''corrupt'', None))) \<noteq> None" for p
    by (simp_all add: hello_env_def toy_gzip_def)
  ultimately show ?thesis
    using forward_panics [of ?r1 star_req new_writer None hello_env] gz_passes_on
      forward_panics [of ?r2 page_req new_writer "Some const_rewriter" hello_env]
    by (simp add: new_writer_def)
qed

end
