(* ===== verification/Registries.thy ===== *)
theory Registries
  imports Handlers
begin

text \<open>
  \<^verbatim>\<open>internal/handlers/galaxy\<close>, \<^verbatim>\<open>goproxy\<close>, \<^verbatim>\<open>npm\<close>, \<^verbatim>\<open>oci\<close>, \<^verbatim>\<open>proxy\<close>, \<^verbatim>\<open>pypi\<close> and \<^verbatim>\<open>rubygem\<close>: the
  registries. Each registers its routes on a \<open>ServeMux\<close>, forwards to its upstream, and some
  rewrite the links of the documents that they pass on.

  Of \<open>ServeMux\<close> the model has the matching of paths and the redirections of unclean paths and of
  directories. The routes of a list are in the order in which the routing tree tries them, the
  more specific first. The map of an npm document is iterated in the order of its list.
\<close>

section \<open>URLs of requests\<close>

definition RequestURI :: "URL \<Rightarrow> string" where
  "RequestURI u =
     (let result = (if Opaque u = [] then (if EscapedPath u = [] then ''/'' else EscapedPath u)
                    else if HasPrefix (Opaque u) ''//'' then Scheme u @ '':'' @ Opaque u else Opaque u)
      in if ForceQuery u \<or> RawQuery u \<noteq> [] then result @ ''?'' @ RawQuery u else result)"

section \<open>ServeMux\<close>

datatype segment = Lit string | Wild string | Rest string

definition path_unescape :: "string \<Rightarrow> string" where
  "path_unescape s = (case unescape s encodePathSegment of Inl e \<Rightarrow> s | Inr t \<Rightarrow> t)"

text \<open>Matching the segments of a path; the values of the wildcards.\<close>

fun match_path :: "segment list \<Rightarrow> string list \<Rightarrow> (string \<times> string) list option" where
  "match_path [] [] = Some []"
| "match_path [Rest n] (s # ss) = Some [(n, path_unescape (Join (s # ss) ''/''))]"
| "match_path (Lit l # ps) (s # ss) = (if path_unescape s = l then match_path ps ss else None)"
| "match_path (Wild n # ps) (s # ss) =
     (if s = [] then None else map_option (Cons (n, path_unescape s)) (match_path ps ss))"
| "match_path _ _ = None"

definition path_segments :: "string \<Rightarrow> string list" where
  "path_segments path = split_on CHR ''/'' (tl path)"

text \<open>\<open>path.Clean\<close> on a rooted path, and \<open>cleanPath\<close>, which keeps a final slash.\<close>

fun clean_segments :: "string list \<Rightarrow> string list \<Rightarrow> string list" where
  "clean_segments [] acc = rev acc"
| "clean_segments (s # ss) acc =
     (if s = [] \<or> s = ''.'' then clean_segments ss acc
      else if s = ''..'' then clean_segments ss (tl acc)
      else clean_segments ss (s # acc))"

definition cleanPath :: "string \<Rightarrow> string" where
  "cleanPath p =
     (if p = [] then ''/''
      else (let p' = (if hd p \<noteq> CHR ''/'' then CHR ''/'' # p else p);
                np = CHR ''/'' # Join (clean_segments (path_segments p') []) ''/''
            in if last p' = CHR ''/'' \<and> np \<noteq> ''/'' then np @ ''/'' else np))"

definition is_rest :: "segment \<Rightarrow> bool" where
  "is_rest s = (case s of Rest _ \<Rightarrow> True | _ \<Rightarrow> False)"

definition exactMatch :: "segment list \<Rightarrow> string \<Rightarrow> bool" where
  "exactMatch ps path =
     (\<not> is_rest (last ps) \<or> path \<noteq> [] \<and> last path = CHR ''/'' \<and> length ps = length (filter (\<lambda>c. c = CHR ''/'') path))"

text \<open>A route: its method, if it has one, its pattern and its handler. GET includes HEAD.\<close>

type_synonym 'h route = "string option \<times> segment list \<times> 'h"

definition method_matches :: "string option \<Rightarrow> string \<Rightarrow> bool" where
  "method_matches m meth = (case m of None \<Rightarrow> True | Some x \<Rightarrow> x = meth \<or> x = ''GET'' \<and> meth = ''HEAD'')"

fun find_route :: "'h route list \<Rightarrow> string \<Rightarrow> string \<Rightarrow> (segment list \<times> 'h \<times> (string \<times> string) list) option" where
  "find_route [] meth path = None"
| "find_route ((m, ps, h) # rs) meth path =
     (if \<not> method_matches m meth then find_route rs meth path
      else (case match_path ps (path_segments path) of
              Some binds \<Rightarrow> Some (ps, h, binds) | None \<Rightarrow> find_route rs meth path))"

datatype 'h routed = Handle 'h "(string \<times> string) list" | RedirectTo string | NotFound

definition mux_Handler :: "'h route list \<Rightarrow> request \<Rightarrow> 'h routed" where
  "mux_Handler rs r =
     (let escaped = EscapedPath (ReqURL r);
          path = (if Method r = ''CONNECT'' then escaped else cleanPath escaped);
          found = find_route rs (Method r) path;
          exact = (case found of None \<Rightarrow> False | Some (ps, _, _) \<Rightarrow> exactMatch ps path);
          slashed = (case find_route rs (Method r) (path @ ''/'') of
                       None \<Rightarrow> False | Some (ps, _, _) \<Rightarrow> exactMatch ps (path @ ''/''))
      in if \<not> exact \<and> path \<noteq> [] \<and> last path \<noteq> CHR ''/'' \<and> slashed
         then RedirectTo (cleanPath (Path (ReqURL r)) @ ''/'')
         else if path \<noteq> escaped then RedirectTo path
         else (case found of None \<Rightarrow> NotFound | Some (_, h, binds) \<Rightarrow> Handle h binds))"

definition PathValue :: "(string \<times> string) list \<Rightarrow> string \<Rightarrow> string" where
  "PathValue binds n = (case map_of binds n of None \<Rightarrow> [] | Some v \<Rightarrow> v)"

section \<open>Handlers\<close>

text \<open>
  What a request needs besides itself: the entry and the JSON handler that the pools hand out, the
  writer and the world.
\<close>

record 's call =
  c_env :: "'s henv"
  c_pooled :: "CachedResponses Entry"
  c_json :: json_handler
  c_writer :: resp_writer
  c_world :: "'s world"

type_synonym 's result = "(resp_writer \<times> json_handler \<times> 's world) go"
type_synonym 's handler = "request \<Rightarrow> (string \<times> string) list \<Rightarrow> 's call \<Rightarrow> 's result"

definition forward ::
    "'s call \<Rightarrow> request \<Rightarrow> string \<Rightarrow> rewriter option \<Rightarrow> recovery option \<Rightarrow> UpstreamCache \<Rightarrow> 's result" where
  "forward k r url modify recovery up =
     Forward (c_env k) r url modify recovery up (c_pooled k) (c_json k) (c_writer k) (c_world k)"

definition not_implemented :: "'s handler" where
  "not_implemented r binds k =
     (case NotImplemented (c_env k) (c_writer k) of
        Panic m \<Rightarrow> Panic m | Ret wr \<Rightarrow> Ret (wr, c_json k, c_world k))"

text \<open>\<open>upstream[len(upstream)-1]\<close> panics on the empty string.\<close>

definition last_byte :: "string \<Rightarrow> char go" where
  "last_byte s = (if s = [] then Panic ''index out of range [-1]'' else Ret (last s))"

definition strip_slash :: "string \<Rightarrow> string go" where
  "strip_slash s = go_bind (last_byte s) (\<lambda>c. Ret (if c = CHR ''/'' then butlast s else s))"

definition ensure_slash :: "string \<Rightarrow> string go" where
  "ensure_slash s = go_bind (last_byte s) (\<lambda>c. Ret (if c \<noteq> CHR ''/'' then s @ ''/'' else s))"

definition direct :: "URL list \<Rightarrow> UpstreamCache" where
  "direct uris = \<lparr>Uris = uris, Proxy = False\<rparr>"

text \<open>The switch on the content type before a rewriter.\<close>

definition for_type :: "string \<Rightarrow> (string \<Rightarrow> json_handler \<Rightarrow> (rewrite_error option \<times> json_handler) go) \<Rightarrow> rewriter" where
  "for_type t f body h jh =
     (if hdr_Get h ''Content-Type'' = t then f body jh
      else Ret (Some (ErrUnknownContentType (hdr_Get h ''Content-Type'')), jh))"

text \<open>Decoding the body with the handler, and encoding the changed document.\<close>

definition decode_body :: "'v json \<Rightarrow> string \<Rightarrow> json_handler \<Rightarrow> (string + 'v) \<times> json_handler" where
  "decode_body js body jh = Decode js (jh\<lparr>jh_buffer := jh_buffer jh @ body\<rparr>)"

definition encode_body :: "'v json \<Rightarrow> 'v \<Rightarrow> json_handler \<Rightarrow> rewrite_error option \<times> json_handler" where
  "encode_body js v jh =
     (case Encode js v (jh\<lparr>jh_buffer := []\<rparr>) of (e, jh') \<Rightarrow> (map_option JsonError e, jh'))"

subsection \<open>galaxy\<close>

record CollectionVersion =
  Artifact :: string
  Collection :: string
  CreatedAt :: string
  DownloadUrl :: string
  cv_Files :: string
  GiCommitSha :: string
  GitUrl :: string
  Href :: string
  Manifest :: string
  Marks :: string
  Metadata :: string
  cv_Name :: string
  Namespace :: string
  RequiresAnsible :: string
  cv_Signatures :: string
  UpdatedAt :: string
  cv_Version :: string

definition rewriteCollectionVersionV3 ::
    "CollectionVersion json \<Rightarrow> string \<Rightarrow> string \<Rightarrow> json_handler \<Rightarrow> (rewrite_error option \<times> json_handler) go" where
  "rewriteCollectionVersionV3 js galaxyServer body jh =
     (case decode_body js body jh of
        (Inl e, jh') \<Rightarrow> Ret (Some (JsonError e), jh')
      | (Inr data, jh') \<Rightarrow>
          (case CutPrefix (DownloadUrl data) galaxyServer of
             (after, True) \<Rightarrow> Ret (encode_body js (data\<lparr>DownloadUrl := after\<rparr>) jh')
           | (_, False) \<Rightarrow>
               if DownloadUrl data = [] then Panic ''index out of range [0]''
               else if hd (DownloadUrl data) \<noteq> CHR ''/''
               then Ret (Some (ErrUnexpectedCDN (DownloadUrl data)), jh')
               else Ret (encode_body js data jh')))"

definition galaxy_RegisterHandler ::
    "CollectionVersion json \<Rightarrow> string \<Rightarrow> URL list \<Rightarrow> 's handler route list" where
  "galaxy_RegisterHandler js galaxyServer upstreamCaches =
     [(Some ''GET'', [Lit ''api'', Lit ''v3'', Lit ''collections'', Wild ''namespace'', Wild ''name'', Lit ''versions'',
              Wild ''version'', Rest []],
       \<lambda>r binds k. forward k r (galaxyServer @ RequestURI (ReqURL r))
          (Some (for_type ''application/json'' (rewriteCollectionVersionV3 js galaxyServer))) None (direct upstreamCaches)),
      (Some ''GET'', [Rest []],
       \<lambda>r binds k. forward k r (galaxyServer @ RequestURI (ReqURL r)) None None (direct upstreamCaches))]"

subsection \<open>goproxy\<close>

text \<open>The loop over the upstream caches changes a copy and appends nothing.\<close>

definition goproxy_RegisterHandler :: "string \<Rightarrow> string \<Rightarrow> URL list \<Rightarrow> 's handler route list go" where
  "goproxy_RegisterHandler upstream sumdb upstreamCaches =
     go_bind (ensure_slash sumdb) (\<lambda>sumdb'. Ret
       [(Some ''GET'', [Lit ''sumdb'', Rest []],
         \<lambda>r binds k.
            if length (RequestURI (ReqURL r)) < 7 then Panic ''slice bounds out of range''
            else forward k r (sumdb' @ drop 7 (RequestURI (ReqURL r))) None None (direct [])),
        (Some ''GET'', [Rest []],
         \<lambda>r binds k. forward k r (upstream @ RequestURI (ReqURL r)) None None (direct upstreamCaches))])"

subsection \<open>npm\<close>

record Dist =
  Attestations :: string
  FileCount :: int
  Integrity :: string
  NpmSignature :: string
  Shasum :: string
  Signatures :: string
  Tarball :: string
  UnpackedSize :: int

record Version =
  Dependencies :: string
  Deprecated :: string
  DevDependencies :: string
  v_Dist :: Dist
  Engines :: string
  PeerDependencies :: string
  v_Version :: string
  v_Name :: string

record NpmProject =
  DistTag :: string
  Modified :: string
  np_Name :: string
  np_Versions :: "(string, Version option) gomap"  \<comment> \<open>a null is a nil pointer\<close>

text \<open>The remote of the first version, the empty string if it is none of those expected.\<close>

definition find_remote :: "string \<Rightarrow> string list \<Rightarrow> string \<Rightarrow> string" where
  "find_remote upstream upstreamCaches tarball =
     (if HasPrefix tarball upstream then upstream
      else (case find (HasPrefix tarball) upstreamCaches of None \<Rightarrow> [] | Some u \<Rightarrow> u))"

fun npm_loop ::
    "string \<Rightarrow> string list \<Rightarrow> string \<Rightarrow> string \<Rightarrow> (string, Version option) gomap
     \<Rightarrow> (rewrite_error + (string, Version option) gomap) go" where
  "npm_loop upstream caches here remote [] = Ret (Inr [])"
| "npm_loop upstream caches here remote ((name, None) # vs) =
     Panic ''invalid memory address or nil pointer dereference''"
| "npm_loop upstream caches here remote ((name, Some v) # vs) =
     (let tarball = Tarball (v_Dist v);
          remote' = (if remote = [] then find_remote upstream caches tarball else remote)
      in if remote' = [] then Ret (Inl (ErrUnexpectedCDN tarball))
         else (case npm_loop upstream caches here remote' vs of
                 Panic m \<Rightarrow> Panic m
               | Ret (Inl e) \<Rightarrow> Ret (Inl e)
               | Ret (Inr vs') \<Rightarrow>
                   Ret (Inr ((name, Some (v\<lparr>v_Dist := (v_Dist v)\<lparr>Tarball := here @ TrimPrefix tarball remote'\<rparr>\<rparr>)) # vs'))))"

definition rewriteJson ::
    "NpmProject json \<Rightarrow> request \<Rightarrow> string \<Rightarrow> string \<Rightarrow> string list \<Rightarrow> string \<Rightarrow> json_handler
     \<Rightarrow> (rewrite_error option \<times> json_handler) go" where
  "rewriteJson js r upstream scheme upstreamCaches body jh =
     (case decode_body js body jh of
        (Inl e, jh') \<Rightarrow> Ret (Some (JsonError e), jh')
      | (Inr data, jh') \<Rightarrow>
          (case npm_loop upstream upstreamCaches (scheme @ ''://'' @ ReqHost r) [] (np_Versions data) of
             Panic m \<Rightarrow> Panic m
           | Ret (Inl e) \<Rightarrow> Ret (Some e, jh')
           | Ret (Inr vs) \<Rightarrow> Ret (encode_body js (data\<lparr>np_Versions := vs\<rparr>) jh')))"

definition npm_RegisterHandler ::
    "NpmProject json \<Rightarrow> string \<Rightarrow> string \<Rightarrow> URL list \<Rightarrow> 's handler route list go" where
  "npm_RegisterHandler js upstream scheme upstreamCaches =
     go_bind (strip_slash upstream) (\<lambda>upstream'.
       let plain = (\<lambda>r binds k. forward k r (upstream' @ RequestURI (ReqURL r)) None None (direct upstreamCaches))
       in Ret
         [(Some ''GET'', [Wild ''pkg'', Lit ''-'', Wild ''path''], plain),
          (Some ''GET'', [Wild ''namespace'', Wild ''pkg'', Lit ''-'', Wild ''path''], plain),
          (Some ''GET'', [Rest []],
           \<lambda>r binds k. forward k r (upstream' @ RequestURI (ReqURL r))
              (Some (for_type ''application/vnd.npm.install-v1+json''
                 (rewriteJson js r upstream' scheme (map url_String upstreamCaches)))) None (direct upstreamCaches))])"

subsection \<open>oci\<close>

text \<open>An unreachable registry is answered for: the API is there.\<close>

definition oci_recovery :: recovery where
  "oci_recovery err wr =
     (let h = hdr_Set (hdr_Set (hdr_Set (w_header wr) ''Docker-Distribution-API-Version'' ''registry/2.0'')
                ''Content-Type'' ''application/json'') ''Content-Length'' ''0''
      in case WriteHeader 200 (wr\<lparr>w_header := h\<rparr>) of Panic m \<Rightarrow> Panic m | Ret wr' \<Rightarrow> Ret (None, wr'))"

definition oci_RegisterHandler :: "string \<Rightarrow> URL list \<Rightarrow> 's handler route list" where
  "oci_RegisterHandler registry upstreamCaches =
     [(Some ''GET'', [Lit ''v2'', Rest ''path''],
       \<lambda>r binds k. forward k r (registry @ RequestURI (ReqURL r)) None
          (if PathValue binds ''path'' = [] then Some oci_recovery else None) (direct upstreamCaches))]"

subsection \<open>proxy\<close>

definition forbid :: "'s handler" where
  "forbid r binds k =
     (case WriteHeader 403 (c_writer k) of
        Panic m \<Rightarrow> Panic m
      | Ret wr \<Rightarrow>
          (case w_Write (conn (c_env k)) ''The server cannot authorize proxying to the requested upstream'' wr of
             (n, Some e, wr') \<Rightarrow> Panic ''An error happened sending the request back to the client''
           | (n, None, wr') \<Rightarrow> Ret (wr', c_json k, c_world k)))"

definition proxy_RegisterHandler :: "string list \<Rightarrow> URL list \<Rightarrow> 's handler route list" where
  "proxy_RegisterHandler allowedHostnames upstreamCaches =
     (let hostnames = fold (\<lambda>h m. gm_set m h ()) allowedHostnames []
      in [(Some ''GET'', [Rest []],
           \<lambda>r binds k.
              if map_of hostnames (ReqHost r) = None then forbid r binds k
              else forward k r (url_String (ReqURL r)) None None \<lparr>Uris = upstreamCaches, Proxy = True\<rparr>)])"

subsection \<open>rubygem\<close>

definition rubygem_RegisterHandler :: "string \<Rightarrow> URL list \<Rightarrow> 's handler route list" where
  "rubygem_RegisterHandler registry upstreamCaches =
     [(Some ''GET'', [Rest []],
       \<lambda>r binds k. forward k r (registry @ RequestURI (ReqURL r)) None None (direct upstreamCaches))]"

subsection \<open>pypi\<close>

text \<open>\<open>base64.StdEncoding\<close>.\<close>

definition b64_alphabet :: string where
  "b64_alphabet = ''ABCDEFGHIJKLMNOPQRSTUVWXYZabcdefghijklmnopqrstuvwxyz0123456789+/''"

definition b64_digit :: "int \<Rightarrow> char" where
  "b64_digit n = b64_alphabet ! nat (n mod 64)"

fun base64 :: "string \<Rightarrow> string" where
  "base64 [] = []"
| "base64 [a] =
     (let x = of_char a * 65536 :: int
      in [b64_digit (x div 262144), b64_digit (x div 4096), CHR ''='', CHR ''=''])"
| "base64 [a, b] =
     (let x = of_char a * 65536 + of_char b * 256 :: int
      in [b64_digit (x div 262144), b64_digit (x div 4096), b64_digit (x div 64), CHR ''=''])"
| "base64 (a # b # c # s) =
     (let x = of_char a * 65536 + of_char b * 256 + of_char c :: int
      in b64_digit (x div 262144) # b64_digit (x div 4096) # b64_digit (x div 64) # b64_digit x # base64 s)"

record File =
  CoreMetadata :: string
  DataDistInfoMetadata :: string
  Filename :: string
  Hashes :: string
  Provenance :: string
  RequiresPython :: string
  Size :: int
  UploadTime :: string
  Yanked :: string
  Url :: string

record PypiProject =
  Files :: "File list"
  AlternateLocations :: string
  Meta :: string
  pp_Name :: string
  ProjectStatus :: string
  pp_Versions :: string

text \<open>The links of the files; the prefix that the first one has is the one that all must have.\<close>

fun pypi_loop :: "string \<Rightarrow> string \<Rightarrow> string \<Rightarrow> File list \<Rightarrow> rewrite_error + File list" where
  "pypi_loop expectedCDN encodedCDN expectedPrefix [] = Inr []"
| "pypi_loop expectedCDN encodedCDN expectedPrefix (f # fs) =
     (let originalUrl = Url f;
          choice = (if expectedPrefix \<noteq> [] then Some (expectedPrefix, encodedCDN)
                    else if HasPrefix originalUrl expectedCDN then Some (expectedCDN, encodedCDN)
                    else if HasPrefix originalUrl encodedCDN then Some (encodedCDN, [])
                    else None)
      in case choice of
           None \<Rightarrow> Inl (ErrUnexpectedCDN originalUrl)
         | Some (prefix, encoded) \<Rightarrow>
             if \<not> HasPrefix originalUrl prefix then Inl (ErrUnexpectedCDN originalUrl)
             else (case Parse originalUrl of
                     Inl e \<Rightarrow> Inl (LinkError e)
                   | Inr uri \<Rightarrow>
                       (case pypi_loop expectedCDN encoded prefix fs of
                          Inl e \<Rightarrow> Inl e
                        | Inr fs' \<Rightarrow>
                            Inr (f\<lparr>Url := url_String (uri\<lparr>Host := [], Scheme := [], Path := encoded @ Path uri\<rparr>)\<rparr> # fs'))))"

definition rewriteJsonV1 ::
    "PypiProject json \<Rightarrow> string \<Rightarrow> string \<Rightarrow> string \<Rightarrow> json_handler \<Rightarrow> (rewrite_error option \<times> json_handler) go" where
  "rewriteJsonV1 js expectedCDN encodedCDN body jh =
     (case decode_body js body jh of
        (Inl e, jh') \<Rightarrow> Ret (Some (JsonError e), jh')
      | (Inr data, jh') \<Rightarrow>
          (case pypi_loop expectedCDN encodedCDN [] (Files data) of
             Inl e \<Rightarrow> Ret (Some e, jh')
           | Inr fs \<Rightarrow> Ret (encode_body js (data\<lparr>Files := fs\<rparr>) jh')))"

definition encoded_cdn :: "string \<Rightarrow> string" where
  "encoded_cdn expectedCDN = ''/cdn/'' @ base64 expectedCDN"

text \<open>A \<open>ServeMux\<close> refuses a pattern whose path is not clean; only the one of the CDN may be so.\<close>

definition pypi_RegisterHandler ::
    "PypiProject json \<Rightarrow> string \<Rightarrow> string \<Rightarrow> URL list \<Rightarrow> 's handler route list go" where
  "pypi_RegisterHandler js upstream expectedCDN upstreamCaches =
     go_bind (strip_slash upstream) (\<lambda>upstream'.
     go_bind (ensure_slash expectedCDN) (\<lambda>cdn.
       let encodedCDN = encoded_cdn cdn;
           cachesWithCDN = map (\<lambda>u. u\<lparr>Path := Path u @ encodedCDN\<rparr>) upstreamCaches
       in if cleanPath (encodedCDN @ ''/{path...}'') \<noteq> encodedCDN @ ''/{path...}''
          then Panic ''non-CONNECT pattern with unclean path can never match''
          else Ret
         [(Some ''GET'', [Lit ''simple'', Rest []],
           \<lambda>r binds k. forward k r (upstream' @ RequestURI (ReqURL r))
              (Some (for_type ''application/vnd.pypi.simple.v1+json'' (rewriteJsonV1 js cdn encodedCDN))) None
              (direct upstreamCaches)),
          (Some ''GET'', map Lit (path_segments encodedCDN) @ [Rest ''path''],
           \<lambda>r binds k. forward k r (cdn @ PathValue binds ''path'') None None (direct cachesWithCDN))]))"

section \<open>The admin interface\<close>

text \<open>
  The pages are rendered by templates, arguments here; \<open>Remove\<close> and \<open>GetStatistics\<close> act on the
  cache of the world. The server of the static files and the profiler's handlers are arguments.
\<close>

record admin_pages =
  list_page :: "string \<Rightarrow> CacheList \<Rightarrow> string"
  index_page :: "CacheStatistics \<Rightarrow> string"

definition write_all :: "'s call \<Rightarrow> resp_writer \<Rightarrow> string \<Rightarrow> string \<Rightarrow> 's world \<Rightarrow> 's result" where
  "write_all k wr s msg w =
     (case w_Write (conn (c_env k)) s wr of
        (n, Some e, wr') \<Rightarrow> Panic msg | (n, None, wr') \<Rightarrow> Ret (wr', c_json k, w))"

definition respond :: "'s call \<Rightarrow> int \<Rightarrow> string \<Rightarrow> 's world \<Rightarrow> 's result" where
  "respond k code s w =
     (case WriteHeader code (c_writer k) of
        Panic m \<Rightarrow> Panic m
      | Ret wr \<Rightarrow> if s = [] then Ret (wr, c_json k, w) else write_all k wr s ''error returning an answer'' w)"

definition admin_healthcheck :: "'s handler" where
  "admin_healthcheck r binds k = respond k 200 ''healthy'' (c_world k)"

definition admin_hostname :: "admin_pages \<Rightarrow> 's handler" where
  "admin_hostname pages r binds k =
     (let E = cenv (hclient (c_env k)); w = c_world k; hostname = PathValue binds ''hostname''
      in case cache_List E (wcache w) hostname of
           Panic m \<Rightarrow> Panic m
         | Ret (Some e, _) \<Rightarrow> respond k 500 ''Unable to gather information'' w
         | Ret (None, l) \<Rightarrow> write_all k (c_writer k) (list_page pages hostname l) ''error sending the list.html'' w)"

definition admin_delete :: "'s handler" where
  "admin_delete r binds k =
     (let E = cenv (hclient (c_env k)); w = c_world k
      in case cache_Remove E (wcache w) (PathValue binds ''key'') of
           Panic m \<Rightarrow> Panic m
         | Ret (Some e, c') \<Rightarrow> respond k (if e = ErrDb ErrKeyNotFound then 404 else 500) [] (w\<lparr>wcache := c'\<rparr>)
         | Ret (None, c') \<Rightarrow> respond k 204 [] (w\<lparr>wcache := c'\<rparr>))"

definition admin_index :: "admin_pages \<Rightarrow> 's handler" where
  "admin_index pages r binds k =
     (let E = cenv (hclient (c_env k)); w = c_world k
      in case cache_GetStatistics E (wcache w) of
           Panic m \<Rightarrow> Panic m
         | Ret (Inl e) \<Rightarrow> respond k 500 ''Unable to gather statistics'' w
         | Ret (Inr stats) \<Rightarrow> write_all k (c_writer k) (index_page pages stats) ''error sending the index.html'' w)"

definition admin_RegisterHandler :: "'s handler \<Rightarrow> admin_pages \<Rightarrow> 's handler route list" where
  "admin_RegisterHandler static pages =
     [(Some ''GET'', [Lit ''healthcheck''], admin_healthcheck),
      (Some ''GET'', [Lit ''static'', Rest []], static),
      (Some ''GET'', [Lit ''hostname'', Wild ''hostname''], admin_hostname pages),
      (Some ''DELETE'', [Lit ''cache'', Wild ''key''], admin_delete),
      (Some ''GET'', [Rest []], admin_index pages)]"

definition RegisterProfilingHandlers :: "(string \<Rightarrow> 's handler) \<Rightarrow> string option \<times> segment list \<Rightarrow> 's handler route list" where
  "RegisterProfilingHandlers pprof prefix =
     map (\<lambda>n. (fst prefix, snd prefix @ [Lit n], pprof n))
       [''allocs'', ''block'', ''cmdline'', ''goroutine'', ''heap'', ''profile'', ''symbol'', ''threadcreate'', ''trace'']
     @ [(fst prefix, snd prefix @ [Rest []], pprof ''index'')]"

text \<open>Every server answers what no registry handles with \<open>NotImplemented\<close>.\<close>

definition with_catch_all :: "'s handler route list \<Rightarrow> 's handler route list" where
  "with_catch_all rs = rs @ [(None, [Rest []], not_implemented)]"

definition serve :: "'s handler route list \<Rightarrow> request \<Rightarrow> 's call \<Rightarrow> 's result option" where
  "serve rs r k =
     (case mux_Handler rs r of
        Handle h binds \<Rightarrow> Some (h r binds k) | RedirectTo _ \<Rightarrow> None | NotFound \<Rightarrow> None)"

end
