(* ===== verification/Services.thy ===== *)
theory Services
  imports Registries Serving
begin

text \<open>
  What the registries promise: the proxy's list of hosts, the rewriting of links, and that a link
  that was rewritten leads back to the file.
\<close>

section \<open>Finding the handler\<close>

lemma match_Rest: "ss \<noteq> [] \<Longrightarrow> \<exists>b. match_path [Rest n] ss = Some b"
  by (cases ss) auto

lemma find_route_Rest: "method_matches m meth \<Longrightarrow>
    \<exists>b. find_route ((m, [Rest n], h) # rs) meth path = Some ([Rest n], h, b)"
  using match_Rest [of "path_segments path" n] by (auto simp: path_segments_def split: option.splits)

lemma mux_Handle:
  assumes "mux_Handler rs r = Handle h b"
  shows "\<exists>path ps. find_route rs (Method r) path = Some (ps, h, b)"
proof -
  define path where "path = (if Method r = ''CONNECT'' then EscapedPath (ReqURL r) else cleanPath (EscapedPath (ReqURL r)))"
  obtain ps where "find_route rs (Method r) path = Some (ps, h, b)"
    using assms unfolding mux_Handler_def path_def [symmetric] Let_def
    by (cases "find_route rs (Method r) path") (auto split: if_splits)
  then show ?thesis by blast
qed

section \<open>The proxy\<close>

definition proxy_handler :: "string list \<Rightarrow> URL list \<Rightarrow> 's handler" where
  "proxy_handler allowed caches = (\<lambda>r binds k.
     if ReqHost r \<notin> set allowed then forbid r binds k
     else forward k r (url_String (ReqURL r)) None None \<lparr>Uris = caches, Proxy = True\<rparr>)"

lemma hostnames_None: "map_of (fold (\<lambda>h m. gm_set m h ()) hs m) h = None \<longleftrightarrow> h \<notin> set hs \<and> map_of m h = None"
  by (induction hs arbitrary: m) auto

lemma proxy_routes: "proxy_RegisterHandler allowed caches = [(Some ''GET'', [Rest []], proxy_handler allowed caches)]"
  by (simp add: proxy_RegisterHandler_def proxy_handler_def Let_def hostnames_None)

lemma proxy_find:
  "\<exists>ps b. find_route (with_catch_all (proxy_RegisterHandler allowed caches)) meth path =
     Some (ps, if method_matches (Some ''GET'') meth then proxy_handler allowed caches else (not_implemented :: 's handler), b)"
proof (cases "method_matches (Some ''GET'') meth")
  case True
  then show ?thesis
    using find_route_Rest [OF True, of "[]" "proxy_handler allowed caches" _ path]
    by (simp add: with_catch_all_def proxy_routes del: find_route.simps) blast
next
  case False
  have n: "method_matches None meth" by (simp add: method_matches_def)
  from find_route_Rest [OF n, of "[]" not_implemented "[]" path] obtain b where
    "find_route [(None, [Rest []], not_implemented :: 's handler)] meth path = Some ([Rest []], not_implemented, b)" by blast
  with False show ?thesis by (simp add: with_catch_all_def proxy_routes)
qed

lemma proxy_serve:
  fixes k :: "'s call"
  assumes "serve (with_catch_all (proxy_RegisterHandler allowed caches)) r k = Some res"
  shows "\<exists>b. res = (if method_matches (Some ''GET'') (Method r) then proxy_handler allowed caches else not_implemented) r b k"
proof -
  obtain h b where h: "mux_Handler (with_catch_all (proxy_RegisterHandler allowed caches)) r = Handle h b" "res = h r b k"
    using assms by (auto simp: serve_def split: routed.splits)
  obtain path ps where "find_route (with_catch_all (proxy_RegisterHandler allowed caches)) (Method r) path = Some (ps, h, b)"
    using mux_Handle [OF h(1)] by blast
  moreover obtain ps' b' where "find_route (with_catch_all (proxy_RegisterHandler allowed caches)) (Method r) path =
      Some (ps', if method_matches (Some ''GET'') (Method r) then proxy_handler allowed caches else (not_implemented :: 's handler), b')"
    using proxy_find by blast
  ultimately have "h = (if method_matches (Some ''GET'') (Method r) then proxy_handler allowed caches else not_implemented)"
    by simp
  then show ?thesis using h(2) by blast
qed

section \<open>npm\<close>

definition has_tarball :: "string \<Rightarrow> string \<times> Version option \<Rightarrow> bool" where
  "has_tarball remote nv = (case snd nv of None \<Rightarrow> False | Some v \<Rightarrow> HasPrefix (Tarball (v_Dist v)) remote)"

definition relocate :: "string \<Rightarrow> string \<Rightarrow> string \<times> Version option \<Rightarrow> string \<times> Version option" where
  "relocate remote here nv = (fst nv, map_option (\<lambda>v. v\<lparr>v_Dist := (v_Dist v)\<lparr>Tarball := here @ drop (length remote) (Tarball (v_Dist v))\<rparr>\<rparr>) (snd nv))"

lemma npm_loop_remote:
  "remote \<noteq> [] \<Longrightarrow> list_all (has_tarball remote) vs \<Longrightarrow> npm_loop upstream caches here remote vs = Ret (Inr (map (relocate remote here) vs))"
proof (induction vs)
  case (Cons nv vs)
  obtain n vo where nv: "nv = (n, vo)" by (cases nv)
  obtain v where v: "vo = Some v" using Cons.prems nv by (cases vo) (auto simp: has_tarball_def)
  then show ?case using Cons nv by (auto simp: has_tarball_def relocate_def TrimPrefix_def Let_def)
qed simp

lemma npm_loop_first:
  assumes "upstream \<noteq> []" "list_all (has_tarball upstream) vs"
  shows "npm_loop upstream caches here [] vs = Ret (Inr (map (relocate upstream here) vs))"
proof (cases vs)
  case (Cons nv vs')
  obtain n vo where nv: "nv = (n, vo)" by (cases nv)
  obtain v where v: "vo = Some v" using assms(2) Cons nv by (cases vo) (auto simp: has_tarball_def)
  then show ?thesis
    using assms Cons nv npm_loop_remote [of upstream vs' upstream caches here]
    by (auto simp: has_tarball_def relocate_def TrimPrefix_def find_remote_def Let_def)
qed simp

section \<open>Plain URLs\<close>

text \<open>Bytes that URLs carry as they are.\<close>

definition link_char :: "char \<Rightarrow> bool" where
  "link_char c \<longleftrightarrow> is_alnum c \<or> c \<in> set ''-_.~/+=''"

definition host_char :: "char \<Rightarrow> bool" where
  "host_char c \<longleftrightarrow> is_alnum c \<or> c \<in> set ''-.''"

lemma alnum_other: "is_alnum c \<Longrightarrow> c \<notin> set ''%?#/@:[]*'' \<and> \<not> is_ctl c"
  by (auto simp: is_alnum_def is_alpha_def is_digit_def is_ctl_def)

lemma link_char_other: "link_char c \<Longrightarrow> c \<notin> set ''%?#@:[]*'' \<and> \<not> is_ctl c"
proof -
  have "list_all (\<lambda>c. c \<notin> set ''%?#@:[]*'' \<and> \<not> is_ctl c) ''-_.~/+=''" by code_simp
  moreover have "is_alnum c \<Longrightarrow> c \<notin> set ''%?#@:[]*'' \<and> \<not> is_ctl c" using alnum_other [of c] by simp
  ultimately show "link_char c \<Longrightarrow> ?thesis" unfolding link_char_def list_all_iff by blast
qed

lemma host_char_other: "host_char c \<Longrightarrow> c \<notin> set ''%?#/@:[]*'' \<and> \<not> is_ctl c"
proof -
  have "list_all (\<lambda>c. c \<notin> set ''%?#/@:[]*'' \<and> \<not> is_ctl c) ''-.''" by code_simp
  then show "host_char c \<Longrightarrow> ?thesis" unfolding host_char_def list_all_iff using alnum_other [of c] by blast
qed

lemma alnum_unescaped: "is_alnum c \<Longrightarrow> \<not> shouldEscape c m"
  by (simp add: shouldEscape_def)

lemma link_unescaped: "link_char c \<Longrightarrow> \<not> shouldEscape c encodePath"
proof -
  have "list_all (\<lambda>c. \<not> shouldEscape c encodePath) ''-_.~/+=''" by code_simp
  then show "link_char c \<Longrightarrow> ?thesis" unfolding link_char_def list_all_iff using alnum_unescaped by blast
qed

lemma host_unescaped: "host_char c \<Longrightarrow> \<not> shouldEscape c encodeHost"
proof -
  have "list_all (\<lambda>c. \<not> shouldEscape c encodeHost) ''-.''" by code_simp
  then show "host_char c \<Longrightarrow> ?thesis" unfolding host_char_def list_all_iff using alnum_unescaped by blast
qed

lemma unescape_link:
  "list_all link_char s \<Longrightarrow> m = encodePath \<or> m = encodePathSegment \<Longrightarrow> unescape s m = Inr s"
  by (induction s) (auto dest: link_char_other)

lemma unescape_host: "list_all host_char s \<Longrightarrow> unescape s encodeHost = Inr s"
  by (induction s) (auto dest: host_char_other host_unescaped)

lemma escape_link: "list_all link_char s \<Longrightarrow> escape s encodePath = s"
  by (induction s) (auto simp: escape_def dest: link_unescaped)

lemma path_unescape_link: "list_all link_char s \<Longrightarrow> path_unescape s = s"
  by (simp add: path_unescape_def unescape_link)

lemma setPath_link: "list_all link_char p \<Longrightarrow> setPath u p = Inr (u\<lparr>Path := p, RawPath := []\<rparr>)"
  by (simp add: setPath_def unescape_link escape_link)

definition cdn_url :: "string \<Rightarrow> string" where
  "cdn_url host = ''https://'' @ host @ ''/''"

lemma parseAuthority_host: "list_all host_char h \<Longrightarrow> parseAuthority h = Inr (None, h)"
proof -
  assume h: "list_all host_char h"
  then have n: "CHR ''@'' \<notin> set h" "CHR '':'' \<notin> set h" "CHR ''['' \<notin> set h"
    using host_char_other by (auto simp: list_all_iff)
  then have "\<not> HasPrefix h ''[''" by (cases h) (auto simp: HasPrefix_def)
  then show ?thesis using n unescape_host [OF h] by (simp add: parseAuthority_def cut_last_def parseHost_def)
qed

lemma getScheme_https: "getScheme (''https:'' @ s) = Inr (''https'', s)"
  by (simp add: getScheme_def is_alpha_def is_digit_def)

lemma Parse_cdn:
  assumes "list_all host_char h" "list_all link_char p"
  shows "Parse (cdn_url h @ p) = Inr (url_zero\<lparr>Scheme := ''https'', Host := h, Path := ''/'' @ p\<rparr>)"
proof -
  let ?rest = "''//'' @ h @ ''/'' @ p"
  have raw: "cdn_url h @ p = ''https:'' @ ?rest" by (simp add: cdn_url_def)
  have c: "c \<in> set ?rest \<Longrightarrow> c \<noteq> CHR ''#'' \<and> c \<noteq> CHR ''?'' \<and> \<not> is_ctl c" for c
    using assms host_char_other [of c] link_char_other [of c] by (auto simp: list_all_iff is_ctl_def)
  have slash: "c \<in> set h \<Longrightarrow> c \<noteq> CHR ''/''" for c
    using assms(1) host_char_other by (auto simp: list_all_iff)
  have tw: "takeWhile (\<lambda>c. c \<noteq> CHR ''/'') (h @ CHR ''/'' # p) = h" "dropWhile (\<lambda>c. c \<noteq> CHR ''/'') (h @ CHR ''/'' # p) = CHR ''/'' # p"
    using slash by (simp_all add: takeWhile_append dropWhile_append)
  have lp: "list_all link_char (''/'' @ p)" using assms(2) by (simp add: link_char_def)
  have pr: "parse_rest (url_zero\<lparr>Scheme := ''https''\<rparr>) ?rest = Inr (url_zero\<lparr>Scheme := ''https'', Host := h, Path := ''/'' @ p\<rparr>)"
    using parseAuthority_host [OF assms(1)] tw setPath_link [OF lp] by (simp add: parse_rest_def HasPrefix_def url_zero_def)
  have q: "last ?rest \<noteq> CHR ''?''" "CHR ''?'' \<notin> set ?rest" using c [OF last_in_set] c by blast+
  have ctl: "\<not> list_ex is_ctl (''https:'' @ ?rest)" using c by (auto simp: list_ex_iff is_ctl_def)
  have lower: "map ascii_lower ''https'' = ''https''" by code_simp
  have z: "url_zero\<lparr>Scheme := x, RawQuery := []\<rparr> = url_zero\<lparr>Scheme := x\<rparr>" for x by (simp add: url_zero_def)
  have star: "''https:'' @ ?rest \<noteq> ''*''" by simp
  have pu: "parse_url (''https:'' @ ?rest) = parse_rest (url_zero\<lparr>Scheme := ''https''\<rparr>) ?rest"
    using ctl star q unfolding parse_url_def getScheme_https sum.case prod.case lower Cut_not_found [OF q(2)] z
    by (metis (no_types, lifting))
  have "CHR ''#'' \<notin> set (''https:'' @ ?rest)" using c by auto
  from Cut_not_found [OF this] show ?thesis unfolding raw Parse_def by (simp only: prod.case pu pr sum.case refl if_True)
qed

lemma Parse_path:
  assumes "list_all link_char s" "\<not> HasPrefix s ''/''"
  shows "Parse (CHR ''/'' # s) = Inr (url_zero\<lparr>Path := CHR ''/'' # s\<rparr>)"
proof -
  let ?raw = "CHR ''/'' # s"
  have c: "c \<in> set ?raw \<Longrightarrow> c \<noteq> CHR ''#'' \<and> c \<noteq> CHR ''?'' \<and> \<not> is_ctl c" for c
    using assms link_char_other [of c] by (auto simp: list_all_iff is_ctl_def)
  have lp: "list_all link_char ?raw" using assms by (simp add: link_char_def)
  have "parse_rest url_zero ?raw = Inr (url_zero\<lparr>Path := ?raw\<rparr>)"
    using setPath_link [OF lp] assms(2) by (auto simp: parse_rest_def HasPrefix_def url_zero_def)
  moreover have "last ?raw \<noteq> CHR ''?''" using c [OF last_in_set] by blast
  moreover have "\<not> list_ex is_ctl ?raw" using c by (auto simp: list_ex_iff)
  moreover have "getScheme ?raw = Inr ([], ?raw)" by (simp add: getScheme_def is_alpha_def is_digit_def)
  moreover have "CHR ''?'' \<notin> set ?raw" "CHR ''#'' \<notin> set ?raw" using c by blast+
  ultimately show ?thesis by (simp add: Parse_def parse_url_def url_zero_def)
qed

section \<open>Segments of paths\<close>

lemma split_on_join: "split_on c (a @ c # b) = split_on c a @ split_on c b"
proof (induction a)
  case (Cons x a)
  obtain y ys where "split_on c a = y # ys" by (cases "split_on c a") auto
  with Cons show ?case by simp
qed simp

lemma length_split_on: "length (split_on c s) = Suc (length (filter (\<lambda>x. x = c) s))"
proof (induction s)
  case (Cons x s)
  obtain y ys where "split_on c s = y # ys" by (cases "split_on c s") auto
  with Cons show ?case by simp
qed simp

lemma split_on_chars: "list_all P s \<Longrightarrow> q \<in> set (split_on c s) \<Longrightarrow> list_all P q"
proof (induction s arbitrary: q)
  case (Cons x s)
  obtain y ys where s: "split_on c s = y # ys" by (cases "split_on c s") auto
  then have "list_all P y" "\<forall>q \<in> set ys. list_all P q" using Cons by auto
  then show ?case using Cons.prems s by (auto split: if_splits)
qed simp

text \<open>A relative path without empty and dotted segments.\<close>

definition clean_rel :: "string \<Rightarrow> bool" where
  "clean_rel p \<longleftrightarrow> list_all (\<lambda>s. s \<noteq> [] \<and> s \<noteq> ''.'' \<and> s \<noteq> ''..'') (split_on CHR ''/'' p)"

lemma clean_rel_join: "clean_rel a \<Longrightarrow> clean_rel b \<Longrightarrow> clean_rel (a @ CHR ''/'' # b)"
  by (simp add: clean_rel_def split_on_join)

lemma clean_rel_ends: "clean_rel p \<Longrightarrow> p \<noteq> [] \<and> hd p \<noteq> CHR ''/'' \<and> last p \<noteq> CHR ''/''"
proof -
  assume c: "clean_rel p"
  have ne: "p \<noteq> []" using c by (auto simp: clean_rel_def)
  have "hd p \<noteq> CHR ''/''" using c ne by (cases p) (auto simp: clean_rel_def)
  moreover have "last p \<noteq> CHR ''/''"
  proof
    assume "last p = CHR ''/''"
    then have "p = butlast p @ CHR ''/'' # []" using ne by (metis append_butlast_last_id)
    then have "[] \<in> set (split_on CHR ''/'' p)" by (metis split_on_join split_on.simps(1) in_set_conv_decomp)
    then show False using c by (auto simp: clean_rel_def list_all_iff)
  qed
  ultimately show ?thesis using ne by blast
qed

lemma clean_segments_id:
  "list_all (\<lambda>s. s \<noteq> [] \<and> s \<noteq> ''.'' \<and> s \<noteq> ''..'') ss \<Longrightarrow> clean_segments ss acc = rev acc @ ss"
  by (induction ss arbitrary: acc) auto

lemma cleanPath_id: "clean_rel p \<Longrightarrow> cleanPath (CHR ''/'' # p) = CHR ''/'' # p"
  using clean_rel_ends [of p] clean_segments_id [of "split_on CHR ''/'' p" "[]"] Join_split_on [of "CHR ''/''" p]
  by (simp add: cleanPath_def path_segments_def clean_rel_def Let_def)

lemma match_literals:
  "list_all (\<lambda>s. path_unescape s = s) xs \<Longrightarrow> ys \<noteq> [] \<Longrightarrow>
   match_path (map Lit xs @ [Rest n]) (xs @ ys) = Some [(n, path_unescape (Join ys ''/''))]"
proof (induction xs)
  case Nil
  then show ?case by (cases ys) auto
next
  case (Cons x xs)
  then show ?case by (cases xs) auto
qed

lemma b64_link: "list_all link_char (base64 s)"
proof -
  have a: "list_all link_char b64_alphabet" by code_simp
  have len: "length b64_alphabet = 64" by code_simp
  have "link_char (b64_digit n)" for n
  proof -
    have "nat (n mod 64) < 64" by (simp add: nat_less_iff)
    then show ?thesis using a len by (simp add: b64_digit_def list_all_length)
  qed
  moreover have "link_char CHR ''=''" by (simp add: link_char_def)
  ultimately show ?thesis by (induction s rule: base64.induct) (simp_all add: Let_def)
qed

section \<open>Links of the package index\<close>

definition file_link :: "string \<Rightarrow> string \<Rightarrow> string" where
  "file_link host p = encoded_cdn (cdn_url host) @ CHR ''/'' # p"

lemma link_path: "file_link host p = CHR ''/'' # ''cdn'' @ CHR ''/'' # base64 (cdn_url host) @ CHR ''/'' # p"
  by (simp add: file_link_def encoded_cdn_def)

lemma link_chars:
  "list_all link_char p \<Longrightarrow> list_all link_char (''cdn'' @ CHR ''/'' # base64 (cdn_url host) @ CHR ''/'' # p)"
  using b64_link [of "cdn_url host"] by (simp add: link_char_def is_alnum_def is_alpha_def)

lemma clean_cdn: "clean_rel ''cdn''"
  by code_simp

lemma pypi_loop_link:
  assumes "list_all host_char host" "list_all link_char p"
  shows "pypi_loop (cdn_url host) (encoded_cdn (cdn_url host)) [] [f\<lparr>Url := cdn_url host @ p\<rparr>] = Inr [f\<lparr>Url := file_link host p\<rparr>]"
proof -
  have l: "list_all link_char (file_link host p)" unfolding link_path using link_chars [OF assms(2)] by (simp add: link_char_def)
  have "url_String (url_zero\<lparr>Path := file_link host p\<rparr>) = file_link host p"
    using escape_link [OF l] by (simp add: url_String_def url_authority_def EscapedPath_def url_zero_def link_path Let_def)
  then show ?thesis
    using Parse_cdn [OF assms] by (simp add: Let_def file_link_def url_zero_def)
qed

lemma Parse_link:
  assumes "list_all link_char p"
  shows "Parse (file_link host p) = Inr (url_zero\<lparr>Path := file_link host p\<rparr>)"
  using Parse_path [OF link_chars [OF assms, of host]] by (simp add: link_path HasPrefix_def)

lemma find_link:
  assumes "list_all link_char p"
  shows "find_route [(Some ''GET'', [Lit ''simple'', Rest []], h1),
      (Some ''GET'', map Lit (path_segments (encoded_cdn (cdn_url host))) @ [Rest ''path''], h2), (None, [Rest []], h3)] ''GET'' (file_link host p) =
    Some (map Lit (path_segments (encoded_cdn (cdn_url host))) @ [Rest ''path''], h2, [(''path'', p)])"
proof -
  let ?xs = "path_segments (encoded_cdn (cdn_url host))"
  have x: "?xs = ''cdn'' # split_on CHR ''/'' (base64 (cdn_url host))"
    by (simp add: encoded_cdn_def path_segments_def)
  have seg: "path_segments (file_link host p) = ?xs @ split_on CHR ''/'' p"
    unfolding x link_path by (simp add: path_segments_def split_on_join)
  have "list_all (\<lambda>s. path_unescape s = s) ?xs"
    unfolding x using split_on_chars [OF b64_link] path_unescape_link [of "''cdn''"]
    by (auto simp: list_all_iff path_unescape_link link_char_def is_alnum_def is_alpha_def)
  then have m: "match_path (map Lit ?xs @ [Rest ''path'']) (path_segments (file_link host p)) = Some [(''path'', p)]"
    using match_literals [of ?xs "split_on CHR ''/'' p" "''path''"] Join_split_on [of "CHR ''/''" p] path_unescape_link [OF assms]
    by (simp add: seg)
  have "path_unescape ''cdn'' = ''cdn''" by code_simp
  then have "match_path [Lit ''simple'', Rest []] (path_segments (file_link host p)) = None" by (simp add: seg x)
  then show ?thesis using m by (simp add: method_matches_def)
qed

lemma slash_count: "length (filter (\<lambda>c. c = CHR ''/'') (encoded_cdn u)) = length (path_segments (encoded_cdn u))"
  by (simp add: encoded_cdn_def path_segments_def length_split_on)

lemma mux_link:
  assumes "list_all link_char p" "clean_rel p" "clean_rel (base64 (cdn_url host))"
    and "Method r = ''GET''" "ReqURL r = url_zero\<lparr>Path := file_link host p\<rparr>"
  shows "mux_Handler [(Some ''GET'', [Lit ''simple'', Rest []], h1),
      (Some ''GET'', map Lit (path_segments (encoded_cdn (cdn_url host))) @ [Rest ''path''], h2), (None, [Rest []], h3)] r =
    Handle h2 [(''path'', p)]"
proof -
  let ?l = "file_link host p" and ?ps = "map Lit (path_segments (encoded_cdn (cdn_url host))) @ [Rest ''path'']"
  let ?rs = "[(Some ''GET'', [Lit ''simple'', Rest []], h1), (Some ''GET'', ?ps, h2), (None, [Rest []], h3)]"
  have cl: "clean_rel (''cdn'' @ CHR ''/'' # base64 (cdn_url host) @ CHR ''/'' # p)"
    using clean_rel_join [OF clean_cdn clean_rel_join [OF assms(3,2)]] by simp
  have clean: "cleanPath ?l = ?l" using cleanPath_id [OF cl] by (simp add: link_path)
  have esc: "EscapedPath (ReqURL r) = ?l"
    using link_chars [OF assms(1), of host] escape_link [of ?l]
    by (simp add: assms(5) EscapedPath_def url_zero_def link_path link_char_def)
  have last: "last ?l \<noteq> CHR ''/''" using clean_rel_ends [OF cl] by (simp add: link_path)
  have lp: "list_all link_char (p @ ''/'')" using assms(1) by (simp add: link_char_def)
  have eq: "?l @ ''/'' = file_link host (p @ ''/'')" by (simp add: file_link_def)
  have sl: "find_route ?rs ''GET'' (?l @ ''/'') = Some (?ps, h2, [(''path'', p @ ''/'')])"
    unfolding eq by (rule find_link [OF lp])
  have "length ?ps \<noteq> length (filter (\<lambda>c. c = CHR ''/'') (?l @ ''/''))"
    using slash_count [of "cdn_url host"] by (simp add: file_link_def)
  then have "\<not> exactMatch ?ps (?l @ ''/'')" by (simp add: exactMatch_def is_rest_def)
  then show ?thesis
    using find_link [OF assms(1), of h1 host h2 h3] sl last
    unfolding mux_Handler_def Let_def assms(4) by (simp add: esc clean del: find_route.simps)
qed

lemma cdn_pattern_clean:
  assumes "clean_rel (base64 cdn)"
  shows "cleanPath (encoded_cdn cdn @ ''/{path...}'') = encoded_cdn cdn @ ''/{path...}''"
proof -
  have "clean_rel ''{path...}''" by code_simp
  then show ?thesis
    using cleanPath_id [OF clean_rel_join [OF clean_cdn clean_rel_join [OF assms]], of "''{path...}''"] by (simp add: encoded_cdn_def)
qed

lemma pypi_routes:
  assumes "upstream \<noteq> []" "clean_rel (base64 (cdn_url host))"
  shows "\<exists>h1. pypi_RegisterHandler js upstream (cdn_url host) caches = Ret
    [(Some ''GET'', [Lit ''simple'', Rest []], h1),
     (Some ''GET'', map Lit (path_segments (encoded_cdn (cdn_url host))) @ [Rest ''path''],
       \<lambda>r binds k. forward k r (cdn_url host @ PathValue binds ''path'') None None
          (direct (map (\<lambda>u. u\<lparr>Path := Path u @ encoded_cdn (cdn_url host)\<rparr>) caches)))]"
  using assms(1) cdn_pattern_clean [OF assms(2)]
  by (simp add: pypi_RegisterHandler_def strip_slash_def ensure_slash_def last_byte_def Let_def) (simp add: cdn_url_def)

section \<open>Properties\<close>

lemma proxy_refuses:
  assumes "ReqHost r \<notin> set allowed" "w_sent (c_writer k) = None"
    and "serve (with_catch_all (proxy_RegisterHandler allowed caches)) r k = Some (Ret (wr, jh, w))"
  shows "w = c_world k \<and> (\<exists>h. w_sent wr = Some (403, h) \<or> w_sent wr = Some (501, h))"
proof -
  obtain b where "Ret (wr, jh, w) = (if method_matches (Some ''GET'') (Method r) then proxy_handler allowed caches
      else not_implemented) r b k"
    using proxy_serve [OF assms(3)] by blast
  then show ?thesis
    using assms(1,2)
    by (auto simp: proxy_handler_def forbid_def not_implemented_def NotImplemented_def WriteHeader_def w_Write_def Let_def
        split: if_splits prod.splits option.splits go.splits)
qed

text \<open>
  C24: The proxy is no open proxy: a request for a host that is not on the list is answered 403 (or
  501 for a method other than GET and HEAD, or redirected to the clean form of its path); nothing
  is sent and nothing is stored.
\<close>

theorem proxy_only_allowed:
  assumes "ReqHost r \<notin> set allowed" "w_sent (c_writer k) = None"
    and "serve (with_catch_all (proxy_RegisterHandler allowed caches)) r k = Some (Ret (wr, jh, w))"
  shows "w = c_world k \<and> (\<exists>h. w_sent wr = Some (403, h) \<or> w_sent wr = Some (501, h))"
  using proxy_refuses [OF assms] .


text \<open>
  A JSON handler does not survive a document that is no JSON: once its decoder has failed, the
  handler that goes back to the pool answers every later document with the same error.
\<close>

lemma json_handler_poisoned:
  assumes "js_scan js body = JError e"
  shows "\<exists>jh. rewriteJsonV1 js cdn enc body NewJSONHandler = Ret (Some (JsonError e), jh) \<and>
    (\<forall>later. rewriteJsonV1 js cdn enc later (jh\<lparr>jh_buffer := []\<rparr>) = Ret (Some (JsonError e), jh\<lparr>jh_buffer := later\<rparr>))"
  using assms by (simp add: rewriteJsonV1_def decode_body_def Decode_def NewJSONHandler_def Let_def)


section \<open>Examples\<close>

definition json_call :: "mem call" where
  "json_call = \<lparr>c_env = \<lparr>hclient = page_client, conn = \<lambda>code d p. (length p, None), closer = None,
       gz = \<lparr>gz_open = \<lambda>_. (None, []), gz_read = \<lambda>p. (fst p, snd p, []), gz_encode = Inr\<rparr>\<rparr>,
     c_pooled = pooled0, c_json = NewJSONHandler, c_writer = new_writer, c_world = page_world 0\<rparr>"

theorem proxy_only_allowed_witness:
  "\<exists>wr jh. serve (with_catch_all (proxy_RegisterHandler [''deb.debian.org''] [])) page_req json_call = Some (Ret (wr, jh, page_world 0)) \<and>
     (\<exists>h. w_sent wr = Some (403, h) \<or> w_sent wr = Some (501, h))"
proof -
  have "case serve (with_catch_all (proxy_RegisterHandler [''deb.debian.org''] [])) page_req json_call of
      Some (Ret (wr, jh, w)) \<Rightarrow> True | _ \<Rightarrow> False"
    by code_simp
  then obtain wr jh w where s: "serve (with_catch_all (proxy_RegisterHandler [''deb.debian.org''] [])) page_req json_call = Some (Ret (wr, jh, w))"
    by (auto split: option.splits go.splits)
  have "ReqHost page_req \<notin> set [''deb.debian.org'']" "w_sent (c_writer json_call) = None"
    by (simp_all add: page_req_def json_call_def new_writer_def)
  from proxy_only_allowed [OF this s] s show ?thesis by (auto simp: json_call_def)
qed

text \<open>JSON that is always the same document, and JSON that is always broken.\<close>

definition const_json :: "'v \<Rightarrow> 'v json" where
  "const_json v = \<lparr>js_scan = \<lambda>s. JValue (length s) (length s) (Inr v), js_encode = \<lambda>_. Inr ''doc''\<rparr>"

definition broken_json :: "'v json" where
  "broken_json = \<lparr>js_scan = \<lambda>s. JError ''invalid character'', js_encode = \<lambda>_. Inr []\<rparr>"

definition left_pad :: Version where
  "left_pad = \<lparr>Dependencies = [], Deprecated = [], DevDependencies = [],
     v_Dist = \<lparr>Attestations = [], FileCount = 1, Integrity = [], NpmSignature = [], Shasum = [], Signatures = [],
       Tarball = ''https://registry.npmjs.org/left-pad/-/left-pad-1.0.0.tgz'', UnpackedSize = 1\<rparr>,
     Engines = [], PeerDependencies = [], v_Version = ''1.0.0'', v_Name = ''left-pad''\<rparr>"

definition left_pad_doc :: NpmProject where
  "left_pad_doc = \<lparr>DistTag = [], Modified = [], np_Name = ''left-pad'', np_Versions = [(''1.0.0'', Some left_pad)]\<rparr>"


lemma json_handler_poisoned_witness:
  "\<exists>jh. rewriteJsonV1 (broken_json :: PypiProject json) [] [] ''x'' NewJSONHandler = Ret (Some (JsonError ''invalid character''), jh) \<and>
     rewriteJsonV1 broken_json [] [] ''{}'' (jh\<lparr>jh_buffer := []\<rparr>) =
       Ret (Some (JsonError ''invalid character''), jh\<lparr>jh_buffer := ''{}''\<rparr>)"
proof -
  have "js_scan (broken_json :: PypiProject json) ''x'' = JError ''invalid character''" by (simp add: broken_json_def)
  from json_handler_poisoned [OF this, of "[]" "[]"] show ?thesis by blast
qed

definition some_project :: PypiProject where
  "some_project = \<lparr>Files = [], AlternateLocations = [], Meta = [], pp_Name = [], ProjectStatus = [], pp_Versions = []\<rparr>"

definition some_file :: File where
  "some_file = \<lparr>CoreMetadata = [], DataDistInfoMetadata = [], Filename = [], Hashes = [], Provenance = [], RequiresPython = [],
     Size = 0, UploadTime = [], Yanked = [], Url = []\<rparr>"


end
