(* ===== verification/Middleware.thy ===== *)
theory Middleware
  imports Services "HOL-Library.Word"
begin

text \<open>
  \<^verbatim>\<open>internal/middleware\<close>: the state of a request, the statistics that the access log keeps, and the
  registration of the metrics. The counters are unsigned 64-bit integers that wrap around; the
  JSON of the saved statistics and the prometheus registry are arguments.
\<close>

section \<open>The state of a request\<close>

type_synonym request_state = string

definition initializeState :: request_state where
  "initializeState = []"

text \<open>The value under the context's key is missing outside of \<open>StateHandler\<close>; using it panics.\<close>

definition SetCacheState :: "string \<Rightarrow> request_state option \<Rightarrow> request_state option go" where
  "SetCacheState v s = (case s of None \<Rightarrow> Panic ''interface conversion'' | Some _ \<Rightarrow> Ret (Some v))"

definition GetCacheState :: "request_state option \<Rightarrow> string go" where
  "GetCacheState s =
     (case s of None \<Rightarrow> Panic ''interface conversion'' | Some v \<Rightarrow> Ret (if v = [] then ''N/A'' else v))"

section \<open>Statistics\<close>

text \<open>
  The counters' JSON: the digits of the value. \<open>json.Unmarshal\<close> into a \<open>uint64\<close> takes null as
  nothing to do, and refuses what is no number, is negative or does not fit.
\<close>

definition Uint64_MarshalJSON :: "64 word \<Rightarrow> string" where
  "Uint64_MarshalJSON u = Itoa (uint u)"

definition Uint64_UnmarshalJSON :: "string \<Rightarrow> 64 word \<Rightarrow> num_error option \<times> 64 word" where
  "Uint64_UnmarshalJSON data u =
     (if data = ''null'' then (None, 0)
      else if data = [] then (Some ErrSyntax, u)
      else (case parse_uint 0 data of Inl e \<Rightarrow> (Some e, u) | Inr n \<Rightarrow> (None, word_of_int n)))"

lemma Uint64_JSON_roundtrip: "Uint64_UnmarshalJSON (Uint64_MarshalJSON u) old = (None, u)"
proof -
  have b: "uint u \<le> max_uint64" using uint_bounded [of u] by simp
  have p: "parse_uint 0 (Itoa (uint u)) = Inr (uint u)"
    using parse_uint_dec_digits [of "nat (uint u)"] b by (simp add: Itoa_def)
  moreover have "Itoa (uint u) \<noteq> ''null''"
  proof
    assume "Itoa (uint u) = ''null''"
    then show False using p by (simp add: is_digit_def)
  qed
  moreover have "Itoa (uint u) \<noteq> []" by (simp add: Itoa_def dec_digits.simps)
  ultimately show ?thesis by (simp add: Uint64_UnmarshalJSON_def Uint64_MarshalJSON_def)
qed

record Statistics =
  CacheHits :: "64 word"
  CacheMisses :: "64 word"
  UnCacheable :: "64 word"
  st_Revalidated :: "64 word"
  BytesServed :: "64 word"
  BytesDownloaded :: "64 word"

definition zero_statistics :: Statistics where
  "zero_statistics = \<lparr>CacheHits = 0, CacheMisses = 0, UnCacheable = 0, st_Revalidated = 0, BytesServed = 0, BytesDownloaded = 0\<rparr>"

definition LoadSavedStatistics :: "Statistics json \<Rightarrow> os_error + string \<Rightarrow> string + Statistics" where
  "LoadSavedStatistics js file =
     (case file of
        Inl e \<Rightarrow> if e = ErrNotExist then Inr zero_statistics else Inl ''open''
      | Inr bytes \<Rightarrow> (case js_scan js bytes of JError e \<Rightarrow> Inl e | JValue n m v \<Rightarrow> v))"

text \<open>Saving truncates the file first: it is empty when the encoding fails.\<close>

definition Statistics_Save :: "Statistics json \<Rightarrow> os_error option \<Rightarrow> Statistics \<Rightarrow> string option \<times> string option" where
  "Statistics_Save js create s =
     (case create of
        Some e \<Rightarrow> (Some ''create'', None)
      | None \<Rightarrow> (case js_encode js s of Inl e \<Rightarrow> (Some e, Some []) | Inr bytes \<Rightarrow> (None, Some bytes)))"

section \<open>The access log\<close>

datatype log_level = InfoLevel | WarnLevel | ErrorLevel

definition access_level :: "int \<Rightarrow> log_level" where
  "access_level status = (if status = 0 then ErrorLevel else if 500 \<le> status then WarnLevel else InfoLevel)"

definition access :: "request_state option \<Rightarrow> int \<Rightarrow> int \<Rightarrow> Statistics \<Rightarrow> (log_level \<times> Statistics) go" where
  "access st status sz s =
     (case GetCacheState st of
        Panic m \<Rightarrow> Panic m
      | Ret cacheState \<Rightarrow>
          if sz < 0 then Panic ''Unexpected negative size''
          else
            (let n = word_of_int sz;
                 counted =
                   (if cacheState = ''N/A'' then
                      Ret (s\<lparr>UnCacheable := UnCacheable s + 1, BytesDownloaded := BytesDownloaded s + n\<rparr>)
                    else if cacheState = ''hit'' then Ret (s\<lparr>CacheHits := CacheHits s + 1\<rparr>)
                    else if cacheState = ''miss'' then
                      Ret (s\<lparr>CacheMisses := CacheMisses s + 1, BytesDownloaded := BytesDownloaded s + n\<rparr>)
                    else if cacheState = ''revalidated'' then Ret (s\<lparr>st_Revalidated := st_Revalidated s + 1\<rparr>)
                    else Panic (''Unexpected cache state: '' @ cacheState))
             in case counted of
                  Panic m \<Rightarrow> Panic m
                | Ret s' \<Rightarrow> Ret (access_level status, s'\<lparr>BytesServed := BytesServed s' + n\<rparr>)))"

section \<open>Metrics\<close>

text \<open>
  The registry's state is the list of the metrics registered with the label of their handler.
  Registering one again panics, as \<open>promauto\<close> documents; without a registry nothing happens.
\<close>

type_synonym registry = "(string \<times> string) list"

definition metric_names :: "string list" where
  "metric_names = [''http_requests_total'', ''http_request_duration_seconds'', ''http_request_size_bytes'',
     ''http_response_size_bytes'', ''http_requests_in_flight'']"

fun register :: "string \<Rightarrow> string list \<Rightarrow> registry \<Rightarrow> registry go" where
  "register label [] reg = Ret reg"
| "register label (m # ms) reg =
     (if (m, label) \<in> set reg then Panic ''duplicate metrics collector registration attempted''
      else register label ms (reg @ [(m, label)]))"

definition newMetricsMiddleware :: "string \<Rightarrow> registry option \<Rightarrow> registry option go" where
  "newMetricsMiddleware handlerName reg =
     (case reg of
        None \<Rightarrow> Ret None
      | Some r \<Rightarrow> (case register handlerName metric_names r of Panic m \<Rightarrow> Panic m | Ret r' \<Rightarrow> Ret (Some r')))"

section \<open>The middlewares around a handler\<close>

text \<open>
  A handler gets the state of the request from the context, and returns what it sent together with
  the state and the statistics it leaves behind. Tracing only logs, and so do the handlers that
  \<open>newLoggingMiddleware\<close> puts around the access log.
\<close>

type_synonym 's outcome = "resp_writer \<times> json_handler \<times> 's world"

type_synonym 's http_handler =
  "request_state option \<Rightarrow> request \<Rightarrow> 's call \<Rightarrow> Statistics \<Rightarrow> ('s outcome \<times> request_state option \<times> Statistics) go option"

fun set_states :: "string list \<Rightarrow> request_state option \<Rightarrow> request_state option go" where
  "set_states [] st = Ret st"
| "set_states (v # vs) st = (case SetCacheState v st of Panic m \<Rightarrow> Panic m | Ret st' \<Rightarrow> set_states vs st')"

text \<open>The routes of a service: the client's notifications set the state.\<close>

definition mux_handler :: "'s handler route list \<Rightarrow> 's http_handler" where
  "mux_handler rs st r k stats =
     (case serve rs r k of
        None \<Rightarrow> None
      | Some (Panic m) \<Rightarrow> Some (Panic m)
      | Some (Ret (wr, jh, w)) \<Rightarrow>
          Some (case set_states (drop (length (statuses (c_world k))) (statuses w)) st of
                  Panic m \<Rightarrow> Panic m | Ret st' \<Rightarrow> Ret ((wr, jh, w), st', stats)))"

definition newLoggingMiddleware :: "'s http_handler \<Rightarrow> 's http_handler" where
  "newLoggingMiddleware handler st r k stats =
     (case handler st r k stats of
        None \<Rightarrow> None
      | Some (Panic m) \<Rightarrow> Some (Panic m)
      | Some (Ret ((wr, jh, w), st', stats1)) \<Rightarrow>
          Some (case access st' (case w_sent wr of None \<Rightarrow> 0 | Some (code, _) \<Rightarrow> code)
                       (int (length (w_data wr)) - int (length (w_data (c_writer k)))) stats1 of
                  Panic m \<Rightarrow> Panic m | Ret (level, stats2) \<Rightarrow> Ret ((wr, jh, w), st', stats2)))"

definition StateHandler :: "'s http_handler \<Rightarrow> 's http_handler" where
  "StateHandler handler st r k stats = handler (Some initializeState) r k stats"

text \<open>
  The handler that \<open>ApplyAllMiddlewares\<close> puts together; the metrics, which are registered there too,
  only observe it. A server calls it without a state.
\<close>

definition ApplyAllMiddlewares ::
    "'s http_handler \<Rightarrow> string \<Rightarrow> registry option \<Rightarrow> ('s http_handler \<times> registry option) go" where
  "ApplyAllMiddlewares handler serviceName reg =
     (case newMetricsMiddleware serviceName reg of
        Panic m \<Rightarrow> Panic m | Ret reg' \<Rightarrow> Ret (StateHandler (newLoggingMiddleware handler), reg'))"

section \<open>What the counters count\<close>

definition requests_counted :: "Statistics \<Rightarrow> 64 word" where
  "requests_counted s = CacheHits s + CacheMisses s + UnCacheable s + st_Revalidated s"

definition known_state :: "string \<Rightarrow> bool" where
  "known_state v \<longleftrightarrow> v \<in> {[], ''N/A'', ''hit'', ''miss'', ''revalidated''}"

lemma access_counts:
  assumes "access (Some v) status sz s = Ret (l, s')"
  shows "requests_counted s' = requests_counted s + 1 \<and> BytesServed s' = BytesServed s + word_of_int sz \<and>
    BytesDownloaded s' = BytesDownloaded s + (if v \<in> {''hit'', ''revalidated''} then 0 else word_of_int sz)"
  using assms
  by (auto simp: access_def GetCacheState_def requests_counted_def Let_def split: if_splits)

lemma access_ok: "known_state v \<Longrightarrow> 0 \<le> sz \<Longrightarrow> \<exists>l s'. access (Some v) status sz s = Ret (l, s')"
  by (auto simp: known_state_def access_def GetCacheState_def Let_def)

lemma set_states_last: "set_states vs (Some v) = Ret (Some (if vs = [] then v else last vs))"
  by (induction vs arbitrary: v) (auto simp: SetCacheState_def)

text \<open>A sequence of requests, each with its cache state, status and size.\<close>

fun accesses :: "(string \<times> int \<times> int) list \<Rightarrow> Statistics \<Rightarrow> Statistics go" where
  "accesses [] s = Ret s"
| "accesses ((v, status, sz) # as) s =
     (case access (Some v) status sz s of Panic m \<Rightarrow> Panic m | Ret (l, s') \<Rightarrow> accesses as s')"

lemma accesses_counts:
  "accesses as s = Ret s' \<Longrightarrow>
   requests_counted s' = requests_counted s + of_nat (length as) \<and>
   BytesServed s' = BytesServed s + word_of_int (sum_list (map (\<lambda>(v, _, n). n) as)) \<and>
   BytesDownloaded s' = BytesDownloaded s +
     word_of_int (sum_list (map (\<lambda>(v, _, n). if v \<in> {''hit'', ''revalidated''} then 0 else n) as))"
proof (induction as arbitrary: s)
  case (Cons a as)
  obtain v status n where a: "a = (v, status, n)" by (cases a)
  obtain l s1 where s1: "access (Some v) status n s = Ret (l, s1)" "accesses as s1 = Ret s'"
    using Cons.prems a by (auto split: go.splits)
  show ?case
    using Cons.IH [OF s1(2)] access_counts [OF s1(1)] a by (auto simp: of_int_add algebra_simps)
qed simp

section \<open>What is reported\<close>

text \<open>A request reports hits, misses and revalidations, and nothing else.\<close>

definition reports :: "'s world \<Rightarrow> 's world \<Rightarrow> bool" where
  "reports w w' \<longleftrightarrow> (\<exists>vs. statuses w' = statuses w @ vs \<and> set vs \<subseteq> {''hit'', ''miss'', ''revalidated''})"

lemma reports_refl [simp]: "reports w w"
  by (simp add: reports_def)

lemma reports_trans: "reports w w' \<Longrightarrow> reports w' w'' \<Longrightarrow> reports w w''"
  by (fastforce simp: reports_def)

lemma reports_same: "statuses w' = statuses w \<Longrightarrow> reports w w'"
  by (simp add: reports_def)

lemma reports_notify [simp]:
  "v \<in> {''hit'', ''miss'', ''revalidated''} \<Longrightarrow> reports w w' \<Longrightarrow> reports w (notify v w')"
  by (auto simp: reports_def notify_def)

lemma reports_drain [simp]: "reports w (drain res w') \<longleftrightarrow> reports w w'"
  by (simp add: reports_def drain_def split: sum.splits)

lemma reports_cache [simp]: "reports w (w'\<lparr>wcache := k\<rparr>) \<longleftrightarrow> reports w w'" "reports (w\<lparr>wcache := k\<rparr>) w' \<longleftrightarrow> reports w w'"
  by (simp_all add: reports_def)

lemma serve_reports:
  "serveFromCache c req e force w = Ret (ro, w') \<Longrightarrow> reports w w'"
  "serve_stale c req e w = Ret (ro, w') \<Longrightarrow> reports w w'"
  using serveFromCache_result serve_stale_result by (fastforce intro: reports_same simp: same_store_def)+

lemma forward_reports:
  "forwardRequest c req w = (res, req', w') \<Longrightarrow> reports w w'"
  "forwardRequestWithUpstream c req up w = (res, req', w') \<Longrightarrow> reports w w'"
  using forwardRequest_result forwardRequestWithUpstream_frame by (blast intro: reports_same)+

lemma updateCache_reports: "updateCache c key e fw w = Ret (ro, w') \<Longrightarrow> reports w w'"
  by (rule reports_same)
    (auto simp: updateCache_def serve_refreshed_def refreshResponseAndServe_def now_def Let_def
      split: go.splits option.splits prod.splits if_splits sum.splits)

lemma do_store_reports: "do_store c req key e fw w = Ret (res, w') \<Longrightarrow> reports w w'"
  by (auto simp: do_store_def setupIngestion_def split: prod.splits if_splits body_reader.splits)

lemma do_retry_reports:
  assumes "do_retry c req orig up key e w = Ret (res, w')" shows "reports w w'"
proof -
  obtain r q w1 where f: "forwardRequestWithUpstream c orig up w = (r, q, w1)"
    by (cases "forwardRequestWithUpstream c orig up w")
  have "reports w1 w'"
    using assms f
    by (auto simp: do_retry_def split: if_splits go.splits option.splits sum.splits prod.splits
        dest: do_store_reports serve_reports)
  with forward_reports(2) [OF f] show ?thesis by (rule reports_trans)
qed

lemma do_answered_reports:
  "do_answered c req orig up key e hc wc fw w = Ret (res, w') \<Longrightarrow> reports w w'"
  by (auto simp: do_answered_def split: if_splits go.splits option.splits prod.splits
      dest: do_store_reports updateCache_reports do_retry_reports intro: reports_trans)

lemma do_upstream_reports:
  assumes "do_upstream c req up key e w = Ret (res, w')" shows "reports w w'"
proof -
  obtain rq hc wc where a: "(if version e \<noteq> 0 then addConditionalRequestInformation req e else (req, False, False)) = (rq, hc, wc)"
    by (metis prod_cases3)
  obtain r q w1 where f: "forwardRequestWithUpstream c rq up w = (r, q, w1)"
    by (cases "forwardRequestWithUpstream c rq up w")
  have "reports w1 w'"
    using assms f unfolding do_upstream_def a
    by (auto split: if_splits go.splits option.splits sum.splits prod.splits
        dest: do_answered_reports serve_reports intro: reports_trans)
  with forward_reports(2) [OF f] show ?thesis by (rule reports_trans)
qed

lemma Do_reports:
  assumes "Do c pooled req up w = Ret (res, w')" shows "reports w w'"
proof (cases "Method req = ''GET'' \<or> Method req = ''HEAD''")
  case True
  then show ?thesis
    using assms
    by (auto simp: Do_GET split: prod.splits option.splits go.splits
        dest: serve_reports do_upstream_reports intro: reports_trans)
next
  case False
  then show ?thesis using assms by (auto simp: Do_def split: prod.splits dest: forward_reports)
qed

lemma close_ingested_statuses: "close_ingested c g x w = Ret (r, g', w') \<Longrightarrow> statuses w' = statuses w"
  by (auto simp: close_ingested_def onIngest_def now_def Let_def split: go.splits prod.splits option.splits)

lemma body_Close_statuses: "body_Close c b w = Ret (e, b', w') \<Longrightarrow> statuses w' = statuses w"
  by (auto simp: body_Close_def split: resp_body.splits body.splits go.splits prod.splits dest: close_ingested_statuses)

lemma finish_statuses: "finish E b out w = Ret (wr, jh, w') \<Longrightarrow> statuses w' = statuses w"
  by (auto simp: finish_def split: go.splits prod.splits option.splits dest: body_Close_statuses)

lemma send_response_statuses: "send_response E s h b jh wr w = Ret (wr', jh', w') \<Longrightarrow> statuses w' = statuses w"
  by (auto simp: send_response_def split: go.splits prod.splits option.splits dest: finish_statuses)

lemma modifyBody_statuses: "modifyBody E h b f jh w = Ret (e, h', b', jh', w') \<Longrightarrow> statuses w' = statuses w"
  by (auto simp: modifyBody_def read_response_def Let_def
      split: go.splits prod.splits option.splits sum.splits if_splits dest!: body_Close_statuses)

lemma answer_client_statuses: "answer_client E r m resp jh wr w = Ret (wr', jh', w') \<Longrightarrow> statuses w' = statuses w"
  by (auto simp: answer_client_def split: go.splits prod.splits option.splits bool.splits
      dest: finish_statuses send_response_statuses dest!: modifyBody_statuses)

lemma Forward_reports: "Forward E r url m rec up pooled jh wr w = Ret (wr', jh', w') \<Longrightarrow> reports w w'"
  by (auto simp: Forward_def split: sum.splits go.splits prod.splits option.splits
      dest!: Do_reports answer_client_statuses intro: reports_trans reports_same)

section \<open>Every request is counted\<close>

text \<open>
  The routes that the server registers, for any configuration of its services. The handlers that it
  only mounts, of static files, metrics and profiles, have no access to the cache.
\<close>

definition quiet :: "'s handler \<Rightarrow> bool" where
  "quiet h \<longleftrightarrow> (\<forall>r binds k wr jh w. h r binds k = Ret (wr, jh, w) \<longrightarrow> w = c_world k)"

inductive registered :: "'s handler route list \<Rightarrow> bool" where
  "registered (galaxy_RegisterHandler js srv ups)"
| "goproxy_RegisterHandler up sumdb ups = Ret rs \<Longrightarrow> registered rs"
| "npm_RegisterHandler js' up scheme ups = Ret rs \<Longrightarrow> registered rs"
| "registered (oci_RegisterHandler up ups)"
| "registered (proxy_RegisterHandler allowed ups)"
| "pypi_RegisterHandler js'' up cdn ups = Ret rs \<Longrightarrow> registered rs"
| "registered (rubygem_RegisterHandler up ups)"
| "quiet static \<Longrightarrow> (\<forall>(m, ps, h) \<in> set extra. quiet h) \<Longrightarrow> registered (extra @ admin_RegisterHandler static pages)"

definition reporting :: "'s handler route list \<Rightarrow> bool" where
  "reporting rs \<longleftrightarrow>
     (\<forall>m ps h. (m, ps, h) \<in> set rs \<longrightarrow>
        (\<forall>r binds k wr jh w. h r binds k = Ret (wr, jh, w) \<longrightarrow> reports (c_world k) w))"

lemma forward_call_reports: "forward k r url m rec up = Ret (wr, jh, w) \<Longrightarrow> reports (c_world k) w"
  by (simp add: forward_def Forward_reports)

lemma admin_reports:
  "respond k code s w = Ret (wr, jh, w') \<Longrightarrow> w' = w"
  "write_all k wr0 s msg w = Ret (wr, jh, w') \<Longrightarrow> w' = w"
  by (auto simp: respond_def write_all_def split: go.splits if_splits prod.splits option.splits)

lemma admin_handlers_report:
  "admin_healthcheck r binds k = Ret (wr, jh, w) \<Longrightarrow> reports (c_world k) w"
  "admin_hostname pages r binds k = Ret (wr, jh, w) \<Longrightarrow> reports (c_world k) w"
  "admin_delete r binds k = Ret (wr, jh, w) \<Longrightarrow> reports (c_world k) w"
  "admin_index pages r binds k = Ret (wr, jh, w) \<Longrightarrow> reports (c_world k) w"
  by (auto simp: admin_healthcheck_def admin_hostname_def admin_delete_def admin_index_def Let_def
      split: go.splits prod.splits option.splits sum.splits if_splits dest!: admin_reports)

lemma forbid_reports: "forbid r binds k = Ret (wr, jh, w) \<Longrightarrow> reports (c_world k) w"
  by (auto simp: forbid_def split: go.splits prod.splits option.splits)

lemma not_implemented_reports: "not_implemented r binds k = Ret (wr, jh, w) \<Longrightarrow> reports (c_world k) w"
  by (auto simp: not_implemented_def split: go.splits)

lemma quiet_reports: "quiet h \<Longrightarrow> h r binds k = Ret (wr, jh, w) \<Longrightarrow> reports (c_world k) w"
  unfolding quiet_def by fastforce

lemma registered_reporting: "registered rs \<Longrightarrow> reporting (with_catch_all rs)"
  unfolding reporting_def with_catch_all_def
  by (induction rs rule: registered.induct)
    (auto simp: galaxy_RegisterHandler_def goproxy_RegisterHandler_def npm_RegisterHandler_def oci_RegisterHandler_def
      proxy_RegisterHandler_def pypi_RegisterHandler_def rubygem_RegisterHandler_def admin_RegisterHandler_def
      Let_def forward_call_reports admin_handlers_report forbid_reports not_implemented_reports
      split: if_splits intro: quiet_reports)

lemma find_route_mem: "find_route rs meth path = Some (ps, h, binds) \<Longrightarrow> \<exists>m. (m, ps, h) \<in> set rs"
  by (induction rs) (auto split: if_splits option.splits)

lemma serve_reports_all:
  assumes "reporting rs" and "serve rs r k = Some (Ret (wr, jh, w))"
  shows "reports (c_world k) w"
proof -
  obtain ps h binds m where "(m, ps, h) \<in> set rs" "h r binds k = Ret (wr, jh, w)"
    using assms(2)
    by (auto simp: serve_def mux_Handler_def Let_def split: routed.splits if_splits option.splits prod.splits
        dest!: find_route_mem)
  then show ?thesis using assms(1) unfolding reporting_def by blast
qed

lemma last_known:
  "set vs \<subseteq> {''hit'', ''miss'', ''revalidated''} \<Longrightarrow> known_state (if vs = [] then initializeState else last vs)"
  proof (cases "vs = []")
  case False
  assume "set vs \<subseteq> {''hit'', ''miss'', ''revalidated''}"
  then have "last vs \<in> {''hit'', ''miss'', ''revalidated''}" using False last_in_set by blast
  with False show ?thesis by (auto simp: known_state_def)
qed (simp add: known_state_def initializeState_def)

lemma request_counted:
  fixes rs :: "'s handler route list" and k :: "'s call"
  assumes "registered rs" and "c_writer k = new_writer"
    and "serve (with_catch_all rs) r k = Some (Ret (wr, jh, w))"
  shows "\<exists>st stats'. StateHandler (newLoggingMiddleware (mux_handler (with_catch_all rs))) None r k stats
      = Some (Ret ((wr, jh, w), st, stats')) \<and>
    requests_counted stats' = requests_counted stats + 1 \<and>
    BytesServed stats' = BytesServed stats + of_nat (length (w_data wr))"
proof -
  obtain vs where vs: "statuses w = statuses (c_world k) @ vs" "set vs \<subseteq> {''hit'', ''miss'', ''revalidated''}"
    using serve_reports_all [OF registered_reporting [OF assms(1)] assms(3)] by (auto simp: reports_def)
  define v where "v = (if vs = [] then initializeState else last vs)"
  let ?code = "case w_sent wr of None \<Rightarrow> 0 | Some (code, _) \<Rightarrow> code"
  obtain l s' where a: "access (Some v) ?code (int (length (w_data wr))) stats = Ret (l, s')"
    using access_ok [OF last_known [OF vs(2)]] unfolding v_def by (metis of_nat_0_le_iff)
  have "set_states (drop (length (statuses (c_world k))) (statuses w)) (Some initializeState) = Ret (Some v)"
    by (simp add: vs(1) set_states_last v_def)
  then have "StateHandler (newLoggingMiddleware (mux_handler (with_catch_all rs))) None r k stats
      = Some (Ret ((wr, jh, w), Some v, s'))"
    by (simp add: StateHandler_def newLoggingMiddleware_def mux_handler_def assms(2,3) new_writer_def a)
  then show ?thesis using access_counts [OF a] by auto
qed

text \<open>
  The statistics of a run: when the access log has counted a sequence of requests, the four
  counters of requests together went up by the number of requests, the bytes served by the bytes of
  all the bodies, and the bytes downloaded by those of the requests that were neither hits nor
  revalidated, all modulo 2^64.\<close>

lemma statistics_of_a_run:
  assumes "accesses as s = Ret s'"
  shows "requests_counted s' = requests_counted s + of_nat (length as) \<and>
    BytesServed s' = BytesServed s + word_of_int (\<Sum>(v, _, n)\<leftarrow>as. n) \<and>
    BytesDownloaded s' = BytesDownloaded s + word_of_int (\<Sum>(v, _, n)\<leftarrow>[a \<leftarrow> as. fst a \<notin> {''hit'', ''revalidated''}]. n)"
proof -
  have "(\<Sum>(v, st, n)\<leftarrow>as. if v \<in> {''hit'', ''revalidated''} then 0 else n) =
      (\<Sum>(v, st, n)\<leftarrow>[a \<leftarrow> as. fst a \<notin> {''hit'', ''revalidated''}]. n)"
    by (induction as) auto
  then show ?thesis using accesses_counts [OF assms] by simp
qed

lemma statistics_of_a_run_witness:
  "\<exists>s'. accesses [(''miss'', 200, 5), (''hit'', 200, 5), ([], 501, 3)] zero_statistics = Ret s' \<and>
     requests_counted s' = 3 \<and> BytesServed s' = 13 \<and> BytesDownloaded s' = 8"
proof -
  obtain s' where s': "accesses [(''miss'', 200, 5), (''hit'', 200, 5), ([], 501, 3)] zero_statistics = Ret s'"
    by (auto simp: access_def GetCacheState_def Let_def)
  show ?thesis
    using statistics_of_a_run [OF s'] s' by (auto simp: requests_counted_def zero_statistics_def)
qed

end
