(* ===== verification/Config.thy ===== *)
theory Config
  imports Units Client "HOL-Library.Word"
begin

text \<open>
  \<^verbatim>\<open>internal/config\<close> and \<open>loadConfig\<close> of \<^verbatim>\<open>cmd/locaccel\<close>: the configuration, its defaults, its file and the
  environment's overrides. The YAML decoder, the levels of the logger, the files and the
  environment are arguments.
\<close>

section \<open>The configuration\<close>

type_synonym port = "16 word"

record AnsibleGalaxy =
  ag_Upstream :: string
  ag_Port :: port
  ag_UpstreamCaches :: "URL list"

record GoProxy =
  gp_Upstream :: string
  SumDBURL :: string
  gp_Port :: port
  gp_UpstreamCaches :: "URL list"

record NpmRegistry =
  npm_Upstream :: string
  npm_Scheme :: string
  npm_Port :: port
  npm_UpstreamCaches :: "URL list"

record OciRegistry =
  oci_Upstream :: string
  oci_Port :: port
  oci_UpstreamCaches :: "URL list"

record PyPIRegistry =
  pypi_Upstream :: string
  CDN :: string
  pypi_Port :: port
  pypi_UpstreamCaches :: "URL list"

record ProxyConf =
  AllowedUpstreams :: "string list"
  proxy_Port :: port
  proxy_UpstreamCaches :: "URL list"

record RubyGemRegistry =
  gem_Upstream :: string
  gem_Port :: port
  gem_UpstreamCaches :: "URL list"

record LogConf =
  Level :: int
  Format :: string

record CacheConf =
  cache_Path :: string
  Private :: bool
  QuotaLow :: DiskQuota
  QuotaHigh :: DiskQuota

record HTTPClientConf =
  Timeout :: duration
  HeadersTimeout :: duration

record Config =
  conf_Host :: string
  conf_Cache :: CacheConf
  conf_HTTPClient :: HTTPClientConf
  AdminInterface :: string
  EnableMetrics :: bool
  EnableProfiling :: bool
  conf_Log :: LogConf
  AnsibleGalaxies :: "AnsibleGalaxy list"
  GoProxies :: "GoProxy list"
  NpmRegistries :: "NpmRegistry list"
  OciRegistries :: "OciRegistry list"
  PyPIRegistries :: "PyPIRegistry list"
  Proxies :: "ProxyConf list"
  RubyGemRegistries :: "RubyGemRegistry list"

text \<open>\<open>getQuota\<close> makes the directory first; what that and \<open>statfs\<close> give are arguments.\<close>

definition getQuota :: "'e option \<Rightarrow> 'e + int \<times> int \<Rightarrow> DiskQuota \<Rightarrow> 'e + int" where
  "getQuota mkdir statfs quota = (case mkdir of Some e \<Rightarrow> Inl e | None \<Rightarrow> quota_Bytes statfs quota)"

definition GetQuotaLow :: "(string \<Rightarrow> 'e option) \<Rightarrow> (string \<Rightarrow> 'e + int \<times> int) \<Rightarrow> CacheConf \<Rightarrow> 'e + int" where
  "GetQuotaLow mkdir statfs c = getQuota (mkdir (cache_Path c)) (statfs (cache_Path c)) (QuotaLow c)"

definition GetQuotaHigh :: "(string \<Rightarrow> 'e option) \<Rightarrow> (string \<Rightarrow> 'e + int \<times> int) \<Rightarrow> CacheConf \<Rightarrow> 'e + int" where
  "GetQuotaHigh mkdir statfs c = getQuota (mkdir (cache_Path c)) (statfs (cache_Path c)) (QuotaHigh c)"

section \<open>URLs in the configuration\<close>

datatype yaml_node = ScalarNode string | OtherNode

datatype yaml_url_error = ErrMustBeScalar | ErrNotURL url_error

definition UnmarshalYAML :: "yaml_node \<Rightarrow> yaml_url_error + URL" where
  "UnmarshalYAML node =
     (case node of
        OtherNode \<Rightarrow> Inl ErrMustBeScalar
      | ScalarNode v \<Rightarrow> (case Parse v of Inl e \<Rightarrow> Inl (ErrNotURL e) | Inr u \<Rightarrow> Inr u))"

definition MarshalYAML :: "URL \<Rightarrow> string" where
  "MarshalYAML u = url_String u"

section \<open>Defaults\<close>

type_synonym env = "string \<Rightarrow> string option"

definition getBaseConfig :: "env \<Rightarrow> Config" where
  "getBaseConfig envLookup =
     \<lparr>conf_Host = ''localhost'',
      conf_Cache = \<lparr>cache_Path = (case envLookup ''LOCACCEL_DEFAULT_CACHE_PATH'' of None \<Rightarrow> ''_cache/'' | Some p \<Rightarrow> p),
        Private = False, QuotaLow = NewDiskQuotaInPercent 10, QuotaHigh = NewDiskQuotaInPercent 20\<rparr>,
      conf_HTTPClient = \<lparr>Timeout = 5 * 60 * 10 ^ 9, HeadersTimeout = 10 * 10 ^ 9\<rparr>,
      AdminInterface = ''localhost:3130'', EnableMetrics = True, EnableProfiling = False,
      conf_Log = \<lparr>Level = 1, Format = ''json''\<rparr>,
      AnsibleGalaxies = [], GoProxies = [], NpmRegistries = [], OciRegistries = [], PyPIRegistries = [],
      Proxies = [], RubyGemRegistries = []\<rparr>"

definition default_services :: "Config \<Rightarrow> Config" where
  "default_services c = c
     \<lparr>AnsibleGalaxies := [\<lparr>ag_Upstream = ''https://galaxy.ansible.com'', ag_Port = 3147, ag_UpstreamCaches = []\<rparr>],
      GoProxies := [\<lparr>gp_Upstream = ''https://proxy.golang.org'', SumDBURL = ''https://sum.golang.org/'', gp_Port = 3143,
        gp_UpstreamCaches = []\<rparr>],
      OciRegistries :=
        [\<lparr>oci_Upstream = ''https://registry-1.docker.io'', oci_Port = 3131, oci_UpstreamCaches = []\<rparr>,
         \<lparr>oci_Upstream = ''https://gcr.io'', oci_Port = 3132, oci_UpstreamCaches = []\<rparr>,
         \<lparr>oci_Upstream = ''https://quay.io'', oci_Port = 3133, oci_UpstreamCaches = []\<rparr>,
         \<lparr>oci_Upstream = ''https://ghcr.io'', oci_Port = 3134, oci_UpstreamCaches = []\<rparr>],
      NpmRegistries := [\<lparr>npm_Upstream = ''https://registry.npmjs.org/'', npm_Scheme = ''http'', npm_Port = 3144,
        npm_UpstreamCaches = []\<rparr>],
      PyPIRegistries := [\<lparr>pypi_Upstream = ''https://pypi.org/'', CDN = ''https://files.pythonhosted.org'', pypi_Port = 3145,
        pypi_UpstreamCaches = []\<rparr>],
      Proxies := [\<lparr>AllowedUpstreams = [''deb.debian.org'', ''archive.ubuntu.com'', ''security.ubuntu.com''],
        proxy_Port = 3142, proxy_UpstreamCaches = []\<rparr>],
      RubyGemRegistries := [\<lparr>gem_Upstream = ''https://rubygems.org'', gem_Port = 3146, gem_UpstreamCaches = []\<rparr>]\<rparr>"

section \<open>The file and the environment\<close>

datatype config_error = ErrOpenConfig os_error | ErrYaml string | ErrLogLevel string string

text \<open>
  The decoder fills the base configuration in and may fail half-way. It is given the address of the
  pointer to the configuration: the document \<open>null\<close> makes the pointer nil, None here, and an
  assignment through it panics.
\<close>

record config_env =
  read_file :: "string \<Rightarrow> os_error + string"
  yaml_decode :: "string \<Rightarrow> Config \<Rightarrow> Config option \<times> string option"
  parse_level :: "string \<Rightarrow> string + int"

definition assign :: "(Config \<Rightarrow> Config) \<Rightarrow> Config option \<Rightarrow> Config option go" where
  "assign f c = (case c of None \<Rightarrow> Panic ''nil pointer dereference'' | Some x \<Rightarrow> Ret (Some (f x)))"

definition set_from :: "env \<Rightarrow> string \<Rightarrow> (string \<Rightarrow> Config \<Rightarrow> Config) \<Rightarrow> Config option \<Rightarrow> Config option go" where
  "set_from envLookup var f c = (case envLookup var of None \<Rightarrow> Ret c | Some val \<Rightarrow> assign (f val) c)"

definition applyOverrides :: "config_env \<Rightarrow> env \<Rightarrow> Config option \<Rightarrow> (Config option \<times> config_error option) go" where
  "applyOverrides E envLookup conf =
     go_bind (if envLookup ''LOCACCEL_ENABLE_PROFILING'' = Some ''1''
              then assign (EnableProfiling_update (\<lambda>_. True)) conf else Ret conf) (\<lambda>c1.
     case (case envLookup ''LOCACCEL_LOG_LEVEL'' of None \<Rightarrow> Inr None | Some val \<Rightarrow>
             (case parse_level E val of Inl e \<Rightarrow> Inl (ErrLogLevel val e) | Inr l \<Rightarrow> Inr (Some l))) of
       Inl e \<Rightarrow> Ret (c1, Some e)
     | Inr level \<Rightarrow>
         go_bind (case level of None \<Rightarrow> Ret c1 | Some l \<Rightarrow> assign (conf_Log_update (Level_update (\<lambda>_. l))) c1) (\<lambda>c2.
         go_bind (set_from envLookup ''LOCACCEL_LOG_FORMAT'' (\<lambda>v. conf_Log_update (Format_update (\<lambda>_. v))) c2) (\<lambda>c3.
         go_bind (set_from envLookup ''LOCACCEL_CACHE_PATH'' (\<lambda>v. conf_Cache_update (cache_Path_update (\<lambda>_. v))) c3) (\<lambda>c4.
         go_bind (set_from envLookup ''LOCACCEL_HOST'' (\<lambda>v. conf_Host_update (\<lambda>_. v)) c4) (\<lambda>c5.
         go_bind (set_from envLookup ''LOCACCEL_ADMIN_INTERFACE'' (\<lambda>v. AdminInterface_update (\<lambda>_. v)) c5) (\<lambda>c6.
           Ret (c6, None)))))))"

definition config_Parse :: "config_env \<Rightarrow> string \<Rightarrow> env \<Rightarrow> (Config option \<times> config_error option) go" where
  "config_Parse E configPath envLookup =
     (let c = getBaseConfig envLookup in
      case read_file E configPath of
        Inl e \<Rightarrow> Ret (Some c, Some (ErrOpenConfig e))
      | Inr bytes \<Rightarrow>
          (case yaml_decode E bytes c of
             (c', Some e) \<Rightarrow> Ret (c', Some (ErrYaml e))
           | (c', None) \<Rightarrow> applyOverrides E envLookup c'))"

definition Default :: "config_env \<Rightarrow> env \<Rightarrow> (Config option \<times> config_error option) go" where
  "Default E envLookup = applyOverrides E envLookup (Some (default_services (getBaseConfig envLookup)))"

definition loadConfig :: "config_env \<Rightarrow> env \<Rightarrow> (Config option \<times> bool \<times> config_error option) go" where
  "loadConfig E lookupEnv =
     (let configPathSet = lookupEnv ''LOCACCEL_CONFIG_PATH'' \<noteq> None;
          configPath = (case lookupEnv ''LOCACCEL_CONFIG_PATH'' of
                          Some p \<Rightarrow> p
                        | None \<Rightarrow> (case lookupEnv ''LOCACCEL_DEFAULT_CONFIG_PATH'' of
                                    Some p \<Rightarrow> p | None \<Rightarrow> ''./locaccel.yaml''))
      in go_bind (config_Parse E configPath lookupEnv) (\<lambda>(conf, err).
           let configNotFound = (err = Some (ErrOpenConfig ErrNotExist))
           in go_bind (if configNotFound \<and> \<not> configPathSet then Default E lookupEnv else Ret (conf, err)) (\<lambda>(conf', err').
                Ret (conf', configNotFound, err'))))"

section \<open>What the configuration is\<close>

text \<open>The value of a variable, or what was configured without it.\<close>

definition env_or :: "env \<Rightarrow> string \<Rightarrow> string \<Rightarrow> string" where
  "env_or e var d = (case e var of None \<Rightarrow> d | Some v \<Rightarrow> v)"

definition env_level :: "config_env \<Rightarrow> env \<Rightarrow> int \<Rightarrow> int" where
  "env_level E e d =
     (case e ''LOCACCEL_LOG_LEVEL'' of None \<Rightarrow> d
      | Some v \<Rightarrow> (case parse_level E v of Inl _ \<Rightarrow> d | Inr l \<Rightarrow> l))"

definition overridden :: "config_env \<Rightarrow> env \<Rightarrow> Config \<Rightarrow> Config" where
  "overridden E e c = c
     \<lparr>EnableProfiling := EnableProfiling c \<or> e ''LOCACCEL_ENABLE_PROFILING'' = Some ''1'',
      conf_Log := \<lparr>Level = env_level E e (Level (conf_Log c)), Format = env_or e ''LOCACCEL_LOG_FORMAT'' (Format (conf_Log c))\<rparr>,
      conf_Cache := (conf_Cache c)\<lparr>cache_Path := env_or e ''LOCACCEL_CACHE_PATH'' (cache_Path (conf_Cache c))\<rparr>,
      conf_Host := env_or e ''LOCACCEL_HOST'' (conf_Host c),
      AdminInterface := env_or e ''LOCACCEL_ADMIN_INTERFACE'' (AdminInterface c)\<rparr>"

definition bad_level :: "config_env \<Rightarrow> env \<Rightarrow> bool" where
  "bad_level E e = (case e ''LOCACCEL_LOG_LEVEL'' of None \<Rightarrow> False
     | Some v \<Rightarrow> (case parse_level E v of Inl _ \<Rightarrow> True | Inr _ \<Rightarrow> False))"

lemma set_from_Some:
  "set_from e var (\<lambda>v. conf_Host_update (\<lambda>_. v)) (Some c) = Ret (Some (c\<lparr>conf_Host := env_or e var (conf_Host c)\<rparr>))"
  "set_from e var (\<lambda>v. AdminInterface_update (\<lambda>_. v)) (Some c) = Ret (Some (c\<lparr>AdminInterface := env_or e var (AdminInterface c)\<rparr>))"
  "set_from e var (\<lambda>v. conf_Log_update (Format_update (\<lambda>_. v))) (Some c) =
     Ret (Some (c\<lparr>conf_Log := (conf_Log c)\<lparr>Format := env_or e var (Format (conf_Log c))\<rparr>\<rparr>))"
  "set_from e var (\<lambda>v. conf_Cache_update (cache_Path_update (\<lambda>_. v))) (Some c) =
     Ret (Some (c\<lparr>conf_Cache := (conf_Cache c)\<lparr>cache_Path := env_or e var (cache_Path (conf_Cache c))\<rparr>\<rparr>))"
  by (cases "e var"; simp add: set_from_def assign_def env_or_def)+

lemma set_level:
  assumes "\<not> bad_level E e"
  shows "\<exists>l. (case e ''LOCACCEL_LOG_LEVEL'' of None \<Rightarrow> Inr None | Some val \<Rightarrow>
             (case parse_level E val of Inl e \<Rightarrow> Inl (ErrLogLevel val e) | Inr l \<Rightarrow> Inr (Some l))) = Inr l \<and>
    (case l of None \<Rightarrow> Ret (Some c) | Some l' \<Rightarrow> assign (conf_Log_update (Level_update (\<lambda>_. l'))) (Some c)) =
      Ret (Some (c\<lparr>conf_Log := (conf_Log c)\<lparr>Level := env_level E e (Level (conf_Log c))\<rparr>\<rparr>))"
  using assms by (auto simp: bad_level_def env_level_def assign_def split: option.splits sum.splits)

lemma set_profiling:
  "(if p then assign (EnableProfiling_update (\<lambda>_. True)) (Some c) else Ret (Some c)) =
     Ret (Some (c\<lparr>EnableProfiling := EnableProfiling c \<or> p\<rparr>))"
  by (simp add: assign_def)

lemma applyOverrides_level:
  "bad_level E e \<Longrightarrow> \<exists>c' v m. applyOverrides E e (Some c) = Ret (c', Some (ErrLogLevel v m))"
  by (auto simp: applyOverrides_def bad_level_def assign_def split: option.splits sum.splits)

lemma applyOverrides_overridden:
  assumes "\<not> bad_level E e" shows "applyOverrides E e (Some c) = Ret (Some (overridden E e c), None)"
proof -
  obtain l where l: "(case e ''LOCACCEL_LOG_LEVEL'' of None \<Rightarrow> Inr None | Some val \<Rightarrow>
        (case parse_level E val of Inl e \<Rightarrow> Inl (ErrLogLevel val e) | Inr l \<Rightarrow> Inr (Some l))) = Inr l"
    using set_level [OF assms] by blast
  have "(case l of None \<Rightarrow> Ret (Some c) | Some l' \<Rightarrow> assign (conf_Log_update (Level_update (\<lambda>_. l'))) (Some c)) =
      Ret (Some (c\<lparr>conf_Log := (conf_Log c)\<lparr>Level := env_level E e (Level (conf_Log c))\<rparr>\<rparr>))" for c
    using set_level [OF assms, of c] l by auto
  then show ?thesis
    unfolding applyOverrides_def l set_profiling
    by (simp add: set_from_Some overridden_def)
qed

lemma assign_None: "assign f None = Ret x \<longleftrightarrow> False" "set_from e var g None = Ret x \<longleftrightarrow> e var = None \<and> x = None"
  by (auto simp: assign_def set_from_def split: option.splits)

lemma applyOverrides_None: "applyOverrides E e None = Ret (c, err) \<Longrightarrow> c = None"
  unfolding applyOverrides_def
  by (cases "case e ''LOCACCEL_LOG_LEVEL'' of None \<Rightarrow> Inr None | Some val \<Rightarrow>
        (case parse_level E val of Inl e \<Rightarrow> Inl (ErrLogLevel val e) | Inr l \<Rightarrow> Inr (Some l))")
    (auto simp: assign_None split: if_splits option.splits)

lemma applyOverrides_returns:
  assumes "applyOverrides E e co = Ret (Some c, None)"
  shows "\<exists>b. co = Some b \<and> c = overridden E e b \<and> \<not> bad_level E e"
proof (cases co)
  case None
  then show ?thesis
    using assms applyOverrides_None by auto
next
  case (Some b)
  then show ?thesis
    using assms applyOverrides_overridden [of E e b] applyOverrides_level [of E e b] by (cases "bad_level E e") auto
qed

definition config_path :: "env \<Rightarrow> string" where
  "config_path e = env_or e ''LOCACCEL_CONFIG_PATH'' (env_or e ''LOCACCEL_DEFAULT_CONFIG_PATH'' ''./locaccel.yaml'')"

lemma loadConfig_cases:
  "loadConfig E e =
     go_bind (config_Parse E (config_path e) e) (\<lambda>(conf, err).
       if err = Some (ErrOpenConfig ErrNotExist) \<and> e ''LOCACCEL_CONFIG_PATH'' = None
       then go_bind (Default E e) (\<lambda>(c, err'). Ret (c, True, err'))
       else Ret (conf, err = Some (ErrOpenConfig ErrNotExist), err))"
  by (cases "config_Parse E (config_path e) e")
    (auto simp: loadConfig_def config_path_def env_or_def Let_def split: option.splits prod.splits)

lemma applyOverrides_error: "applyOverrides E e co = Ret (c, Some err) \<Longrightarrow> \<exists>v m. err = ErrLogLevel v m"
  by (auto simp: applyOverrides_def split: option.splits sum.splits)

lemma loadConfig_level:
  assumes "read_file E (config_path e) = Inr bytes" "yaml_decode E bytes (getBaseConfig e) = (Some b, None)" "bad_level E e"
  shows "\<exists>c v l. loadConfig E e = Ret (c, False, Some (ErrLogLevel v l))"
proof -
  obtain c v l where "applyOverrides E e (Some b) = Ret (c, Some (ErrLogLevel v l))"
    using applyOverrides_level [OF assms(3)] by blast
  then have "loadConfig E e = Ret (c, False, Some (ErrLogLevel v l))"
    using assms(1,2) by (simp add: loadConfig_cases config_Parse_def)
  then show ?thesis by blast
qed

text \<open>
  C32: The configuration that the program starts with is the one of its file, or the default when
  there is no file and none was asked for, in which every variable of the environment that is set
  replaces the value configured: the path of the cache, the host, the admin interface, the level
  and the format of the log, and profiling, which can only be turned on.\<close>

theorem environment_overrides:
  assumes "loadConfig E e = Ret (Some c, notFound, None)"
  shows "\<exists>b. c = overridden E e b \<and>
    (if notFound then read_file E (config_path e) = Inl ErrNotExist \<and> e ''LOCACCEL_CONFIG_PATH'' = None \<and>
         b = default_services (getBaseConfig e)
     else \<exists>bytes. read_file E (config_path e) = Inr bytes \<and> yaml_decode E bytes (getBaseConfig e) = (Some b, None))"
  using assms
  by (auto simp: loadConfig_cases config_Parse_def Default_def Let_def
      split: if_splits sum.splits prod.splits option.splits dest!: applyOverrides_returns applyOverrides_error)

text \<open>
  A configuration that cannot be used is never replaced silently. A file that was asked for and
  cannot be opened, a file that is no YAML of a configuration, and a level of the log that does not
  exist are errors, whatever else is configured.\<close>

lemma config_errors:
  "(read_file E (config_path e) = Inl err \<and> (err \<noteq> ErrNotExist \<or> e ''LOCACCEL_CONFIG_PATH'' \<noteq> None) \<longrightarrow>
      (\<exists>c. loadConfig E e = Ret (c, err = ErrNotExist, Some (ErrOpenConfig err)))) \<and>
   (read_file E (config_path e) = Inr bytes \<and> yaml_decode E bytes (getBaseConfig e) = (c', Some m) \<longrightarrow>
      loadConfig E e = Ret (c', False, Some (ErrYaml m))) \<and>
   (read_file E (config_path e) = Inr bytes \<and> yaml_decode E bytes (getBaseConfig e) = (Some b, None) \<and> bad_level E e \<longrightarrow>
      (\<exists>c v l. loadConfig E e = Ret (c, False, Some (ErrLogLevel v l))))"
  using loadConfig_level [of E e bytes b] by (auto simp: loadConfig_cases config_Parse_def Let_def)

section \<open>Examples\<close>

definition no_files :: config_env where
  "no_files = \<lparr>read_file = \<lambda>p. Inl ErrNotExist, yaml_decode = \<lambda>b c. (Some c, None), parse_level = \<lambda>v. Inr 0\<rparr>"

definition some_env :: env where
  "some_env = [''LOCACCEL_HOST'' \<mapsto> ''0.0.0.0'', ''LOCACCEL_LOG_LEVEL'' \<mapsto> ''debug'']"

theorem environment_overrides_witness:
  "\<exists>c. loadConfig no_files some_env = Ret (Some c, True, None) \<and> conf_Host c = ''0.0.0.0'' \<and> Level (conf_Log c) = 0 \<and>
     Format (conf_Log c) = ''json'' \<and> length (OciRegistries c) = 4"
proof -
  have "\<not> bad_level no_files some_env" by (simp add: bad_level_def no_files_def some_env_def)
  note d = applyOverrides_overridden [OF this, of "default_services (getBaseConfig some_env)"]
  have "loadConfig no_files some_env = Ret (Some (overridden no_files some_env (default_services (getBaseConfig some_env))), True, None)"
    using d by (simp add: loadConfig_cases config_Parse_def Default_def Let_def some_env_def) (simp add: no_files_def)
  from this environment_overrides [OF this] show ?thesis
    by (auto simp: overridden_def default_services_def getBaseConfig_def env_or_def env_level_def some_env_def no_files_def)
qed

definition asked_env :: env where
  "asked_env = [''LOCACCEL_CONFIG_PATH'' \<mapsto> ''/etc/locaccel.yaml'']"

lemma config_errors_witness:
  "\<exists>c. loadConfig no_files asked_env = Ret (c, True, Some (ErrOpenConfig ErrNotExist))"
proof -
  have "read_file no_files (config_path asked_env) = Inl ErrNotExist" "asked_env ''LOCACCEL_CONFIG_PATH'' \<noteq> None"
    by (simp_all add: no_files_def asked_env_def)
  then show ?thesis using config_errors [of no_files asked_env ErrNotExist] by simp
qed

text \<open>
  The default quotas are percentages, and so they are both the size of the whole file system: the
  cache is only cleaned up when the disk is full.
\<close>

lemma default_quotas:
  assumes "mkdir (cache_Path (conf_Cache (getBaseConfig e))) = None"
    and "statfs (cache_Path (conf_Cache (getBaseConfig e))) = Inr (blocks, bsize)"
    and "0 \<le> blocks" "0 \<le> bsize" "blocks * bsize \<le> max_int64" "blocks \<le> max_int64"
  shows "GetQuotaLow mkdir statfs (conf_Cache (getBaseConfig e)) = Inr (blocks * bsize) \<and>
    GetQuotaHigh mkdir statfs (conf_Cache (getBaseConfig e)) = Inr (blocks * bsize)"
  using assms(1,2) quota_percent_ignored [OF _ assms(3-6), of 10] quota_percent_ignored [OF _ assms(3-6), of 20]
  by (simp add: GetQuotaLow_def GetQuotaHigh_def getQuota_def) (simp add: getBaseConfig_def)

end
