(* ===== verification/Server.thy ===== *)
theory Server
  imports Middleware Config
begin

text \<open>
  \<^verbatim>\<open>internal/server\<close> and the rest of \<^verbatim>\<open>cmd/locaccel\<close>: the servers of the configured services, and their life
  from the start to the shutdown. What the program only mounts (metrics, profiles, static files)
  and the pages of the admin interface are arguments.
\<close>

section \<open>The servers\<close>

record 's serverInfo =
  srv_Addr :: string
  srv_Name :: string
  srv_Mux :: "'s handler route list"  \<comment> \<open>the routes, which \<open>srv_Handler\<close> wraps\<close>
  srv_Handler :: "'s http_handler"
  ReadTimeout :: duration
  WriteTimeout :: duration

record 's mounts =
  galaxy_docs :: "CollectionVersion json"
  npm_docs :: "NpmProject json"
  pypi_docs :: "PypiProject json"
  pprof_handler :: "string \<Rightarrow> 's handler"
  metrics_handler :: "'s handler"
  static_handler :: "'s handler"
  pages_of :: "Config \<Rightarrow> string + admin_pages"

definition createServer ::
    "string \<Rightarrow> 's handler route list \<Rightarrow> string \<Rightarrow> Config \<Rightarrow> registry option \<Rightarrow> ('s serverInfo \<times> registry option) go" where
  "createServer address routes serviceName conf reg =
     go_bind (ApplyAllMiddlewares (mux_handler (with_catch_all routes)) serviceName reg) (\<lambda>(handler, reg').
       Ret (\<lparr>srv_Addr = address, srv_Name = serviceName, srv_Mux = with_catch_all routes, srv_Handler = handler,
             ReadTimeout = 10 * 10 ^ 9, WriteTimeout = wrap64 (Timeout (conf_HTTPClient conf) + 10 * 10 ^ 9)\<rparr>, reg'))"

definition address_of :: "Config \<Rightarrow> port \<Rightarrow> string" where
  "address_of conf p = conf_Host conf @ '':'' @ Itoa (uint p)"

definition service_name :: "string \<Rightarrow> string \<Rightarrow> string" where
  "service_name kind upstream = kind @ ''['' @ upstream @ '']''"

definition setupGalaxy :: "'s mounts \<Rightarrow> Config \<Rightarrow> AnsibleGalaxy \<Rightarrow> registry option \<Rightarrow> ('s serverInfo \<times> registry option) go" where
  "setupGalaxy M conf g =
     createServer (address_of conf (ag_Port g)) (galaxy_RegisterHandler (galaxy_docs M) (ag_Upstream g) (ag_UpstreamCaches g))
       (service_name ''galaxy'' (ag_Upstream g)) conf"

definition setupGoProxy :: "'s mounts \<Rightarrow> Config \<Rightarrow> GoProxy \<Rightarrow> registry option \<Rightarrow> ('s serverInfo \<times> registry option) go" where
  "setupGoProxy M conf g reg =
     go_bind (goproxy_RegisterHandler (gp_Upstream g) (SumDBURL g) (gp_UpstreamCaches g)) (\<lambda>routes.
       createServer (address_of conf (gp_Port g)) routes (service_name ''go'' (gp_Upstream g)) conf reg)"

definition setupOciRegistry :: "'s mounts \<Rightarrow> Config \<Rightarrow> OciRegistry \<Rightarrow> registry option \<Rightarrow> ('s serverInfo \<times> registry option) go" where
  "setupOciRegistry M conf r =
     createServer (address_of conf (oci_Port r)) (oci_RegisterHandler (oci_Upstream r) (oci_UpstreamCaches r))
       (service_name ''oci'' (oci_Upstream r)) conf"

definition setupPypiRegistry :: "'s mounts \<Rightarrow> Config \<Rightarrow> PyPIRegistry \<Rightarrow> registry option \<Rightarrow> ('s serverInfo \<times> registry option) go" where
  "setupPypiRegistry M conf r reg =
     go_bind (pypi_RegisterHandler (pypi_docs M) (pypi_Upstream r) (CDN r) (pypi_UpstreamCaches r)) (\<lambda>routes.
       createServer (address_of conf (pypi_Port r)) routes (service_name ''pypi'' (pypi_Upstream r)) conf reg)"

definition setupNpmRegistry :: "'s mounts \<Rightarrow> Config \<Rightarrow> NpmRegistry \<Rightarrow> registry option \<Rightarrow> ('s serverInfo \<times> registry option) go" where
  "setupNpmRegistry M conf r reg =
     go_bind (npm_RegisterHandler (npm_docs M) (npm_Upstream r) (npm_Scheme r) (npm_UpstreamCaches r)) (\<lambda>routes.
       createServer (address_of conf (npm_Port r)) routes (service_name ''npm'' (npm_Upstream r)) conf reg)"

definition setupProxy :: "'s mounts \<Rightarrow> Config \<Rightarrow> ProxyConf \<Rightarrow> registry option \<Rightarrow> ('s serverInfo \<times> registry option) go" where
  "setupProxy M conf p =
     createServer (address_of conf (proxy_Port p)) (proxy_RegisterHandler (AllowedUpstreams p) (proxy_UpstreamCaches p)) ''proxy'' conf"

definition setupRubyGemRegistry :: "'s mounts \<Rightarrow> Config \<Rightarrow> RubyGemRegistry \<Rightarrow> registry option \<Rightarrow> ('s serverInfo \<times> registry option) go" where
  "setupRubyGemRegistry M conf r =
     createServer (address_of conf (gem_Port r)) (rubygem_RegisterHandler (gem_Upstream r) (gem_UpstreamCaches r))
       (service_name ''rubygem'' (gem_Upstream r)) conf"

text \<open>
  The routes of the admin interface. Handing the metrics out without a registry panics on the first
  request only, in the handler that is mounted.
\<close>

definition setupAdminInterface :: "'s mounts \<Rightarrow> Config \<Rightarrow> registry option \<Rightarrow> ('s serverInfo \<times> registry option) go" where
  "setupAdminInterface M conf reg =
     (case pages_of M conf of
        Inl e \<Rightarrow> Panic ''unable to initialize server properly''
      | Inr pages \<Rightarrow>
          createServer (AdminInterface conf)
            ((if EnableProfiling conf then RegisterProfilingHandlers (pprof_handler M) (Some ''GET'', [Lit ''-'', Lit ''pprof'']) else [])
             @ (if EnableMetrics conf then [(Some ''GET'', [Lit ''metrics''], metrics_handler M)] else [])
             @ admin_RegisterHandler (static_handler M) pages)
            ''admin'' conf reg)"

fun setup_all ::
    "('c \<Rightarrow> registry option \<Rightarrow> ('s serverInfo \<times> registry option) go) \<Rightarrow> 'c list
     \<Rightarrow> 's serverInfo list \<times> registry option \<Rightarrow> ('s serverInfo list \<times> registry option) go" where
  "setup_all f [] acc = Ret acc"
| "setup_all f (c # cs) (servers, reg) =
     go_bind (f c reg) (\<lambda>(server, reg'). setup_all f cs (servers @ [server], reg'))"

definition New :: "'s mounts \<Rightarrow> Config \<Rightarrow> registry option \<Rightarrow> ('s serverInfo list \<times> registry option) go" where
  "New M conf reg =
     go_bind (setup_all (setupGalaxy M conf) (AnsibleGalaxies conf) ([], reg)) (\<lambda>s1.
     go_bind (setup_all (setupGoProxy M conf) (GoProxies conf) s1) (\<lambda>s2.
     go_bind (setup_all (setupOciRegistry M conf) (OciRegistries conf) s2) (\<lambda>s3.
     go_bind (setup_all (setupPypiRegistry M conf) (PyPIRegistries conf) s3) (\<lambda>s4.
     go_bind (setup_all (setupNpmRegistry M conf) (NpmRegistries conf) s4) (\<lambda>s5.
     go_bind (setup_all (setupProxy M conf) (Proxies conf) s5) (\<lambda>s6.
     go_bind (setup_all (setupRubyGemRegistry M conf) (RubyGemRegistries conf) s6) (\<lambda>s7.
       if AdminInterface conf = [] then Ret s7
       else setup_all (\<lambda>_. setupAdminInterface M conf) [()] s7)))))))"

section \<open>Metrics\<close>

text \<open>Registering the metrics of one service after the other.\<close>

fun register_all :: "string list \<Rightarrow> registry option \<Rightarrow> registry option go" where
  "register_all [] reg = Ret reg"
| "register_all (n # ns) reg = go_bind (newMetricsMiddleware n reg) (register_all ns)"

lemma register_all_append: "register_all (ns @ ms) reg = go_bind (register_all ns reg) (register_all ms)"
proof (induction ns arbitrary: reg)
  case (Cons n ns)
  then show ?case by (cases "newMetricsMiddleware n reg") auto
qed simp

lemma register_all_None [simp]: "register_all ns None = Ret None"
  by (induction ns) (simp_all add: newMetricsMiddleware_def)

definition metrics_of :: "string list \<Rightarrow> registry" where
  "metrics_of ns = concat (map (\<lambda>n. map (\<lambda>m. (m, n)) metric_names) ns)"

lemma register_fresh:
  "distinct ms \<Longrightarrow> \<forall>m \<in> set ms. (m, l) \<notin> set reg \<Longrightarrow> register l ms reg = Ret (reg @ map (\<lambda>m. (m, l)) ms)"
proof (induction ms arbitrary: reg)
  case (Cons a ms)
  then have "\<forall>m \<in> set ms. (m, l) \<notin> set (reg @ [(a, l)])" by auto
  with Cons show ?case by auto
qed simp

lemma metrics_registered [simp]:
  "newMetricsMiddleware n (Some (metrics_of ns)) =
     (if n \<in> set ns then Panic ''duplicate metrics collector registration attempted'' else Ret (Some (metrics_of (ns @ [n]))))"
proof (cases "n \<in> set ns")
  case True
  then have "(''http_requests_total'', n) \<in> set (metrics_of ns)"
    by (auto simp: metrics_of_def metric_names_def)
  with True show ?thesis by (simp add: newMetricsMiddleware_def metric_names_def)
next
  case False
  then have "\<forall>m \<in> set metric_names. (m, n) \<notin> set (metrics_of ns)" by (auto simp: metrics_of_def)
  moreover have "distinct metric_names" by (simp add: metric_names_def)
  ultimately show ?thesis
    using False by (simp add: newMetricsMiddleware_def register_fresh) (simp add: metrics_of_def)
qed

lemma register_all_distinct:
  "register_all ns (Some (metrics_of ms)) = Ret reg \<longleftrightarrow> distinct ns \<and> set ns \<inter> set ms = {} \<and> reg = Some (metrics_of (ms @ ns))"
proof (induction ns arbitrary: ms)
  case (Cons n ns)
  show ?case by (cases "n \<in> set ms") (auto simp: Cons.IH)
qed auto

section \<open>Setting a service up\<close>

text \<open>
  What the functions that set a service up have in common: for a service whose configuration can be
  used they create its server and register its metrics, for the others they panic.
\<close>

locale service_setup =
  fixes set_up :: "'c \<Rightarrow> registry option \<Rightarrow> ('s serverInfo \<times> registry option) go"
    and ok :: "'c \<Rightarrow> bool"
    and server :: "'c \<Rightarrow> 's serverInfo"
  assumes setup_ok: "ok c \<Longrightarrow> set_up c reg = go_bind (newMetricsMiddleware (srv_Name (server c)) reg) (\<lambda>reg'. Ret (server c, reg'))"
    and setup_bad: "\<not> ok c \<Longrightarrow> \<exists>m. set_up c reg = Panic m"
begin

lemma setup_all_iff:
  "setup_all set_up cs (ss, reg) = Ret (ss', reg') \<longleftrightarrow>
     list_all ok cs \<and> ss' = ss @ map server cs \<and> register_all (map (srv_Name \<circ> server) cs) reg = Ret reg'"
proof (induction cs arbitrary: ss reg)
  case (Cons c cs)
  show ?case
  proof (cases "ok c")
    case True
    then show ?thesis by (auto simp: setup_ok Cons.IH)
  next
    case False
    then show ?thesis using setup_bad [of c reg] by auto
  qed
qed auto

end

definition new_server :: "string \<Rightarrow> 's handler route list \<Rightarrow> string \<Rightarrow> Config \<Rightarrow> 's serverInfo" where
  "new_server address routes serviceName conf =
     \<lparr>srv_Addr = address, srv_Name = serviceName, srv_Mux = with_catch_all routes,
      srv_Handler = StateHandler (newLoggingMiddleware (mux_handler (with_catch_all routes))),
      ReadTimeout = 10 * 10 ^ 9, WriteTimeout = wrap64 (Timeout (conf_HTTPClient conf) + 10 * 10 ^ 9)\<rparr>"

lemma new_server_Name [simp]: "srv_Name (new_server a rs n conf) = n" "srv_Addr (new_server a rs n conf) = a"
  "srv_Mux (new_server a rs n conf) = with_catch_all rs"
  by (simp_all add: new_server_def)

lemma createServer_new:
  "createServer a rs n conf reg = go_bind (newMetricsMiddleware n reg) (\<lambda>reg'. Ret (new_server a rs n conf, reg'))"
  by (cases "newMetricsMiddleware n reg") (simp_all add: createServer_def ApplyAllMiddlewares_def new_server_def)

text \<open>The routes of a service, none when its registration panics.\<close>

definition routes_of :: "'a list go \<Rightarrow> 'a list" where
  "routes_of g = (case g of Ret rs \<Rightarrow> rs | Panic m \<Rightarrow> [])"

definition returns :: "'a go \<Rightarrow> bool" where
  "returns g = (case g of Ret _ \<Rightarrow> True | Panic _ \<Rightarrow> False)"

lemma bind_routes: "returns g \<Longrightarrow> go_bind g f = f (routes_of g)" "\<not> returns g \<Longrightarrow> \<exists>m. go_bind g f = Panic m"
  by (cases g; simp add: returns_def routes_of_def)+

interpretation galaxy: service_setup "setupGalaxy M conf" "\<lambda>_. True"
    "\<lambda>g. new_server (address_of conf (ag_Port g)) (galaxy_RegisterHandler (galaxy_docs M) (ag_Upstream g) (ag_UpstreamCaches g))
       (service_name ''galaxy'' (ag_Upstream g)) conf"
  for M conf
  by unfold_locales (simp_all add: setupGalaxy_def createServer_new)

interpretation go: service_setup "setupGoProxy M conf"
    "\<lambda>g. returns (goproxy_RegisterHandler (gp_Upstream g) (SumDBURL g) (gp_UpstreamCaches g) :: 's handler route list go)"
    "\<lambda>g. new_server (address_of conf (gp_Port g))
       (routes_of (goproxy_RegisterHandler (gp_Upstream g) (SumDBURL g) (gp_UpstreamCaches g)))
       (service_name ''go'' (gp_Upstream g)) conf"
  for M :: "'s mounts" and conf
  by unfold_locales (simp_all add: setupGoProxy_def createServer_new bind_routes)


interpretation oci: service_setup "setupOciRegistry M conf" "\<lambda>_. True"
    "\<lambda>r. new_server (address_of conf (oci_Port r)) (oci_RegisterHandler (oci_Upstream r) (oci_UpstreamCaches r))
       (service_name ''oci'' (oci_Upstream r)) conf"
  for M conf
  by unfold_locales (simp_all add: setupOciRegistry_def createServer_new)

interpretation pypi: service_setup "setupPypiRegistry M conf"
    "\<lambda>r. returns (pypi_RegisterHandler (pypi_docs M) (pypi_Upstream r) (CDN r) (pypi_UpstreamCaches r) :: 's handler route list go)"
    "\<lambda>r. new_server (address_of conf (pypi_Port r))
       (routes_of (pypi_RegisterHandler (pypi_docs M) (pypi_Upstream r) (CDN r) (pypi_UpstreamCaches r)))
       (service_name ''pypi'' (pypi_Upstream r)) conf"
  for M :: "'s mounts" and conf
  by unfold_locales (simp_all add: setupPypiRegistry_def createServer_new bind_routes)

interpretation npm: service_setup "setupNpmRegistry M conf"
    "\<lambda>r. returns (npm_RegisterHandler (npm_docs M) (npm_Upstream r) (npm_Scheme r) (npm_UpstreamCaches r) :: 's handler route list go)"
    "\<lambda>r. new_server (address_of conf (npm_Port r))
       (routes_of (npm_RegisterHandler (npm_docs M) (npm_Upstream r) (npm_Scheme r) (npm_UpstreamCaches r)))
       (service_name ''npm'' (npm_Upstream r)) conf"
  for M :: "'s mounts" and conf
  by unfold_locales (simp_all add: setupNpmRegistry_def createServer_new bind_routes)

interpretation proxy: service_setup "setupProxy M conf" "\<lambda>_. True"
    "\<lambda>p. new_server (address_of conf (proxy_Port p)) (proxy_RegisterHandler (AllowedUpstreams p) (proxy_UpstreamCaches p)) ''proxy'' conf"
  for M conf
  by unfold_locales (simp_all add: setupProxy_def createServer_new)

interpretation gem: service_setup "setupRubyGemRegistry M conf" "\<lambda>_. True"
    "\<lambda>r. new_server (address_of conf (gem_Port r)) (rubygem_RegisterHandler (gem_Upstream r) (gem_UpstreamCaches r))
       (service_name ''rubygem'' (gem_Upstream r)) conf"
  for M conf
  by unfold_locales (simp_all add: setupRubyGemRegistry_def createServer_new)

definition has_pages :: "'s mounts \<Rightarrow> Config \<Rightarrow> bool" where
  "has_pages M conf = (case pages_of M conf of Inl _ \<Rightarrow> False | Inr _ \<Rightarrow> True)"

definition admin_routes :: "'s mounts \<Rightarrow> Config \<Rightarrow> 's handler route list" where
  "admin_routes M conf =
     (case pages_of M conf of Inl e \<Rightarrow> [] | Inr pages \<Rightarrow>
        (if EnableProfiling conf then RegisterProfilingHandlers (pprof_handler M) (Some ''GET'', [Lit ''-'', Lit ''pprof'']) else [])
        @ (if EnableMetrics conf then [(Some ''GET'', [Lit ''metrics''], metrics_handler M)] else [])
        @ admin_RegisterHandler (static_handler M) pages)"

interpretation admin: service_setup "\<lambda>_::unit. setupAdminInterface M conf" "\<lambda>_. has_pages M conf"
    "\<lambda>_. new_server (AdminInterface conf) (admin_routes M conf) ''admin'' conf"
  for M conf
  by unfold_locales (auto simp: setupAdminInterface_def createServer_new has_pages_def admin_routes_def split: sum.splits)

section \<open>The servers of a configuration\<close>

text \<open>The servers, in the order in which they are started, and whether each can be set up.\<close>

definition servers_of :: "'s mounts \<Rightarrow> Config \<Rightarrow> 's serverInfo list" where
  "servers_of M conf =
     map (\<lambda>g. new_server (address_of conf (ag_Port g)) (galaxy_RegisterHandler (galaxy_docs M) (ag_Upstream g) (ag_UpstreamCaches g))
       (service_name ''galaxy'' (ag_Upstream g)) conf) (AnsibleGalaxies conf) @
     map (\<lambda>g. new_server (address_of conf (gp_Port g))
       (routes_of (goproxy_RegisterHandler (gp_Upstream g) (SumDBURL g) (gp_UpstreamCaches g)))
       (service_name ''go'' (gp_Upstream g)) conf) (GoProxies conf) @
     map (\<lambda>r. new_server (address_of conf (oci_Port r)) (oci_RegisterHandler (oci_Upstream r) (oci_UpstreamCaches r))
       (service_name ''oci'' (oci_Upstream r)) conf) (OciRegistries conf) @
     map (\<lambda>r. new_server (address_of conf (pypi_Port r))
       (routes_of (pypi_RegisterHandler (pypi_docs M) (pypi_Upstream r) (CDN r) (pypi_UpstreamCaches r)))
       (service_name ''pypi'' (pypi_Upstream r)) conf) (PyPIRegistries conf) @
     map (\<lambda>r. new_server (address_of conf (npm_Port r))
       (routes_of (npm_RegisterHandler (npm_docs M) (npm_Upstream r) (npm_Scheme r) (npm_UpstreamCaches r)))
       (service_name ''npm'' (npm_Upstream r)) conf) (NpmRegistries conf) @
     map (\<lambda>p. new_server (address_of conf (proxy_Port p)) (proxy_RegisterHandler (AllowedUpstreams p) (proxy_UpstreamCaches p))
       ''proxy'' conf) (Proxies conf) @
     map (\<lambda>r. new_server (address_of conf (gem_Port r)) (rubygem_RegisterHandler (gem_Upstream r) (gem_UpstreamCaches r))
       (service_name ''rubygem'' (gem_Upstream r)) conf) (RubyGemRegistries conf) @
     (if AdminInterface conf = [] then [] else [new_server (AdminInterface conf) (admin_routes M conf) ''admin'' conf])"

definition startable :: "'s mounts \<Rightarrow> Config \<Rightarrow> bool" where
  "startable M conf \<longleftrightarrow>
     list_all (\<lambda>g. returns (goproxy_RegisterHandler (gp_Upstream g) (SumDBURL g) (gp_UpstreamCaches g) :: 's handler route list go)) (GoProxies conf) \<and>
     list_all (\<lambda>r. returns (pypi_RegisterHandler (pypi_docs M) (pypi_Upstream r) (CDN r) (pypi_UpstreamCaches r) :: 's handler route list go)) (PyPIRegistries conf) \<and>
     list_all (\<lambda>r. returns (npm_RegisterHandler (npm_docs M) (npm_Upstream r) (npm_Scheme r) (npm_UpstreamCaches r) :: 's handler route list go)) (NpmRegistries conf) \<and>
     (AdminInterface conf = [] \<or> has_pages M conf)"

lemmas setup_all_iffs = galaxy.setup_all_iff go.setup_all_iff oci.setup_all_iff pypi.setup_all_iff npm.setup_all_iff
  proxy.setup_all_iff gem.setup_all_iff admin.setup_all_iff

lemma New_iff:
  "New M conf reg = Ret (servers, reg') \<longleftrightarrow>
     startable M conf \<and> servers = servers_of M conf \<and> register_all (map srv_Name (servers_of M conf)) reg = Ret reg'"
proof (cases "AdminInterface conf = []")
  case True
  then show ?thesis
    by (simp add: New_def setup_all_iffs servers_of_def startable_def register_all_append comp_def list.pred_True del: setup_all.simps) blast
next
  case False
  then show ?thesis
    by (simp add: New_def setup_all_iffs servers_of_def startable_def register_all_append comp_def list.pred_True
        del: setup_all.simps register_all.simps) blast
qed

definition quiet_mounts :: "'s mounts \<Rightarrow> bool" where
  "quiet_mounts M \<longleftrightarrow> quiet (metrics_handler M) \<and> quiet (static_handler M) \<and> (\<forall>n. quiet (pprof_handler M n))"

lemma returns_routes: "returns g \<Longrightarrow> g = Ret (routes_of g)"
  by (cases g) (simp_all add: returns_def routes_of_def)

lemma admin_registered:
  assumes "quiet_mounts M" "has_pages M conf"
  shows "registered (admin_routes M conf)"
proof -
  obtain pages where p: "pages_of M conf = Inr pages" using assms(2) by (auto simp: has_pages_def split: sum.splits)
  have "quiet (static_handler M)" using assms(1) by (simp add: quiet_mounts_def)
  moreover have "\<forall>(m, ps, h) \<in> set ((if EnableProfiling conf then RegisterProfilingHandlers (pprof_handler M) (Some ''GET'', [Lit ''-'', Lit ''pprof'']) else [])
        @ (if EnableMetrics conf then [(Some ''GET'', [Lit ''metrics''], metrics_handler M)] else [])). quiet h"
    using assms(1) by (auto simp: quiet_mounts_def RegisterProfilingHandlers_def)
  ultimately show ?thesis
    unfolding admin_routes_def p sum.case append_assoc [symmetric] by (rule registered.intros)
qed

lemma registeredI: "registered rs \<Longrightarrow> \<exists>rs'. with_catch_all rs = with_catch_all rs' \<and> registered rs'"
  by blast

lemma services_registered:
  assumes "startable (M :: 's mounts) conf"
  shows "list_all (\<lambda>g. registered (routes_of (goproxy_RegisterHandler (gp_Upstream g) (SumDBURL g) (gp_UpstreamCaches g)) :: 's handler route list)) (GoProxies conf)"
    and "list_all (\<lambda>r. registered (routes_of (pypi_RegisterHandler (pypi_docs M) (pypi_Upstream r) (CDN r) (pypi_UpstreamCaches r)) :: 's handler route list)) (PyPIRegistries conf)"
    and "list_all (\<lambda>r. registered (routes_of (npm_RegisterHandler (npm_docs M) (npm_Upstream r) (npm_Scheme r) (npm_UpstreamCaches r)) :: 's handler route list)) (NpmRegistries conf)"
    and "list_all (\<lambda>g. registered (galaxy_RegisterHandler (galaxy_docs M) (ag_Upstream g) (ag_UpstreamCaches g) :: 's handler route list)) (AnsibleGalaxies conf)"
    and "list_all (\<lambda>r. registered (oci_RegisterHandler (oci_Upstream r) (oci_UpstreamCaches r) :: 's handler route list)) (OciRegistries conf)"
    and "list_all (\<lambda>p. registered (proxy_RegisterHandler (AllowedUpstreams p) (proxy_UpstreamCaches p) :: 's handler route list)) (Proxies conf)"
    and "list_all (\<lambda>r. registered (rubygem_RegisterHandler (gem_Upstream r) (gem_UpstreamCaches r) :: 's handler route list)) (RubyGemRegistries conf)"
  using assms unfolding startable_def list_all_iff
  by (blast intro: registered.intros dest: returns_routes)+

lemma servers_registered:
  assumes "quiet_mounts M" "startable M conf" "s \<in> set (servers_of M conf)"
  shows "\<exists>rs. srv_Mux s = with_catch_all rs \<and> registered rs"
proof -
  have "registered (admin_routes M conf)" if "AdminInterface conf \<noteq> []"
    using that admin_registered [OF assms(1)] assms(2) by (simp add: startable_def)
  then show ?thesis
    using assms(3) services_registered [OF assms(2), unfolded list_all_iff]
    unfolding servers_of_def by (auto intro!: registeredI split: if_splits)
qed

lemma servers_handlers: "s \<in> set (servers_of M conf) \<Longrightarrow> srv_Handler s = StateHandler (newLoggingMiddleware (mux_handler (srv_Mux s)))"
  by (auto simp: servers_of_def new_server_def split: if_splits)

text \<open>
  C27: Every server that the program starts keeps the statistics right, whatever it is configured
  to be: a request that one of its handlers answers is counted once, as a hit, a miss, revalidated
  or not cacheable, and its bytes are added to those served. The access log never meets a state
  that it does not know.\<close>

theorem requests_are_counted:
  fixes M :: "'s mounts" and k :: "'s call"
  assumes "quiet_mounts M" and "New M conf reg = Ret (servers, reg')" and "s \<in> set servers"
    and "c_writer k = new_writer" and "serve (srv_Mux s) r k = Some (Ret (wr, jh, w))"
  shows "\<exists>st stats'. srv_Handler s None r k stats = Some (Ret ((wr, jh, w), st, stats')) \<and>
    requests_counted stats' = requests_counted stats + 1 \<and>
    BytesServed stats' = BytesServed stats + of_nat (length (w_data wr))"
proof -
  have "startable M conf" "s \<in> set (servers_of M conf)" using assms(2,3) by (auto simp: New_iff)
  then obtain rs where rs: "srv_Mux s = with_catch_all rs" "registered rs"
    and h: "srv_Handler s = StateHandler (newLoggingMiddleware (mux_handler (srv_Mux s)))"
    using servers_registered [OF assms(1)] servers_handlers by blast
  show ?thesis using request_counted [OF rs(2) assms(4)] assms(5) unfolding h rs(1) by blast
qed

text \<open>
  C28: \<open>New\<close> starts exactly the services of the configuration, in the order of the code, each at its
  address with its routes. It panics, and starts none, exactly when one of them cannot be set up,
  or when metrics are enabled and two services have the same name.\<close>

theorem servers_started:
  "New M conf (if EnableMetrics conf then Some [] else None) = Ret (servers, reg) \<longleftrightarrow>
     startable M conf \<and> servers = servers_of M conf \<and>
     (if EnableMetrics conf
      then distinct (map srv_Name (servers_of M conf)) \<and> reg = Some (metrics_of (map srv_Name (servers_of M conf)))
      else reg = None)"
  using register_all_distinct [of "map srv_Name (servers_of M conf)" "[]" reg]
  by (auto simp: New_iff metrics_of_def)

text \<open>
  Two proxies cannot run beside each other with metrics enabled, which is the default: they have
  the same name, and the program panics on startup.\<close>

lemma two_proxies_panic:
  assumes "2 \<le> length (Proxies conf)"
  shows "\<exists>m. New M conf (Some []) = Panic m"
proof (cases "New M conf (Some [])")
  case (Ret x)
  obtain servers reg where "New M conf (Some []) = Ret (servers, reg)" using Ret by (cases x) simp
  then have "distinct (map srv_Name (servers_of M conf))"
    using register_all_distinct [of "map srv_Name (servers_of M conf)" "[]"] by (auto simp: New_iff metrics_of_def)
  then have "distinct (map (\<lambda>_. ''proxy'') (Proxies conf))"
    by (auto simp: servers_of_def comp_def)
  then show ?thesis using assms by (cases "Proxies conf" rule: remdups_adj.cases) auto
qed simp

section \<open>Examples\<close>

definition some_version :: CollectionVersion where
  "some_version = \<lparr>Artifact = [], Collection = [], CreatedAt = [], DownloadUrl = ''/a'', cv_Files = [], GiCommitSha = [], GitUrl = [],
     Href = [], Manifest = [], Marks = [], Metadata = [], cv_Name = [], Namespace = [], RequiresAnsible = [], cv_Signatures = [],
     UpdatedAt = [], cv_Version = []\<rparr>"

definition some_mounts :: "mem mounts" where
  "some_mounts = \<lparr>galaxy_docs = const_json some_version,
     npm_docs = const_json \<lparr>DistTag = [], Modified = [], np_Name = [], np_Versions = []\<rparr>,
     pypi_docs = const_json some_project,
     pprof_handler = \<lambda>_ r binds k. Ret (c_writer k, c_json k, c_world k),
     metrics_handler = \<lambda>r binds k. Ret (c_writer k, c_json k, c_world k),
     static_handler = \<lambda>r binds k. Ret (c_writer k, c_json k, c_world k),
     pages_of = \<lambda>_. Inr \<lparr>list_page = \<lambda>h l. h, index_page = \<lambda>s. []\<rparr>\<rparr>"

definition default_conf :: Config where
  "default_conf = default_services (getBaseConfig (\<lambda>_. None))"

lemma default_startable: "startable some_mounts default_conf"
  unfolding startable_def
  by (intro conjI; code_simp)

lemma default_names: "map srv_Name (servers_of some_mounts default_conf) =
    [''galaxy[https://galaxy.ansible.com]'', ''go[https://proxy.golang.org]'', ''oci[https://registry-1.docker.io]'',
     ''oci[https://gcr.io]'', ''oci[https://quay.io]'', ''oci[https://ghcr.io]'', ''pypi[https://pypi.org/]'',
     ''npm[https://registry.npmjs.org/]'', ''proxy'', ''rubygem[https://rubygems.org]'', ''admin'']"
  by (simp add: servers_of_def default_conf_def default_services_def getBaseConfig_def service_name_def)

theorem servers_started_witness:
  "\<exists>reg. New some_mounts default_conf (Some []) = Ret (servers_of some_mounts default_conf, reg) \<and>
     length (servers_of some_mounts default_conf) = 11"
proof -
  have "EnableMetrics default_conf" by (simp add: default_conf_def default_services_def getBaseConfig_def)
  moreover have "distinct (map srv_Name (servers_of some_mounts default_conf))" unfolding default_names by simp
  moreover have "length (servers_of some_mounts default_conf) = 11"
    using arg_cong [OF default_names, of length] by simp
  ultimately show ?thesis
    using servers_started [of some_mounts default_conf "servers_of some_mounts default_conf"] default_startable by auto
qed

definition two_proxies :: Config where
  "two_proxies = default_conf\<lparr>Proxies := [\<lparr>AllowedUpstreams = [''a''], proxy_Port = 1, proxy_UpstreamCaches = []\<rparr>,
     \<lparr>AllowedUpstreams = [''b''], proxy_Port = 2, proxy_UpstreamCaches = []\<rparr>]\<rparr>"

lemma two_proxies_panic_witness: "\<exists>m. New some_mounts two_proxies (Some []) = Panic m"
  using two_proxies_panic [of two_proxies some_mounts] by (simp add: two_proxies_def)

definition only_proxy :: Config where
  "only_proxy = default_conf\<lparr>AnsibleGalaxies := [], GoProxies := [], OciRegistries := [], PyPIRegistries := [], NpmRegistries := [],
     RubyGemRegistries := [], AdminInterface := [], Proxies := [\<lparr>AllowedUpstreams = [''deb.debian.org''], proxy_Port = 3142, proxy_UpstreamCaches = []\<rparr>]\<rparr>"

theorem requests_are_counted_witness:
  "\<exists>s reg wr jh st stats'. New some_mounts only_proxy None = Ret ([s], reg) \<and>
     srv_Handler s None page_req json_call zero_statistics = Some (Ret ((wr, jh, page_world 0), st, stats')) \<and>
     requests_counted stats' = 1 \<and> BytesServed stats' = of_nat (length (w_data wr))"
proof -
  let ?rs = "proxy_RegisterHandler [''deb.debian.org''] [] :: mem handler route list"
  let ?s = "new_server (address_of only_proxy 3142) ?rs ''proxy'' only_proxy"
  have n: "New some_mounts only_proxy None = Ret ([?s], None)"
    by (simp add: New_iff startable_def servers_of_def only_proxy_def)
  have "case serve (with_catch_all ?rs) page_req json_call of Some (Ret (wr, jh, w)) \<Rightarrow> True | _ \<Rightarrow> False"
    by code_simp
  then obtain wr jh w where s: "serve (srv_Mux ?s) page_req json_call = Some (Ret (wr, jh, w))"
    by (auto split: option.splits go.splits)
  have "ReqHost page_req \<notin> set [''deb.debian.org'']" "w_sent (c_writer json_call) = None"
    by (simp_all add: page_req_def json_call_def new_writer_def)
  with s have "w = page_world 0"
    using proxy_refuses [of page_req "[''deb.debian.org'']" json_call] by (auto simp: json_call_def)
  moreover have "c_writer json_call = new_writer" "quiet_mounts some_mounts"
    by (simp_all add: json_call_def quiet_mounts_def some_mounts_def quiet_def)
  ultimately show ?thesis
    using requests_are_counted [OF _ n _ _ s, of zero_statistics] n by (auto simp: requests_counted_def zero_statistics_def)
qed

end
