(* ===== verification/Shutdown.thy ===== *)
theory Shutdown
  imports Main
begin

text \<open>
  \<open>ListenAndServe\<close> of \<^verbatim>\<open>internal/server/server.go\<close>: the goroutines of the servers, the one that waits for a
  signal or a failure, and those that shut the servers down, as a step relation. The channels have
  no buffer: a send waits for its receiver, and a send on a closed channel panics.
\<close>

section \<open>Goroutines\<close>

text \<open>
  A server listens, waits to report why it stopped, or is gone. Its shutdown has not begun, is
  running, waits to report its result, or is done. \<open>Shutdown\<close> has a deadline and always returns.
\<close>

datatype listening = Listening | Reporting string | Gone

datatype closing = NotBegun | Closing | Closed "string option" | Collected "string option"

datatype main_thread = Selecting | Collecting nat "string option" | Returned "string option" | Crashed string

record run =
  listeners :: "listening list"
  closers :: "closing list"
  main_of :: main_thread

definition start :: "nat \<Rightarrow> run" where
  "start n = \<lparr>listeners = replicate n Listening, closers = replicate n NotBegun, main_of = Selecting\<rparr>"

text \<open>Leaving the \<open>select\<close> starts a goroutine for each server.\<close>

definition begin_shutdown :: "run \<Rightarrow> run" where
  "begin_shutdown s =
     s\<lparr>closers := map (\<lambda>_. Closing) (closers s), main_of := Collecting (length (closers s)) None\<rparr>"

definition running :: "run \<Rightarrow> bool" where
  "running s = (case main_of s of Crashed _ \<Rightarrow> False | _ \<Rightarrow> True)"

inductive lstep :: "run \<Rightarrow> run \<Rightarrow> bool" where
  serve_fails: "lstep s (s\<lparr>listeners := (listeners s)[i := Reporting e]\<rparr>)"
    if "running s" "i < length (listeners s)" "listeners s ! i = Listening"
| serve_closed: "lstep s (s\<lparr>listeners := (listeners s)[i := Gone]\<rparr>)"
    if "running s" "i < length (listeners s)" "listeners s ! i = Listening" "closers s ! i \<noteq> NotBegun"
| stop_signal: "lstep s (begin_shutdown s)"
    if "main_of s = Selecting"
| failure: "lstep s (begin_shutdown (s\<lparr>listeners := (listeners s)[i := Gone]\<rparr>))"
    if "main_of s = Selecting" "i < length (listeners s)" "listeners s ! i = Reporting e"
| shut_down: "lstep s (s\<lparr>closers := (closers s)[i := Closed r]\<rparr>)"
    if "running s" "i < length (closers s)" "closers s ! i = Closing"
| collect: "lstep s (s\<lparr>closers := (closers s)[i := Collected r], main_of := Collecting k (if r = None then lastErr else r)\<rparr>)"
    if "main_of s = Collecting (Suc k) lastErr" "i < length (closers s)" "closers s ! i = Closed r"
| finish_run: "lstep s (s\<lparr>main_of := Returned lastErr\<rparr>)"
    if "main_of s = Collecting 0 lastErr"
| lost_report: "lstep s (s\<lparr>main_of := Crashed ''send on closed channel''\<rparr>)"
    if "main_of s = Returned lastErr" "i < length (listeners s)" "listeners s ! i = Reporting e"

inductive_cases lstepE: "lstep s t"

section \<open>The invariant\<close>

definition is_collected :: "closing \<Rightarrow> bool" where
  "is_collected c = (case c of Collected _ \<Rightarrow> True | _ \<Rightarrow> False)"

text \<open>The error that was kept is one of those collected, and there is one if there is any.\<close>

definition kept_error :: "closing list \<Rightarrow> string option \<Rightarrow> bool" where
  "kept_error cs lastErr \<longleftrightarrow>
     (case lastErr of None \<Rightarrow> \<forall>e. Collected (Some e) \<notin> set cs | Some e \<Rightarrow> Collected (Some e) \<in> set cs)"

definition lwf :: "nat \<Rightarrow> run \<Rightarrow> bool" where
  "lwf n s \<longleftrightarrow> length (listeners s) = n \<and> length (closers s) = n \<and>
     (case main_of s of
        Selecting \<Rightarrow> closers s = replicate n NotBegun
      | Collecting k lastErr \<Rightarrow> NotBegun \<notin> set (closers s) \<and> kept_error (closers s) lastErr \<and>
          length (filter (\<lambda>c. \<not> is_collected c) (closers s)) = k
      | Returned lastErr \<Rightarrow> list_all is_collected (closers s) \<and> kept_error (closers s) lastErr
      | Crashed _ \<Rightarrow> list_all is_collected (closers s))"

lemma lwf_start: "lwf n (start n)"
  by (simp add: lwf_def start_def)

lemma filter_update:
  "i < length xs \<Longrightarrow> length (filter P (xs[i := y])) + (if P (xs ! i) then 1 else 0) = length (filter P xs) + (if P y then 1 else 0)"
proof (induction xs arbitrary: i)
  case (Cons x xs)
  then show ?case by (cases i) auto
qed simp

lemma set_update_iff: "i < length xs \<Longrightarrow> z \<noteq> xs ! i \<Longrightarrow> z \<in> set (xs[i := y]) \<longleftrightarrow> z = y \<or> z \<in> set xs"
proof (induction xs arbitrary: i)
  case (Cons x xs)
  then show ?case by (cases i) auto
qed simp

lemma kept_update:
  assumes "i < length cs" "\<not> is_collected (cs ! i)"
  shows "\<not> is_collected c \<Longrightarrow> kept_error (cs[i := c]) lastErr \<longleftrightarrow> kept_error cs lastErr"
    and "kept_error cs lastErr \<Longrightarrow> kept_error (cs[i := Collected r]) (if r = None then lastErr else r)"
  using assms by (auto simp: kept_error_def is_collected_def set_update_iff split: option.splits closing.splits)

lemma lwf_begin: "length ls = n \<Longrightarrow> closers s = replicate n NotBegun \<Longrightarrow> lwf n (begin_shutdown (s\<lparr>listeners := ls\<rparr>))"
  by (auto simp: lwf_def begin_shutdown_def kept_error_def is_collected_def)

lemma lwf_step:
  assumes "lstep s t" "lwf n s" shows "lwf n t"
  using assms
proof (induction rule: lstep.induct)
  case (stop_signal s)
  then show ?case using lwf_begin [of "listeners s" n s] by (simp add: lwf_def)
next
  case (failure s i e)
  then show ?case using lwf_begin [of "(listeners s)[i := Gone]" n s] by (simp add: lwf_def)
next
  case (shut_down s i r)
  have "\<not> is_collected (Closed r)" "\<not> is_collected (closers s ! i)" using shut_down by (simp_all add: is_collected_def)
  then show ?case
    using shut_down kept_update(1) [of i "closers s" "Closed r"] filter_update [of i "closers s" "\<lambda>c. \<not> is_collected c" "Closed r"]
    by (auto simp: lwf_def running_def set_update_iff list_all_length split: main_thread.splits)
next
  case (collect s k l i r)
  have "\<not> is_collected (closers s ! i)" "is_collected (Collected r)" using collect by (simp_all add: is_collected_def)
  then show ?case
    using collect kept_update(2) [of i "closers s" l r] filter_update [of i "closers s" "\<lambda>c. \<not> is_collected c" "Collected r"]
    by (auto simp: lwf_def set_update_iff)
next
  case (finish_run s l)
  then show ?case by (auto simp: lwf_def list_all_iff filter_empty_conv)
qed (auto simp: lwf_def split: main_thread.splits)

lemma reachable_lwf: "lstep\<^sup>*\<^sup>* (start n) s \<Longrightarrow> lwf n s"
  by (induction rule: rtranclp_induct) (auto intro: lwf_start lwf_step)

section \<open>Termination\<close>

text \<open>What each goroutine still has to do.\<close>

fun to_listen :: "listening \<Rightarrow> nat" where
  "to_listen Listening = 2" | "to_listen (Reporting _) = 1" | "to_listen Gone = 0"

fun to_close :: "closing \<Rightarrow> nat" where
  "to_close NotBegun = 3" | "to_close Closing = 2" | "to_close (Closed _) = 1" | "to_close (Collected _) = 0"

fun to_do :: "main_thread \<Rightarrow> nat" where
  "to_do Selecting = 3" | "to_do (Collecting _ _) = 2" | "to_do (Returned _) = 1" | "to_do (Crashed _) = 0"

definition work :: "run \<Rightarrow> nat" where
  "work s = sum_list (map to_listen (listeners s)) + sum_list (map to_close (closers s)) + to_do (main_of s)"

lemma sum_update: "i < length xs \<Longrightarrow> sum_list (map f (xs[i := y])) + f (xs ! i) = sum_list (map f xs) + (f y :: nat)"
proof (induction xs arbitrary: i)
  case (Cons x xs)
  then show ?case by (cases i) (auto simp: algebra_simps)
qed simp

lemma work_begin:
  assumes "closers s = replicate n NotBegun" "main_of s = Selecting" "sum_list (map to_listen ls) \<le> sum_list (map to_listen (listeners s))"
  shows "work (begin_shutdown (s\<lparr>listeners := ls\<rparr>)) < work s"
  using assms by (simp add: work_def begin_shutdown_def sum_list_replicate)

lemma work_decreases:
  assumes "lstep s t" "lwf n s" shows "work t < work s"
  using assms
proof (induction rule: lstep.induct)
  case (serve_fails s i e)
  then show ?case using sum_update [of i "listeners s" to_listen "Reporting e"] by (simp add: work_def)
next
  case (serve_closed s i)
  then show ?case using sum_update [of i "listeners s" to_listen Gone] by (simp add: work_def)
next
  case (stop_signal s)
  then show ?case using work_begin [of s n "listeners s"] by (simp add: lwf_def)
next
  case (failure s i e)
  then show ?case
    using work_begin [of s n "(listeners s)[i := Gone]"] sum_update [of i "listeners s" to_listen Gone] by (simp add: lwf_def)
next
  case (shut_down s i r)
  then show ?case using sum_update [of i "closers s" to_close "Closed r"] by (simp add: work_def)
next
  case (collect s k l i r)
  then show ?case using sum_update [of i "closers s" to_close "Collected r"] by (simp add: work_def)
qed (simp_all add: work_def)

lemma steps_bound: "(lstep ^^ k) (start n) s \<Longrightarrow> k + work s \<le> work (start n)"
proof (induction k arbitrary: s)
  case (Suc k)
  obtain t where t: "(lstep ^^ k) (start n) t" "lstep t s" using Suc.prems by auto
  have "lwf n t" using reachable_lwf relpowp_imp_rtranclp [OF t(1)] by blast
  with Suc.IH [OF t(1)] work_decreases [OF t(2)] show ?case by fastforce
qed simp

lemma lwf_uncollected:
  assumes "lwf n s" "main_of s = Collecting (Suc k) l"
  shows "\<exists>c \<in> set (closers s). \<not> is_collected c \<and> c \<noteq> NotBegun"
proof -
  have "filter (\<lambda>c. \<not> is_collected c) (closers s) \<noteq> []" "NotBegun \<notin> set (closers s)"
    using assms by (auto simp: lwf_def)
  then show ?thesis by (auto simp: filter_empty_conv)
qed

lemma stuck_finished:
  assumes "lwf n s" "\<And>t. \<not> lstep s t"
  shows "(\<exists>r. main_of s = Returned r) \<or> (\<exists>m. main_of s = Crashed m)"
proof (cases "main_of s")
  case Selecting
  then show ?thesis using assms(2) stop_signal by blast
next
  case (Collecting k l)
  show ?thesis
  proof (cases k)
    case 0
    then show ?thesis using Collecting assms(2) finish_run by blast
  next
    case (Suc j)
    then obtain c where c: "c \<in> set (closers s)" "\<not> is_collected c" "c \<noteq> NotBegun"
      using assms(1) Collecting lwf_uncollected by metis
    obtain i where i: "i < length (closers s)" "closers s ! i = c" using c(1) by (auto simp: in_set_conv_nth)
    have "running s" using Collecting by (simp add: running_def)
    then show ?thesis
      using c i Collecting Suc assms(2) shut_down [of s i] collect [of s j l i]
      by (cases c) (auto simp: is_collected_def)
  qed
qed auto

text \<open>
  C29: \<open>ListenAndServe\<close> ends. From the start of n servers, however the goroutines interleave, no run
  has more than 5n + 3 steps, and a run that cannot go on is one in which the function has
  returned, or the program has crashed.\<close>

theorem shutdown_terminates:
  "((lstep ^^ k) (start n) s \<longrightarrow> k \<le> 5 * n + 3) \<and>
   (lstep\<^sup>*\<^sup>* (start n) s \<and> (\<forall>t. \<not> lstep s t) \<longrightarrow> (\<exists>r. main_of s = Returned r) \<or> (\<exists>m. main_of s = Crashed m))"
proof -
  have "work (start n) = 5 * n + 3" by (simp add: work_def start_def sum_list_replicate)
  then show ?thesis using steps_bound [of k n s] stuck_finished [OF reachable_lwf] by (auto dest!: add_leD1)
qed


section \<open>Failures that nobody hears of\<close>

definition reporting_count :: "run \<Rightarrow> nat" where
  "reporting_count s = length (filter (\<lambda>l. \<exists>e. l = Reporting e) (listeners s))"

text \<open>Only the \<open>select\<close> takes a report, and only one.\<close>

definition unheard :: "run \<Rightarrow> bool" where
  "unheard s \<longleftrightarrow> (case main_of s of Selecting \<Rightarrow> 2 \<le> reporting_count s | Crashed _ \<Rightarrow> True | _ \<Rightarrow> 1 \<le> reporting_count s)"

lemma reporting_begin [simp]: "reporting_count (begin_shutdown s) = reporting_count s"
  "main_of (begin_shutdown s) = Collecting (length (closers s)) None"
  by (simp_all add: reporting_count_def begin_shutdown_def)

lemma reporting_update:
  "i < length (listeners s) \<Longrightarrow>
     reporting_count (s\<lparr>listeners := (listeners s)[i := l]\<rparr>) + (if \<exists>e. listeners s ! i = Reporting e then 1 else 0) =
     reporting_count s + (if \<exists>e. l = Reporting e then 1 else 0)"
  unfolding reporting_count_def using filter_update [of i "listeners s" "\<lambda>l. \<exists>e. l = Reporting e" l] by simp

lemma unheard_step: "lstep s t \<Longrightarrow> unheard s \<Longrightarrow> unheard t"
proof (induction rule: lstep.induct)
  case (serve_fails s i e)
  then show ?case using reporting_update [of i s "Reporting e"] by (auto simp: unheard_def split: main_thread.splits)
next
  case (serve_closed s i)
  then show ?case using reporting_update [of i s Gone] by (auto simp: unheard_def split: main_thread.splits)
next
  case (stop_signal s)
  then show ?case by (simp add: unheard_def)
next
  case (failure s i e)
  then show ?case using reporting_update [of i s Gone] by (simp add: unheard_def)
qed (auto simp: unheard_def reporting_count_def split: main_thread.splits)

lemma unheard_crash:
  assumes "unheard s" "main_of s = Returned r" shows "\<exists>t. lstep s t"
proof -
  have "filter (\<lambda>l. \<exists>e. l = Reporting e) (listeners s) \<noteq> []"
    using assms by (auto simp: unheard_def reporting_count_def)
  then obtain i e where "i < length (listeners s)" "listeners s ! i = Reporting e"
    by (auto simp: filter_empty_conv in_set_conv_nth)
  then show ?thesis using lost_report assms(2) by blast
qed

text \<open>
  When two servers fail before the first failure is noticed, as when two ports are taken, the
  second report is sent on a closed channel: a run that nothing else ends, such as the exit of the
  process, ends with the panic of that goroutine.\<close>

lemma second_failure_crashes:
  assumes "lstep\<^sup>*\<^sup>* (start n) s" "main_of s = Selecting" "2 \<le> reporting_count s"
    and "lstep\<^sup>*\<^sup>* s t" "\<forall>t'. \<not> lstep t t'"
  shows "\<exists>m. main_of t = Crashed m"
proof -
  have "unheard s" using assms(2,3) by (simp add: unheard_def)
  with assms(4) have u: "unheard t" by (induction rule: rtranclp_induct) (auto intro: unheard_step)
  have "lwf n t" using assms(1,4) reachable_lwf by (meson rtranclp_trans)
  then have "(\<exists>r. main_of t = Returned r) \<or> (\<exists>m. main_of t = Crashed m)" using stuck_finished assms(5) by blast
  then show ?thesis using unheard_crash [OF u] assms(5) by blast
qed

section \<open>Examples\<close>

text \<open>One server that is stopped and shuts down with an error.\<close>

definition one_stopped :: run where
  "one_stopped = \<lparr>listeners = [Listening], closers = [Collected (Some ''timeout'')], main_of = Returned (Some ''timeout'')\<rparr>"

lemma one_stopped_reached: "(lstep ^^ 4) (start 1) one_stopped"
proof -
  let ?r = "\<lambda>c m. \<lparr>listeners = [Listening], closers = [c], main_of = m\<rparr>"
  have "lstep (start 1) (?r Closing (Collecting 1 None))"
    using stop_signal [of "start 1"] by (simp add: start_def begin_shutdown_def)
  moreover have "lstep (?r Closing (Collecting 1 None)) (?r (Closed (Some ''timeout'')) (Collecting 1 None))"
    using shut_down [of "?r Closing (Collecting 1 None)" 0 "Some ''timeout''"] by (simp add: running_def)
  moreover have "lstep (?r (Closed (Some ''timeout'')) (Collecting 1 None)) (?r (Collected (Some ''timeout'')) (Collecting 0 (Some ''timeout'')))"
    using collect [of "?r (Closed (Some ''timeout'')) (Collecting 1 None)" 0 None 0 "Some ''timeout''"] by simp
  moreover have "lstep (?r (Collected (Some ''timeout'')) (Collecting 0 (Some ''timeout''))) one_stopped"
    using finish_run [of "?r (Collected (Some ''timeout'')) (Collecting 0 (Some ''timeout''))"] by (simp add: one_stopped_def)
  ultimately show ?thesis by (auto simp: eval_nat_numeral relcompp_apply)
qed

theorem shutdown_terminates_witness: "(lstep ^^ 4) (start 1) one_stopped \<and> (4 :: nat) \<le> 5 * 1 + 3"
  using shutdown_terminates [of 4 1 one_stopped] one_stopped_reached by blast


text \<open>Two servers whose ports are taken.\<close>

definition two_failing :: run where
  "two_failing = \<lparr>listeners = [Reporting ''address in use'', Reporting ''address in use''], closers = [NotBegun, NotBegun], main_of = Selecting\<rparr>"

lemma two_failing_reached: "lstep\<^sup>*\<^sup>* (start 2) two_failing"
proof -
  let ?r = "\<lparr>listeners = [Reporting ''address in use'', Listening], closers = [NotBegun, NotBegun], main_of = Selecting\<rparr>"
  have "lstep (start 2) ?r"
    using serve_fails [of "start 2" 0 "''address in use''"] by (simp add: start_def running_def eval_nat_numeral)
  moreover have "lstep ?r two_failing"
    using serve_fails [of ?r 1 "''address in use''"] by (simp add: running_def two_failing_def)
  ultimately show ?thesis by (meson converse_rtranclp_into_rtranclp r_into_rtranclp)
qed

lemma runs_end: "lwf n s \<Longrightarrow> \<exists>t. lstep\<^sup>*\<^sup>* s t \<and> (\<forall>t'. \<not> lstep t t')"
proof (induction "work s" arbitrary: s rule: less_induct)
  case less
  show ?case
  proof (cases "\<exists>t. lstep s t")
    case True
    then obtain t where "lstep s t" by blast
    with less show ?thesis using work_decreases lwf_step by (meson converse_rtranclp_into_rtranclp)
  qed blast
qed

lemma second_failure_crashes_witness: "\<exists>t m. lstep\<^sup>*\<^sup>* two_failing t \<and> main_of t = Crashed m"
proof -
  obtain t where t: "lstep\<^sup>*\<^sup>* two_failing t" "\<forall>t'. \<not> lstep t t'"
    using runs_end [OF reachable_lwf [OF two_failing_reached]] by blast
  have "main_of two_failing = Selecting" "2 \<le> reporting_count two_failing"
    by (simp_all add: two_failing_def reporting_count_def)
  from second_failure_crashes [OF two_failing_reached this t] t(1) show ?thesis by blast
qed

end
