(* ===== verification/Program.thy ===== *)
theory Program
  imports Server Shutdown
begin

text \<open>
  \<^verbatim>\<open>cmd/locaccel\<close>: starting the program, the health check, and \<open>main\<close>; with them \<open>CreateLogger\<close> of
  \<^verbatim>\<open>internal/logging\<close>. What the servers do between their start and their shutdown is an argument,
  a function that gives the error of \<open>ListenAndServe\<close> and the statistics at the end.
\<close>

section \<open>Starting the servers\<close>

text \<open>\<open>logger.Fatal\<close> exits at once, \<open>logger.Panic\<close> and a panic run the deferred functions.\<close>

datatype outcome = Fatal string | Panicked string | Completed

record 's start_env =
  mkdir_all_at :: "string \<Rightarrow> string option"
  statfs_at :: "string \<Rightarrow> string + int \<times> int"
  storage :: "'s cache_env"
  stats_json :: "Statistics json"
  mounted :: "'s mounts"
  create_stats :: "os_error option"
  serving :: "'s serverInfo list \<Rightarrow> 's cache \<Rightarrow> Statistics \<Rightarrow> string option \<times> Statistics"

text \<open>What is left: how it ended, the file of the statistics, and whether the cache was closed.\<close>

record ended =
  outcome_of :: outcome
  stats_file :: "os_error + string"
  cache_closed :: bool

definition save_deferred :: "'s start_env \<Rightarrow> Statistics \<Rightarrow> os_error + string \<Rightarrow> os_error + string" where
  "save_deferred E stats f =
     (case Statistics_Save (stats_json E) (create_stats E) stats of (_, None) \<Rightarrow> f | (_, Some bytes) \<Rightarrow> Inr bytes)"

text \<open>The registry of a new run; the runtime's own collectors have names of their own.\<close>

definition metrics_registry :: "Config \<Rightarrow> registry option" where
  "metrics_registry conf = (if EnableMetrics conf then Some [] else None)"

definition startServer :: "'s start_env \<Rightarrow> Config \<Rightarrow> fs \<Rightarrow> os_error + string \<Rightarrow> ended" where
  "startServer E conf t f =
     (let stop = (\<lambda>m. \<lparr>outcome_of = Fatal m, stats_file = f, cache_closed = False\<rparr>) in
      case GetQuotaLow (mkdir_all_at E) (statfs_at E) (conf_Cache conf) of
        Inl e \<Rightarrow> stop ''Unable to get low quota for the cache.''
      | Inr qLow \<Rightarrow>
      (case GetQuotaHigh (mkdir_all_at E) (statfs_at E) (conf_Cache conf) of
        Inl e \<Rightarrow> stop ''Unable to get high quota for the cache.''
      | Inr qHigh \<Rightarrow>
      (case NewCache (storage E) qLow qHigh t of
        (Inl e, _) \<Rightarrow> stop ''unable to start server: can't setup cache''
      | (Inr cache, _) \<Rightarrow>
      (case LoadSavedStatistics (stats_json E) f of
        Inl e \<Rightarrow> \<lparr>outcome_of = Panicked ''Unable to load previous statistics. Please remove or fix the file'', stats_file = f,
                  cache_closed = True\<rparr>
      | Inr stats \<Rightarrow>
      (case New (mounted E) conf (metrics_registry conf) of
        Panic m \<Rightarrow> \<lparr>outcome_of = Panicked m, stats_file = save_deferred E stats f, cache_closed = True\<rparr>
      | Ret (servers, _) \<Rightarrow>
      (case serving E servers cache stats of (err, stats') \<Rightarrow>
         \<lparr>outcome_of = (if err = None then Completed else Panicked ''An error occurred while shutting down the server''),
          stats_file = save_deferred E stats' f, cache_closed = True\<rparr>))))))"

section \<open>The health check\<close>

text \<open>The request's result is its status and what closing the body gives.\<close>

definition healthCheck :: "(string \<Rightarrow> net_error + int \<times> io_error option) \<Rightarrow> Config \<Rightarrow> outcome" where
  "healthCheck get conf =
     (case Parse (''http://'' @ AdminInterface conf @ ''/healthcheck'') of
        Inl e \<Rightarrow> Fatal ''Unable to prepare request for healthcheck''
      | Inr _ \<Rightarrow>
          (case get (''http://'' @ AdminInterface conf @ ''/healthcheck'') of
             Inl e \<Rightarrow> Fatal ''The /healthcheck endpoint is unreachable''
           | Inr (status, closeErr) \<Rightarrow>
               if status \<noteq> 200 then Fatal ''The system is not healthy''
               else if closeErr \<noteq> None then Panicked ''unexpected error closing the response's body''
               else Completed))"

section \<open>main\<close>

datatype log_error = ErrInvalidLogFormat string

definition CreateLogger :: "string \<Rightarrow> log_error option" where
  "CreateLogger format = (if format = ''console'' \<or> format = ''json'' then None else Some (ErrInvalidLogFormat format))"

definition locaccel_main ::
    "config_env \<Rightarrow> env \<Rightarrow> bool \<Rightarrow> (Config \<Rightarrow> outcome) \<Rightarrow> (Config \<Rightarrow> outcome) \<Rightarrow> outcome" where
  "locaccel_main E lookupEnv runHealthcheck health server =
     (case loadConfig E lookupEnv of
        Panic m \<Rightarrow> Panicked m
      | Ret (conf, configNotExist, Some err) \<Rightarrow> Fatal ''Error loading configuration''
      | Ret (None, configNotExist, None) \<Rightarrow> Panicked ''nil pointer dereference''
      | Ret (Some conf, configNotExist, None) \<Rightarrow>
          if CreateLogger (Format (conf_Log conf)) \<noteq> None then Fatal ''Error initializing logger''
          else if runHealthcheck then health conf else server conf)"

section \<open>Properties\<close>

definition json_keeps :: "'v json \<Rightarrow> 'v \<Rightarrow> bool" where
  "json_keeps js v \<longleftrightarrow>
     (case js_encode js v of Inl _ \<Rightarrow> False
      | Inr b \<Rightarrow> (case js_scan js b of JError _ \<Rightarrow> False | JValue n m v' \<Rightarrow> v' = Inr v))"

lemma save_then_load:
  assumes "create_stats E = None" "json_keeps (stats_json E) s"
  shows "LoadSavedStatistics (stats_json E) (save_deferred E s f) = Inr s"
  using assms
  by (auto simp: json_keeps_def save_deferred_def Statistics_Save_def LoadSavedStatistics_def split: sum.splits json_scan.splits)

text \<open>The counters at the end: those loaded, if no server could be started.\<close>

definition final_statistics :: "'s start_env \<Rightarrow> Config \<Rightarrow> 's cache \<Rightarrow> Statistics \<Rightarrow> Statistics" where
  "final_statistics E conf cache stats =
     (case New (mounted E) conf (metrics_registry conf) of
        Panic m \<Rightarrow> stats | Ret (servers, _) \<Rightarrow> snd (serving E servers cache stats))"

lemma startServer_ends:
  assumes "\<forall>m. outcome_of (startServer E conf t f) \<noteq> Fatal m" "LoadSavedStatistics (stats_json E) f = Inr stats"
  shows "cache_closed (startServer E conf t f) \<and>
    (\<exists>cache. stats_file (startServer E conf t f) = save_deferred E (final_statistics E conf cache stats) f)"
  using assms
  by (auto simp: startServer_def final_statistics_def Let_def split: sum.splits prod.splits go.splits) (metis snd_conv)


lemma admin_last:
  assumes "New M conf reg = Ret (servers, reg')" "AdminInterface conf \<noteq> []"
  shows "\<exists>pages. pages_of M conf = Inr pages \<and> last servers = new_server (AdminInterface conf) (admin_routes M conf) ''admin'' conf"
  using assms by (auto simp: New_iff startable_def has_pages_def servers_of_def split: sum.splits)

definition health_url :: URL where
  "health_url = url_zero\<lparr>Path := ''/healthcheck''\<rparr>"

lemma health_path: "EscapedPath health_url = ''/healthcheck''" "cleanPath ''/healthcheck'' = ''/healthcheck''"
    "path_segments ''/healthcheck'' = [''healthcheck'']" "path_segments ''/healthcheck/'' = [''healthcheck'', []]"
    "path_unescape ''healthcheck'' = ''healthcheck''"
  by code_simp+

lemma health_route:
  assumes "Method r = ''GET''" "ReqURL r = health_url"
  shows "mux_Handler (with_catch_all (admin_routes M conf)) r = Handle admin_healthcheck [] \<or> (\<forall>p. pages_of M conf \<noteq> Inr p)"
proof (cases "pages_of M conf")
  case (Inr pages)
  have "find_route (with_catch_all (admin_routes M conf)) ''GET'' ''/healthcheck'' = Some ([Lit ''healthcheck''], admin_healthcheck, [])"
    by (simp add: admin_routes_def Inr with_catch_all_def RegisterProfilingHandlers_def admin_RegisterHandler_def method_matches_def health_path)
  then show ?thesis
    using assms by (simp add: mux_Handler_def Let_def health_path exactMatch_def is_rest_def)
qed simp


section \<open>Examples\<close>

definition some_statistics :: Statistics where
  "some_statistics = zero_statistics\<lparr>CacheHits := 1, BytesServed := 5\<rparr>"

definition some_start :: "mem start_env" where
  "some_start = \<lparr>mkdir_all_at = \<lambda>p. None, statfs_at = \<lambda>p. Inr (1000, 4096), storage = cenv page_client, stats_json = const_json some_statistics,
     mounted = some_mounts, create_stats = None, serving = \<lambda>ss c s. (Some ''timeout'', some_statistics)\<rparr>"

lemma some_final: "final_statistics some_start default_conf cache zero_statistics = some_statistics"
proof -
  have "distinct (map srv_Name (servers_of some_mounts default_conf))" unfolding default_names by simp
  then have "New some_mounts default_conf (Some []) = Ret (servers_of some_mounts default_conf, Some (metrics_of (map srv_Name (servers_of some_mounts default_conf))))"
    using default_startable register_all_distinct [of _ "[]"] by (simp add: New_iff metrics_of_def)
  moreover have "EnableMetrics default_conf" by (simp add: default_conf_def default_services_def getBaseConfig_def)
  ultimately show ?thesis by (simp add: final_statistics_def some_start_def metrics_registry_def)
qed

lemma some_start_cache: "\<exists>c t'. NewCache (storage some_start) low high [] = (Inr c, t')"
proof -
  obtain t' where "NewFileCache no_faults low high [] = (Inr \<lparr>quotaLow = low, quotaHigh = high\<rparr>, t')"
    using NewFileCache_inv [of "[]" pad_digest low high] by (auto simp: fs_wf_def gm_wf_def addressed_def fs_file_def)
  then show ?thesis
    by (simp add: NewCache_def some_start_def page_client_def mem_env_def NewDatabase_def mem_badger_def)
qed



end
