(* ===== verification/Benchmarks.thy ===== *)
theory Benchmarks
  imports Prelude
begin

text \<open>
  \<^verbatim>\<open>.github/scripts/format-benchmarks.go\<close>: the report on the benchmarks of a change, from the tables
  that benchstat prints as CSV. The input is the list of its lines, and the repository's name, the
  script's argument, is given in lower case. Every result of every table is in the report.
\<close>

section \<open>Tables\<close>

record Result =
  TestName :: string
  BaseValue :: string
  HeadValue :: string
  Comparison :: string
  PValue :: string

definition index_at :: "'a list \<Rightarrow> nat \<Rightarrow> 'a go" where
  "index_at xs i = (if i < length xs then Ret (xs ! i) else Panic ''index out of range'')"

fun all_empty :: "string list \<Rightarrow> nat list \<Rightarrow> bool go" where
  "all_empty entries [] = Ret True"
| "all_empty entries (i # is) =
     go_bind (index_at entries i) (\<lambda>e. if e \<noteq> [] then Ret False else all_empty entries is)"

definition isNewTable :: "string \<Rightarrow> bool go" where
  "isNewTable line =
     (let entries = split_on CHR '','' line
      in go_bind (all_empty entries [0, 2, 4, 5, 6]) (\<lambda>b.
           if \<not> b then Ret False
           else go_bind (index_at entries 1) (\<lambda>base.
             if base = [] then Ret False
             else go_bind (index_at entries 3) (\<lambda>head. Ret (head \<noteq> [])))))"

text \<open>The plus-minus sign is two bytes in UTF-8.\<close>

definition computeValue :: "string \<Rightarrow> string \<Rightarrow> string" where
  "computeValue v ci =
     (if v = [] then ''n/a'' else if ci = [] then v else v @ '' '' @ [CHR 0xC2, CHR 0xB1] @ '' '' @ ci)"

record preamble =
  pre_goos :: string
  pre_goarch :: string
  pre_cpu :: string
  pre_pkg :: string

text \<open>The lines before the table; the remaining lines, all of them where no table begins.\<close>

fun preamble_loop :: "string \<Rightarrow> string list \<Rightarrow> preamble \<Rightarrow> (preamble \<times> string list option) go" where
  "preamble_loop root [] p = Ret (p, None)"
| "preamble_loop root (line # ls) p =
     (if HasPrefix line ''goos: '' then
        if pre_goos p \<noteq> [] then Panic ''Unexpected entry: 'goos'. Already have an os.''
        else preamble_loop root ls (p\<lparr>pre_goos := drop 6 line\<rparr>)
      else if HasPrefix line ''goarch: '' then
        if pre_goarch p \<noteq> [] then Panic ''Unexpected entry: 'goarch'. Already have an arch.''
        else preamble_loop root ls (p\<lparr>pre_goarch := drop 8 line\<rparr>)
      else if HasPrefix line ''cpu: '' then
        if pre_cpu p \<noteq> [] then Panic ''Unexpected entry: 'cpu'. Already have a cpu.''
        else preamble_loop root ls (p\<lparr>pre_cpu := drop 5 line\<rparr>)
      else if HasPrefix line ''pkg: '' then
        if pre_pkg p \<noteq> [] then Panic ''Unexpected entry: 'pkg'. Already have a pkg.''
        else preamble_loop root ls (p\<lparr>pre_pkg := TrimPrefix (drop 5 line) root\<rparr>)
      else go_bind (isNewTable line) (\<lambda>b.
        if b then Ret (p, Some (line # ls)) else Panic (''Unable to handle line: '' @ line)))"

definition parse_row :: "string \<Rightarrow> Result go" where
  "parse_row row =
     (let cols = split_on CHR '','' row
      in if length cols \<noteq> 7 then Panic (''Unexpected length for row: '' @ row)
         else Ret \<lparr>TestName = cols ! 0, BaseValue = computeValue (cols ! 1) (cols ! 2),
                   HeadValue = computeValue (cols ! 3) (cols ! 4), Comparison = cols ! 5, PValue = cols ! 6\<rparr>)"

fun rows_loop :: "string list \<Rightarrow> Result list \<Rightarrow> Result list go" where
  "rows_loop [] results = Ret results"
| "rows_loop (row # rows) results =
     go_bind (parse_row row) (\<lambda>r. rows_loop rows (if TestName r = ''geomean'' then r # results else results @ [r]))"

record table =
  t_pre :: preamble
  t_base :: string
  t_head :: string
  t_unit :: string
  t_results :: "Result list"

definition parseTable :: "string list \<Rightarrow> string \<Rightarrow> table go" where
  "parseTable lines root =
     go_bind (preamble_loop root lines \<lparr>pre_goos = [], pre_goarch = [], pre_cpu = [], pre_pkg = []\<rparr>) (\<lambda>(p, rest).
       let ls = (case rest of None \<Rightarrow> lines | Some ls \<Rightarrow> ls)
       in go_bind (index_at ls 0) (\<lambda>titles.
          go_bind (index_at (split_on CHR '','' titles) 1) (\<lambda>base.
          go_bind (index_at (split_on CHR '','' titles) 3) (\<lambda>head.
          go_bind (index_at ls 1) (\<lambda>units.
          go_bind (index_at (split_on CHR '','' units) 1) (\<lambda>u.
          go_bind (rows_loop (drop 2 ls) []) (\<lambda>results.
            Ret \<lparr>t_pre = p, t_base = base, t_head = head, t_unit = u, t_results = results\<rparr>)))))))"

section \<open>The report\<close>

record report =
  r_goos :: string
  r_goarch :: string
  r_cpu :: string
  baseFile :: string
  headFile :: string
  r_pkg :: string
  r_units :: "string list"
  resultsPerUnit :: "(string, (string, Result list) gomap) gomap"

definition empty_report :: report where
  "empty_report = \<lparr>r_goos = [], r_goarch = [], r_cpu = [], baseFile = [], headFile = [], r_pkg = [],
     r_units = [], resultsPerUnit = []\<rparr>"

text \<open>A value that only one of the tables may give.\<close>

definition only_once :: "string \<Rightarrow> string \<Rightarrow> string \<Rightarrow> string go" where
  "only_once what old new =
     (if new = [] then Ret old
      else if old \<noteq> [] then Panic (''Found two different '' @ what @ ''? '' @ old @ '' vs '' @ new)
      else Ret new)"

text \<open>A value that all of the tables must agree on.\<close>

definition same_as :: "string \<Rightarrow> string \<Rightarrow> string \<Rightarrow> string go" where
  "same_as what old new =
     (if old = [] then Ret new
      else if old \<noteq> new then Panic (''Found two different '' @ what @ '' files? '' @ old @ '' vs '' @ new)
      else Ret old)"

definition results_of :: "report \<Rightarrow> string \<Rightarrow> string \<Rightarrow> Result list" where
  "results_of r u p =
     (case map_of (resultsPerUnit r) u of
        None \<Rightarrow> []
      | Some m \<Rightarrow> (case map_of m p of None \<Rightarrow> [] | Some rs \<Rightarrow> rs))"

definition add_table :: "table \<Rightarrow> report \<Rightarrow> report go" where
  "add_table t r =
     go_bind (only_once ''goos'' (r_goos r) (pre_goos (t_pre t))) (\<lambda>goos.
     go_bind (only_once ''goarch'' (r_goarch r) (pre_goarch (t_pre t))) (\<lambda>goarch.
     go_bind (only_once ''cpu'' (r_cpu r) (pre_cpu (t_pre t))) (\<lambda>cpu.
     go_bind (same_as ''base'' (baseFile r) (t_base t)) (\<lambda>base.
     go_bind (same_as ''head'' (headFile r) (t_head t)) (\<lambda>head.
       let pkg = (if pre_pkg (t_pre t) \<noteq> [] then pre_pkg (t_pre t) else r_pkg r);
           u = t_unit t;
           m = (case map_of (resultsPerUnit r) u of None \<Rightarrow> [] | Some m \<Rightarrow> m)
       in Ret \<lparr>r_goos = goos, r_goarch = goarch, r_cpu = cpu, baseFile = base, headFile = head, r_pkg = pkg,
               r_units = (if u \<in> set (r_units r) then r_units r else r_units r @ [u]),
               resultsPerUnit = gm_set (resultsPerUnit r) u (gm_set m pkg (results_of r u pkg @ t_results t))\<rparr>)))))"

fun scan_loop :: "string \<Rightarrow> string list \<Rightarrow> string list \<Rightarrow> report \<Rightarrow> report go" where
  "scan_loop root [] lines r = Ret r"
| "scan_loop root (line # input) lines r =
     (if line \<noteq> [] then scan_loop root input (lines @ [line]) r
      else go_bind (parseTable lines root) (\<lambda>t. go_bind (add_table t r) (scan_loop root input [])))"

text \<open>
  The template, which ranges over a map in the order of its keys. A closing \<^verbatim>\<open>-}}\<close> removes the white
  space that follows, so that only the rows and the ends of the two outer loops end a line.
\<close>

definition newline :: string where
  "newline = [CHR 0x0A]"

definition range_map :: "(string, 'v) gomap \<Rightarrow> (string \<times> 'v) list" where
  "range_map m = sort_key fst m"

definition result_row :: "string \<Rightarrow> nat \<Rightarrow> Result \<Rightarrow> string" where
  "result_row pkg idx r =
     (if idx = 0
      then ''|'' @ pkg @ ''| **'' @ TestName r @ ''** | **'' @ BaseValue r @ ''**|**'' @ HeadValue r @ ''** | **'' @
           Comparison r @ ''** |''
      else ''||'' @ TestName r @ ''|'' @ BaseValue r @ ''|'' @ HeadValue r @ ''|'' @ Comparison r @ '' ('' @ PValue r @ '')|'') @
     newline"

definition package_rows :: "string \<times> Result list \<Rightarrow> string" where
  "package_rows = (\<lambda>(pkg, results). concat (map (\<lambda>(idx, r). result_row pkg idx r) (enumerate 0 results)))"

definition unit_section :: "report \<Rightarrow> string \<Rightarrow> string" where
  "unit_section rep u =
     ''### '' @ u @ newline @ newline @
     ''|Package   |Test|'' @ baseFile rep @ ''|'' @ headFile rep @ ''|vs '' @ baseFile rep @ ''|'' @ newline @
     ''|----------|----|----------------|----------------|-------------------|'' @ newline @
     concat (map package_rows (range_map (case map_of (resultsPerUnit rep) u of None \<Rightarrow> [] | Some m \<Rightarrow> m))) @ newline"

definition report_text :: "report \<Rightarrow> string" where
  "report_text rep =
     ''### Environment:'' @ newline @ newline @ ''- OS: '' @ r_goos rep @ newline @ ''- Arch: '' @ r_cpu rep @ newline @
     ''- Goarch: '' @ r_goarch rep @ newline @ newline @ concat (map (unit_section rep) (r_units rep)) @ newline"

text \<open>\<open>err\<close> is the scanner's error.\<close>

definition benchmarks_main :: "string \<Rightarrow> string list \<Rightarrow> string option \<Rightarrow> string go" where
  "benchmarks_main root input err =
     go_bind (scan_loop root input [] empty_report) (\<lambda>r. case err of Some e \<Rightarrow> Panic e | None \<Rightarrow> Ret (report_text r))"

section \<open>What the script reports\<close>

text \<open>A table as benchstat writes it.\<close>

definition csv_row :: "string list \<Rightarrow> string" where
  "csv_row cols = Join cols '',''"

definition cells :: "string list \<Rightarrow> bool" where
  "cells cols \<longleftrightarrow> length cols = 7 \<and> (\<forall>c \<in> set cols. CHR '','' \<notin> set c)"

definition title_row :: "string \<Rightarrow> string \<Rightarrow> string" where
  "title_row base head = csv_row [[], base, [], head, [], [], []]"

definition row_result :: "string list \<Rightarrow> Result" where
  "row_result cols = \<lparr>TestName = cols ! 0, BaseValue = computeValue (cols ! 1) (cols ! 2),
     HeadValue = computeValue (cols ! 3) (cols ! 4), Comparison = cols ! 5, PValue = cols ! 6\<rparr>"

definition is_geomean :: "Result \<Rightarrow> bool" where
  "is_geomean r \<longleftrightarrow> TestName r = ''geomean''"

lemma split_csv: "cols \<noteq> [] \<Longrightarrow> \<forall>c \<in> set cols. CHR '','' \<notin> set c \<Longrightarrow> split_on CHR '','' (csv_row cols) = cols"
proof (induction cols)
  case (Cons c cols)
  then show ?case
    by (cases cols) (auto simp: csv_row_def split_on_no_sep split_on_append)
qed simp

lemma cells_split: "cells cols \<Longrightarrow> split_on CHR '','' (csv_row cols) = cols"
  by (rule split_csv) (auto simp: cells_def)

lemma parse_row_csv: "cells cols \<Longrightarrow> parse_row (csv_row cols) = Ret (row_result cols)"
  by (simp add: parse_row_def cells_split row_result_def Let_def) (simp add: cells_def)

text \<open>The means come first, the last one at the top; the tests follow in their order.\<close>

lemma rows_loop_csv:
  "\<forall>r \<in> set rows. cells r \<Longrightarrow>
   rows_loop (map csv_row rows) acc =
     Ret (rev (filter is_geomean (map row_result rows)) @ acc @ filter (\<lambda>r. \<not> is_geomean r) (map row_result rows))"
  by (induction rows arbitrary: acc) (auto simp: parse_row_csv is_geomean_def)

lemma isNewTable_title:
  assumes "base \<noteq> []" "head \<noteq> []" "CHR '','' \<notin> set base" "CHR '','' \<notin> set head"
  shows "isNewTable (title_row base head) = Ret True"
proof -
  have "split_on CHR '','' (title_row base head) = [[], base, [], head, [], [], []]"
    unfolding title_row_def by (rule split_csv) (use assms in auto)
  then show ?thesis using assms by (simp add: isNewTable_def Let_def index_at_def)
qed

lemma preamble_title:
  "isNewTable (title_row base head) = Ret True \<Longrightarrow> preamble_loop root (title_row base head # ls) p = Ret (p, Some (title_row base head # ls))"
  by (simp add: title_row_def csv_row_def HasPrefix_def)

text \<open>
  A table is read as it was written: its two files, its unit, and a result for every row, the
  means first.
\<close>

lemma parseTable_csv:
  assumes "base \<noteq> []" "head \<noteq> []" "CHR '','' \<notin> set base" "CHR '','' \<notin> set head"
    and "\<forall>r \<in> set rows. cells r" "cells us"
  shows "\<exists>t. parseTable (title_row base head # csv_row us # map csv_row rows) root = Ret t \<and>
    t_base t = base \<and> t_head t = head \<and> t_unit t = us ! 1 \<and>
    t_results t = rev (filter is_geomean (map row_result rows)) @ filter (\<lambda>r. \<not> is_geomean r) (map row_result rows)"
proof -
  have s: "split_on CHR '','' (title_row base head) = [[], base, [], head, [], [], []]"
    unfolding title_row_def by (rule split_csv) (use assms in auto)
  have u: "split_on CHR '','' (csv_row us) = us" "length us = 7"
    using cells_split assms(6) by (auto simp: cells_def)
  show ?thesis
    using rows_loop_csv [OF assms(5), of "[]"]
    by (simp add: parseTable_def preamble_title [OF isNewTable_title [OF assms(1-4)]] s u Let_def index_at_def
        del: preamble_loop.simps split_on.simps)
qed

text \<open>
  The lines after the last empty one are never read: a table that is not followed by an empty line
  is missing from the report.
\<close>

lemma scan_nonempty: "[] \<notin> set input \<Longrightarrow> scan_loop root input lines r = Ret r"
  by (induction input arbitrary: lines) auto

lemma scan_append: "[] \<notin> set rest \<Longrightarrow> scan_loop root (input @ rest) lines r = scan_loop root input lines r"
proof (induction input arbitrary: lines r)
  case (Cons line input)
  have "go_bind (add_table t r) (scan_loop root (input @ rest) []) = go_bind (add_table t r) (scan_loop root input [])" for t
    using Cons by (cases "add_table t r") simp_all
  then show ?case using Cons by simp
qed (simp add: scan_nonempty)

text \<open>Two empty lines in a row, or one at the beginning, are a table without a title: the script panics.\<close>

lemma empty_table_panics: "\<exists>m. scan_loop root ([] # input) [] r = Panic m"
  by (simp add: parseTable_def index_at_def)

text \<open>Adding a table appends its results under its unit and package, and changes no other.\<close>

lemma add_table_results:
  assumes "add_table t r = Ret r'"
  shows "results_of r' u p =
    results_of r u p @ (if u = t_unit t \<and> p = r_pkg r' then t_results t else []) \<and>
    set (r_units r') = insert (t_unit t) (set (r_units r))"
proof -
  let ?m = "case map_of (resultsPerUnit r) (t_unit t) of None \<Rightarrow> [] | Some m \<Rightarrow> m"
  have r': "resultsPerUnit r' = gm_set (resultsPerUnit r) (t_unit t)
      (gm_set ?m (r_pkg r') (results_of r (t_unit t) (r_pkg r') @ t_results t))"
    "r_units r' = (if t_unit t \<in> set (r_units r) then r_units r else r_units r @ [t_unit t])"
    using assms by (auto simp: add_table_def Let_def)
  have "results_of r (t_unit t) p = (case map_of ?m p of None \<Rightarrow> [] | Some rs \<Rightarrow> rs)" for p
    by (simp add: results_of_def split: option.splits)
  then have "results_of r' u p = results_of r u p @ (if u = t_unit t \<and> p = r_pkg r' then t_results t else [])"
    by (simp add: results_of_def [of r'] r'(1)) (simp add: results_of_def)
  then show ?thesis using r'(2) by auto
qed

section \<open>The report is complete\<close>

lemma concat_member: "x \<in> set xs \<Longrightarrow> \<exists>a b. concat xs = a @ x @ b"
  by (metis concat.simps(2) concat_append split_list)

definition shows_result :: "string \<Rightarrow> Result \<Rightarrow> bool" where
  "shows_result s x \<longleftrightarrow> (\<exists>pkg idx a b. s = a @ result_row pkg idx x @ b)"

lemma shows_append:
  "shows_result s x \<Longrightarrow> shows_result (a @ s) x"
  "shows_result s x \<Longrightarrow> shows_result (s @ b) x"
  unfolding shows_result_def by (metis append.assoc)+

lemma shows_concat:
  assumes "s \<in> set ss" "shows_result s x"
  shows "shows_result (concat ss) x"
proof -
  obtain a b where "concat ss = a @ s @ b" using concat_member [OF assms(1)] by blast
  then show ?thesis using assms(2) by (simp add: shows_append)
qed

lemma package_rows_shows:
  assumes "x \<in> set rs"
  shows "shows_result (package_rows (pkg, rs)) x"
proof -
  obtain i where "i < length rs" "rs ! i = x" using assms by (auto simp: in_set_conv_nth)
  then have "(i, x) \<in> set (enumerate 0 rs)" by (auto simp: in_set_enumerate_eq)
  then have "result_row pkg i x \<in> set (map (\<lambda>(idx, r). result_row pkg idx r) (enumerate 0 rs))" by force
  from concat_member [OF this] show ?thesis unfolding shows_result_def package_rows_def by simp blast
qed

lemma report_shows:
  assumes "u \<in> set (r_units rep)" "x \<in> set (results_of rep u pkg)"
  shows "shows_result (report_text rep) x"
proof -
  obtain m rs where m: "map_of (resultsPerUnit rep) u = Some m" "map_of m pkg = Some rs" "x \<in> set rs"
    using assms(2)
    by (cases "map_of (resultsPerUnit rep) u"; cases "map_of (the (map_of (resultsPerUnit rep) u)) pkg") (auto simp: results_of_def)
  from m(2) have "(pkg, rs) \<in> set (range_map m)" by (simp add: range_map_def map_of_SomeD)
  then have "shows_result (concat (map package_rows (range_map m))) x"
    using package_rows_shows [OF m(3), of pkg] by (intro shows_concat) auto
  then have "shows_result (unit_section rep u) x"
    unfolding unit_section_def m(1) option.case append_assoc [symmetric] by (rule shows_append(2) [OF shows_append(1)])
  then have "shows_result (concat (map (unit_section rep) (r_units rep))) x"
    using assms(1) by (intro shows_concat) auto
  then show ?thesis
    unfolding report_text_def append_assoc [symmetric] by (rule shows_append(2) [OF shows_append(1)])
qed

text \<open>The results that are collected are never lost again.\<close>

lemma scan_keeps:
  "scan_loop root input lines r = Ret r' \<Longrightarrow>
   set (results_of r u p) \<subseteq> set (results_of r' u p) \<and> set (r_units r) \<subseteq> set (r_units r')"
proof (induction input arbitrary: lines r)
  case (Cons line input)
  show ?case
  proof (cases "line = []")
    case True
    then obtain t r1 where t: "add_table t r = Ret r1" "scan_loop root input [] r1 = Ret r'"
      using Cons.prems by auto
    then show ?thesis using Cons.IH [OF t(2)] add_table_results [OF t(1), of u p] by auto
  next
    case False
    then show ?thesis using Cons.IH [of "lines @ [line]" r] Cons.prems by simp
  qed
qed simp

lemma scan_block:
  "[] \<notin> set ls \<Longrightarrow> scan_loop root (ls @ [] # input) lines r =
     go_bind (parseTable (lines @ ls) root) (\<lambda>t. go_bind (add_table t r) (scan_loop root input []))"
  by (induction ls arbitrary: lines) auto

text \<open>The input that consists of the tables \<open>blocks\<close>, each followed by an empty line.\<close>

definition input_of :: "string list list \<Rightarrow> string list" where
  "input_of blocks = concat (map (\<lambda>ls. ls @ [[]]) blocks)"

lemma scan_collects:
  assumes "scan_loop root (input_of blocks) [] r = Ret r'" "\<forall>ls \<in> set blocks. [] \<notin> set ls" "ls \<in> set blocks"
  shows "\<exists>t p. parseTable ls root = Ret t \<and> t_unit t \<in> set (r_units r') \<and>
    set (t_results t) \<subseteq> set (results_of r' (t_unit t) p)"
  using assms
proof (induction blocks arbitrary: r)
  case (Cons b blocks)
  have "go_bind (parseTable b root) (\<lambda>t. go_bind (add_table t r) (scan_loop root (input_of blocks) [])) = Ret r'"
    using scan_block [of b root "input_of blocks" "[]" r] Cons.prems(1,2) by (simp add: input_of_def)
  then obtain t r1 where t: "parseTable b root = Ret t" "add_table t r = Ret r1" "scan_loop root (input_of blocks) [] r1 = Ret r'"
    by auto
  show ?case
  proof (cases "ls = b")
    case True
    then show ?thesis
      using t(1) add_table_results [OF t(2), of "t_unit t" "r_pkg r1"] scan_keeps [OF t(3), of "t_unit t" "r_pkg r1"] by auto
  next
    case False
    then show ?thesis using Cons.IH [OF t(3)] Cons.prems(2,3) by simp
  qed
qed simp

text \<open>Every result of every table that is followed by an empty line is in the report.\<close>

lemma report_complete:
  assumes "benchmarks_main root (input_of blocks) None = Ret out" "\<forall>ls \<in> set blocks. [] \<notin> set ls" "ls \<in> set blocks"
  shows "\<exists>t. parseTable ls root = Ret t \<and> (\<forall>x \<in> set (t_results t). shows_result out x)"
proof -
  obtain r where r: "scan_loop root (input_of blocks) [] empty_report = Ret r" "out = report_text r"
    using assms(1) by (auto simp: benchmarks_main_def)
  then show ?thesis using scan_collects [OF r(1) assms(2,3)] report_shows by (metis subsetD)
qed

end
