(* ===== verification/Spec2Isabelle.thy ===== *)
theory Spec2Isabelle
  imports Prelude GoTime Headers CacheControl Vary Freshness Caching TeeReader FileCache BlobStore
    Eviction Database CompareAndSwap GoURL Cache CacheConsistency Client Serving Storing Revalidation
    Lineage Provenance Progress Units Handlers Forwarding Registries Services Middleware Config Server Shutdown
    Program Benchmarks
begin

text \<open>
  A verification of locaccel, a caching HTTP proxy in Go for the registries of packages (PyPI, npm,
  Go modules, OCI images, Ansible Galaxy, RubyGems) and for a list of plain hosts.

  \<^bold>\<open>The program.\<close> \<^verbatim>\<open>cmd/locaccel\<close> loads the configuration, opens the cache and starts one HTTP
  server per configured service, and one for administration (\<^verbatim>\<open>internal/server\<close>). A server's handler
  (\<^verbatim>\<open>internal/handlers\<close>) translates a request into one for the service's upstream and hands it to the
  caching client (\<^verbatim>\<open>internal/httpclient\<close>), then copies the response to its client, rewriting the links
  of some documents. The client answers from the cache when a stored response is fresh, revalidates
  or forwards otherwise, and stores what may be stored while the body is passed on
  (\<^verbatim>\<open>internal/teereader\<close>). Entries are in a database with optimistic locking
  (\<^verbatim>\<open>internal/database\<close>, on badger), bodies in files that are named by their hash
  (\<^verbatim>\<open>internal/filecache\<close>), which a background task evicts by age. Middlewares
  (\<^verbatim>\<open>internal/middleware\<close>) count what is served.

  \<^bold>\<open>Theories and sources.\<close> Paths are under \<^verbatim>\<open>src/\<close>; definitions have the names of the source where
  HOL allows it, methods with a prefix (\<open>db_Save\<close>, \<open>fc_Open\<close>, \<open>cache_Remove\<close>).
    \<^item> \<open>Prelude\<close>, \<open>GoTime\<close>, \<open>GoURL\<close>: what the code uses of Go. Results that may panic (\<open>go\<close>), 64-bit
      integers, strings, \<open>strconv\<close>, maps as association lists; times, durations and the dates of
      HTTP; \<open>net/url\<close>.
    \<^item> \<open>Headers\<close>, \<open>CacheControl\<close>, \<open>Vary\<close>, \<open>Freshness\<close>, \<open>Caching\<close>:
      \<^verbatim>\<open>internal/httpclient/internal/httpcaching\<close>, \<^verbatim>\<open>internal/httpheaders\<close> and the removal of hop-by-hop
      fields. The parser of Cache-Control is equivalent to a declarative reading of the field, ages
      follow RFC 9111, freshness only expires, a request selects a variant exactly if the fields
      named by Vary agree, and the storing policy is stated in full.
    \<^item> \<open>TeeReader\<close>, \<open>FileCache\<close>, \<open>BlobStore\<close>, \<open>Eviction\<close>: \<^verbatim>\<open>internal/teereader\<close>, \<^verbatim>\<open>internal/filecache\<close>.
      The state is the tree of files; every call of the operating system may fail. A file that is
      opened under a hash has that hash after any sequence of operations, what was ingested is what
      is opened, complete bodies are stored, and \<open>Prune\<close> removes the least recently used files down
      to the low quota and no others.
    \<^item> \<open>Database\<close>, \<open>CompareAndSwap\<close>: \<^verbatim>\<open>internal/database\<close>. The locale \<open>badger\<close> is the contract of the
      key-value store, \<open>versioned_store\<close> what the database promises, derived from it by a sublocale;
      \<open>mem\<close> interprets both. No update is lost, and the database refines an abstract
      compare-and-swap store along every history.
    \<^item> \<open>Cache\<close>, \<open>CacheConsistency\<close>: \<^verbatim>\<open>internal/httpclient/cache.go\<close>. After a clean-up every key holds
      exactly the responses whose body is left; removal deletes a key and its bodies; the
      background goroutine, a step relation, never uses a closed database.
    \<^item> \<open>Client\<close>, \<open>Serving\<close>, \<open>Storing\<close>, \<open>Revalidation\<close>: \<^verbatim>\<open>internal/httpclient/client.go\<close>. \<open>Do\<close> passes a
      \<open>world\<close> along: the cache, the readings of the clock, what was sent and reported. What is served
      without the upstream is stored, matching and fresh; what was stored is served; stale responses
      are served when the upstreams fail; a 304 answer serves and refreshes the stored response;
      upstreams are asked in order.
    \<^item> \<open>Lineage\<close>, \<open>Provenance\<close>: the client, the database, the file cache and the clean-up as one step
      relation, \<open>sys_step\<close>. A request that has to go upstream is two steps, looking the entry up and
      what follows the answer, so that requests interleave while they wait; clients read and close
      bodies in between, requests panic, the program restarts. \<open>Lineage\<close> holds the locale
      \<open>caching_system\<close>, what the components rely on, and the invariant of the cache, which every
      operation keeps; \<open>Provenance\<close> derives that a body served from the cache for a request was
      received for the same method and URL.
    \<^item> \<open>Progress\<close>: a request returns, with a response or an error, when the entry it has read is sound:
      the conditions exclude the panics that \<open>revalidation_panics\<close> and \<open>EtagsMatch_empty_panics\<close> show.
    \<^item> \<open>Handlers\<close>, \<open>Forwarding\<close>: \<^verbatim>\<open>internal/handlers/utils.go\<close>, \<^verbatim>\<open>handlers.go\<close>. What the client receives
      is what is stored, conditional requests and failures get their statuses, rewritten bodies
      their length and encoding.
    \<^item> \<open>Registries\<close>, \<open>Services\<close>: the packages of \<^verbatim>\<open>internal/handlers\<close> on a model of \<open>http.ServeMux\<close>. The
      proxy serves only the hosts that are allowed, npm documents are rewritten completely, and the
      links of the Python index lead back to their files.
    \<^item> \<open>Units\<close>, \<open>Config\<close>, \<open>Middleware\<close>, \<open>Server\<close>, \<open>Shutdown\<close>, \<open>Program\<close>: \<^verbatim>\<open>internal/units\<close>,
      \<^verbatim>\<open>internal/config\<close>, \<^verbatim>\<open>internal/middleware\<close>, \<^verbatim>\<open>internal/types/atomic\<close>, \<^verbatim>\<open>internal/server\<close>,
      \<^verbatim>\<open>internal/logging/logging.go\<close> and \<^verbatim>\<open>cmd/locaccel\<close>. The locale \<open>service_setup\<close> is what the eight
      functions that set a service up have in common; each of them interprets it. The environment
      overrides the file, exactly the configured services are started, every request is counted
      once, the counters survive restarts, the health check fits the admin interface, and
      \<open>ListenAndServe\<close>, a step relation of its goroutines, terminates within 5n + 3 steps.
    \<^item> \<open>Benchmarks\<close>: \<^verbatim>\<open>.github/scripts/format-benchmarks.go\<close>, a script of the continuous integration. Tables
      are read as they were written, collected by unit and package, and printed: every result of a
      table is in the report, except for a table that is not followed by an empty line.

  \<^bold>\<open>Arguments.\<close> What is not in the repository is an argument of the definitions: badger, the msgpack
  codec, BLAKE3, the network, the clock, the YAML decoder, encoding/json, gzip, prometheus, the
  templates of the admin pages. Where a theorem needs something of them it is a hypothesis
  (\<open>badger\<close>, \<open>codec_ok\<close>, \<open>json_keeps\<close>, \<open>quiet\<close>), and its witness instantiates it. float64 is a
  rational that is rounded to 53 bits after every operation, where the code computes sizes.

  \<^bold>\<open>Loops.\<close> All of them end and are total functions: most are structural, \<open>CopyBuffer\<close> and \<open>read_all\<close>
  decrease the rest of the body. There is no fuel. Requests interleave in the model
  between the operations on the cache in the histories of \<open>Database\<close>, \<open>BlobStore\<close> and \<open>Eviction\<close>,
  while they wait for the upstream and while their bodies are read and closed in \<open>Provenance\<close>, and
  between the goroutines of \<open>Cache\<close> and \<open>Shutdown\<close>. In \<open>Do\<close> itself the request runs to its end.

  \<^bold>\<open>Not modelled.\<close> Logging and tracing, the values of the metrics, the output of the templates of
  the admin pages, the options of the transport, \<^verbatim>\<open>internal/logging/adapter.go\<close> and
  \<^verbatim>\<open>internal/version\<close>, which keep no state and decide nothing; the helpers of the tests.
  \<open>ServeMux\<close> is modelled for the patterns that the code registers. Data races inside one operation
  are outside of the model.

  \<^bold>\<open>What the proofs found.\<close> Some lemmas prove that the code does what it should not:
  \<open>quota_percent_ignored\<close>, \<open>pretty_bytes_limit\<close>, \<open>Prune_vanished_panics\<close>, \<open>revalidation_panics\<close>,
  \<open>pooled_entry_leaks\<close>, \<open>upstream_path_escaping\<close>, \<open>forward_panics\<close>, \<open>json_handler_poisoned\<close>,
  \<open>two_proxies_panic\<close>, \<open>second_failure_crashes\<close>.
\<close>

end
